theory Spec2Isabelle
  imports Complex_Main "HOL-Library.Word"
begin

unbundle bit_operations_syntax

section \<open>Scalar types of the host and of the device\<close>

type_synonym uint8_t = "8 word"
type_synonym uint16_t = "16 word"
type_synonym uint = "32 word"
type_synonym cl_int = "32 word"
type_synonym cl_mem = nat

text \<open>
  A \<open>float\<close> of OpenCL C is an IEEE-754 binary32 number. A finite one is the rational it
  denotes; the two infinities and NaN are values of their own. The two zeros are
  identified, so the sign of an infinity that a division by zero produces follows the
  dividend alone.
\<close>

datatype cl_float = Finite rat | PInf | NInf | NaN

definition f32_exponent :: "rat \<Rightarrow> int" where
  "f32_exponent q =
     (case find (\<lambda>k. 2 powi k \<le> \<bar>q\<bar>) (rev [-126..127]) of
        Some k \<Rightarrow> k
      | None \<Rightarrow> -126)"

definition round_even :: "rat \<Rightarrow> int" where
  "round_even x =
     (let f = \<lfloor>x\<rfloor>; d = x - of_int f
      in if d < 1/2 then f else if 1/2 < d then f + 1 else if even f then f else f + 1)"

definition f32_round :: "rat \<Rightarrow> rat" where
  "f32_round q = (let u = 2 powi (f32_exponent q - 23) in of_int (round_even (q / u)) * u)"

definition to_float :: "rat \<Rightarrow> cl_float" where
  "to_float q =
     (let r = f32_round q
      in if 2 ^ 128 \<le> r then PInf else if r \<le> - (2 ^ 128) then NInf else Finite r)"

fun fneg :: "cl_float \<Rightarrow> cl_float" where
  "fneg (Finite a) = Finite (- a)"
| "fneg PInf = NInf"
| "fneg NInf = PInf"
| "fneg NaN = NaN"

fun fadd :: "cl_float \<Rightarrow> cl_float \<Rightarrow> cl_float" where
  "fadd (Finite a) (Finite b) = to_float (a + b)"
| "fadd NaN _ = NaN"
| "fadd _ NaN = NaN"
| "fadd PInf NInf = NaN"
| "fadd NInf PInf = NaN"
| "fadd PInf _ = PInf"
| "fadd _ PInf = PInf"
| "fadd NInf _ = NInf"
| "fadd _ NInf = NInf"

definition fsub :: "cl_float \<Rightarrow> cl_float \<Rightarrow> cl_float" where
  "fsub a b = fadd a (fneg b)"

definition inf_of_sign :: "bool \<Rightarrow> cl_float" where
  "inf_of_sign positive = (if positive then PInf else NInf)"

fun fmul :: "cl_float \<Rightarrow> cl_float \<Rightarrow> cl_float" where
  "fmul (Finite a) (Finite b) = to_float (a * b)"
| "fmul NaN _ = NaN"
| "fmul _ NaN = NaN"
| "fmul (Finite a) PInf = (if a = 0 then NaN else inf_of_sign (0 < a))"
| "fmul (Finite a) NInf = (if a = 0 then NaN else inf_of_sign (a < 0))"
| "fmul PInf (Finite b) = (if b = 0 then NaN else inf_of_sign (0 < b))"
| "fmul NInf (Finite b) = (if b = 0 then NaN else inf_of_sign (b < 0))"
| "fmul PInf PInf = PInf"
| "fmul NInf NInf = PInf"
| "fmul PInf NInf = NInf"
| "fmul NInf PInf = NInf"

fun fdiv :: "cl_float \<Rightarrow> cl_float \<Rightarrow> cl_float" where
  "fdiv (Finite a) (Finite b) =
     (if b = 0 then (if a = 0 then NaN else inf_of_sign (0 < a)) else to_float (a / b))"
| "fdiv NaN _ = NaN"
| "fdiv _ NaN = NaN"
| "fdiv (Finite a) PInf = Finite 0"
| "fdiv (Finite a) NInf = Finite 0"
| "fdiv PInf (Finite b) = inf_of_sign (0 \<le> b)"
| "fdiv NInf (Finite b) = inf_of_sign (b < 0)"
| "fdiv PInf PInf = NaN"
| "fdiv PInf NInf = NaN"
| "fdiv NInf PInf = NaN"
| "fdiv NInf NInf = NaN"

definition is_finite :: "cl_float \<Rightarrow> bool" where
  "is_finite f = (case f of Finite _ \<Rightarrow> True | _ \<Rightarrow> False)"

text \<open>Conversion of an unsigned integer to \<open>float\<close> (round to nearest even).\<close>

definition uint_to_float :: "uint \<Rightarrow> cl_float" where
  "uint_to_float u = to_float (of_nat (unat u))"

text \<open>
  Conversion of a \<open>float\<close> to \<open>uint\<close>, as in \<open>uint4 color = { sum, 0, 0, 0 }\<close>:
  the value is truncated towards zero. OpenCL C leaves the result implementation-defined
  when the truncated value is not a \<open>uint\<close> (a sum \<open>\<le> -1\<close>, \<open>\<ge> 2^32\<close>, an infinity,
  NaN); that result is the device's: \<open>oor\<close>.
\<close>

definition float_to_uint :: "(cl_float \<Rightarrow> uint) \<Rightarrow> cl_float \<Rightarrow> uint" where
  "float_to_uint oor f =
     (case f of
        Finite q \<Rightarrow>
          if - 1 < q \<and> q < 2 ^ 32 then word_of_int (if q < 0 then 0 else \<lfloor>q\<rfloor>) else oor f
      | _ \<Rightarrow> oor f)"

text \<open>What GPUs' conversion instructions do out of range: saturate, NaN to 0.\<close>

definition saturating :: "cl_float \<Rightarrow> uint" where
  "saturating f =
     (case f of
        Finite q \<Rightarrow> if q < 0 then 0 else - 1
      | PInf \<Rightarrow> - 1
      | NInf \<Rightarrow> 0
      | NaN \<Rightarrow> 0)"


section \<open>The filter coefficients (constructor of \<open>Filter\<close>)\<close>

definition box_filter :: "cl_float list" where
  "box_filter = [Finite (1/8), Finite (1/8), Finite (1/8),
                 Finite (1/8), Finite (1/8), Finite (1/8),
                 Finite (1/8), Finite (1/8), Finite (1/8)]"

definition laplacian_filter :: "cl_float list" where
  "laplacian_filter = [Finite 1, Finite 1, Finite 1,
                       Finite 1, Finite (- 8), Finite 1,
                       Finite 1, Finite 1, Finite 1]"

definition filterWidth :: uint where
  "filterWidth = 3"


section \<open>Images, the sampler and the \<open>convolution\<close> kernel\<close>

text \<open>
  A two-dimensional image of format \<open>CL_R\<close>, \<open>CL_UNSIGNED_INT8\<close>: one byte a texel,
  row after row.
\<close>

record image2d =
  width :: nat
  height :: nat
  texels :: "uint8_t list"

text \<open>
  The samplers of this program use unnormalised coordinates and \<open>CL_FILTER_NEAREST\<close>;
  only the addressing mode matters. \<open>CL_ADDRESS_CLAMP\<close> (a border of zeros) is here for
  contrast; the host creates \<open>CL_ADDRESS_CLAMP_TO_EDGE\<close> only.
\<close>

datatype sampler_t = CL_ADDRESS_CLAMP_TO_EDGE | CL_ADDRESS_CLAMP

definition texel :: "image2d \<Rightarrow> int \<Rightarrow> int \<Rightarrow> uint" where
  "texel img x y =
     (if 0 \<le> x \<and> x < int (width img) \<and> 0 \<le> y \<and> y < int (height img)
         \<and> nat y * width img + nat x < length (texels img)
      then ucast (texels img ! (nat y * width img + nat x))
      else 0)"

definition clamp_to_edge :: "int \<Rightarrow> nat \<Rightarrow> int" where
  "clamp_to_edge c n = max 0 (min c (int n - 1))"

text \<open>\<open>read_imageui (img, sampler, coords).x\<close>\<close>

definition read_imageui :: "image2d \<Rightarrow> sampler_t \<Rightarrow> int \<times> int \<Rightarrow> uint" where
  "read_imageui img sampler coords =
     (case sampler of
        CL_ADDRESS_CLAMP_TO_EDGE \<Rightarrow>
          texel img (clamp_to_edge (fst coords) (width img))
                    (clamp_to_edge (snd coords) (height img))
      | CL_ADDRESS_CLAMP \<Rightarrow> texel img (fst coords) (snd coords))"

text \<open>
  The body of the inner loop, for the filter column \<open>j\<close>:
  \<open>coords.x = column + j; pixel = read_imageui (...); sum += pixel.x * filter[filterIdx++]\<close>.
  \<open>column\<close> is a \<open>uint\<close>: the sum wraps and is read back as an \<open>int\<close>.
\<close>

definition conv_column ::
  "image2d \<Rightarrow> sampler_t \<Rightarrow> cl_float list \<Rightarrow> uint \<Rightarrow> int \<Rightarrow> int
     \<Rightarrow> cl_float \<times> nat \<Rightarrow> cl_float \<times> nat" where
  "conv_column sourceImage sampler filt column y j acc =
     (let x = sint (column + word_of_int j);
          pixel = read_imageui sourceImage sampler (x, y)
      in (fadd (fst acc) (fmul (uint_to_float pixel) (filt ! snd acc)), snd acc + 1))"

text \<open>The body of the outer loop, for the filter row \<open>i\<close>: \<open>coords.y = row + i\<close>.\<close>

definition conv_row ::
  "image2d \<Rightarrow> sampler_t \<Rightarrow> cl_float list \<Rightarrow> uint \<Rightarrow> uint \<Rightarrow> int \<Rightarrow> int
     \<Rightarrow> cl_float \<times> nat \<Rightarrow> cl_float \<times> nat" where
  "conv_row sourceImage sampler filt column row halfwidth i acc =
     (let y = sint (row + word_of_int i)
      in fold (conv_column sourceImage sampler filt column y) [- halfwidth..halfwidth] acc)"

text \<open>The accumulator \<open>sum\<close> of one work-item after both loops.\<close>

definition conv_sum ::
  "image2d \<Rightarrow> sampler_t \<Rightarrow> cl_float list \<Rightarrow> uint \<Rightarrow> uint \<Rightarrow> uint \<Rightarrow> cl_float" where
  "conv_sum sourceImage sampler filt fWidth column row =
     (let halfwidth = sint (fWidth div 2)
      in fst (fold (conv_row sourceImage sampler filt column row halfwidth)
                [- halfwidth..halfwidth] (Finite 0, 0)))"

text \<open>
  Kernel \<open>convolution\<close>, the work-item with global id \<open>gid\<close>: the value it passes to
  \<open>write_imageui\<close> at \<open>(column, row)\<close>, or \<open>None\<close> when it is out of bounds and writes
  nothing.
\<close>

definition convolution ::
  "(cl_float \<Rightarrow> uint) \<Rightarrow> image2d \<Rightarrow> uint \<Rightarrow> uint \<Rightarrow> cl_float list \<Rightarrow> uint \<Rightarrow> sampler_t
     \<Rightarrow> nat \<times> nat \<Rightarrow> uint option" where
  "convolution oor sourceImage rows cols filt fWidth sampler gid =
     (let column = of_nat (fst gid);
          row = of_nat (snd gid);
          sum = conv_sum sourceImage sampler filt fWidth column row
      in if row < rows \<and> column < cols then Some (float_to_uint oor sum) else None)"

text \<open>
  \<open>write_imageui\<close> into a \<open>CL_UNSIGNED_INT8\<close> image stores \<open>convert_uchar_sat\<close> of
  the component.
\<close>

definition convert_uchar_sat :: "uint \<Rightarrow> uint8_t" where
  "convert_uchar_sat u = (if 255 < u then 255 else ucast u)"



section \<open>The OpenCL runtime, as far as the host program uses it\<close>

text \<open>
  A memory object of the context is an image or a buffer of \<open>float\<close>s (the filter
  coefficients). Handles (\<open>cl_mem\<close>) are the keys of the context's table of objects.
\<close>

datatype mem_object = Image image2d | Buffer "cl_float list"

datatype kernel_arg = ArgMem cl_mem | ArgInt uint | ArgSampler sampler_t | ArgFloat cl_float

record cl_kernel =
  kernel_name :: string
  kernel_args :: "nat \<rightharpoonup> kernel_arg"

text \<open>
  What has been submitted to the command queue. A kernel launch records the arguments
  bound at the time of the call (OpenCL copies them then) and the global work size.
\<close>

datatype command =
    WriteBuffer cl_mem "cl_float list"
  | WriteBytes cl_mem "uint8_t list"
  | WriteShorts cl_mem "uint16_t list"
  | WriteImage cl_mem "uint8_t list"
  | NDRangeKernel string "kernel_arg list" "nat \<times> nat"
  | ReadImage cl_mem
  | AcquireGLObjects "cl_mem list"
  | ReleaseGLObjects "cl_mem list"
  | Finish

text \<open>
  The context with its one in-order command queue. Commands run in submission order and
  the host looks at device memory through a blocking read only, so the model runs each
  command when it is enqueued and appends it to \<open>submitted\<close>. \<open>out_of_range\<close> is the
  device's conversion of an out-of-range \<open>float\<close> to \<open>uint\<close>.
\<close>

record cl_runtime =
  objects :: "cl_mem \<rightharpoonup> mem_object"
  submitted :: "command list"
  next_mem :: cl_mem
  out_of_range :: "cl_float \<Rightarrow> uint"

definition CL_SUCCESS :: cl_int where "CL_SUCCESS = 0"
definition CL_DEVICE_NOT_FOUND :: cl_int where "CL_DEVICE_NOT_FOUND = - 1"
definition CL_BUILD_PROGRAM_FAILURE :: cl_int where "CL_BUILD_PROGRAM_FAILURE = - 11"
definition CL_INVALID_VALUE :: cl_int where "CL_INVALID_VALUE = - 30"
definition CL_INVALID_MEM_OBJECT :: cl_int where "CL_INVALID_MEM_OBJECT = - 38"
definition CL_INVALID_KERNEL_NAME :: cl_int where "CL_INVALID_KERNEL_NAME = - 46"
definition CL_INVALID_ARG_INDEX :: cl_int where "CL_INVALID_ARG_INDEX = - 49"
definition CL_INVALID_KERNEL_ARGS :: cl_int where "CL_INVALID_KERNEL_ARGS = - 52"

text \<open>
  How a call can end other than by returning: \<open>Exit\<close> is \<open>chk\<close> printing the name of
  the function with its status and calling \<open>exit (EXIT_FAILURE)\<close>; \<open>Throw\<close> is the
  exception \<open>cl::Error\<close> of the C++ bindings, which no caller catches; \<open>Undefined\<close> is
  behaviour that C++ or OpenCL leave undefined (a transfer that runs past the end of a
  host vector, a kernel that reads the image it writes). The code checks for neither
  of the latter.
\<close>

datatype fault = Exit string cl_int | Throw string cl_int | Undefined string

definition and_then :: "fault + 'a \<Rightarrow> ('a \<Rightarrow> fault + 'b) \<Rightarrow> fault + 'b" where
  "and_then m f = (case m of Inl e \<Rightarrow> Inl e | Inr x \<Rightarrow> f x)"

definition chk :: "string \<Rightarrow> cl_int \<Rightarrow> fault + unit" where
  "chk funcName errNum = (if errNum \<noteq> CL_SUCCESS then Inl (Exit funcName errNum) else Inr ())"

text \<open>
  \<open>clEnqueueWriteImage (queue, image, CL_FALSE, origin, region, 0, 0, ptr, ...)\<close>: the
  \<open>region\<close> of the image, from \<open>origin\<close>, is replaced by the first
  \<open>region[0] * region[1]\<close> bytes at \<open>ptr\<close>, the data of the host vector \<open>host\<close>.
  \<open>ptr\<close> is \<open>image.data ()\<close>: for an empty vector (one that never held an element) that
  is the null pointer, for which the call returns \<open>CL_INVALID_VALUE\<close>; an empty vector
  that still owns storage is not told apart from it.
\<close>

definition in_region :: "nat \<times> nat \<times> nat \<Rightarrow> nat \<times> nat \<times> nat \<Rightarrow> nat \<Rightarrow> nat \<Rightarrow> bool" where
  "in_region orig reg x y =
     (fst orig \<le> x \<and> x < fst orig + fst reg
      \<and> fst (snd orig) \<le> y \<and> y < fst (snd orig) + fst (snd reg))"

definition region_fits :: "nat \<times> nat \<times> nat \<Rightarrow> nat \<times> nat \<times> nat \<Rightarrow> image2d \<Rightarrow> bool" where
  "region_fits orig reg img =
     (fst orig + fst reg \<le> width img \<and> fst (snd orig) + fst (snd reg) \<le> height img
      \<and> snd (snd orig) = 0 \<and> snd (snd reg) = 1 \<and> 0 < fst reg \<and> 0 < fst (snd reg))"

definition write_region ::
  "nat \<times> nat \<times> nat \<Rightarrow> nat \<times> nat \<times> nat \<Rightarrow> uint8_t list \<Rightarrow> image2d \<Rightarrow> image2d" where
  "write_region orig reg host img =
     img\<lparr>texels :=
       map (\<lambda>p. let x = p mod width img; y = p div width img
                in if in_region orig reg x y
                   then host ! ((y - fst (snd orig)) * fst reg + (x - fst orig))
                   else texels img ! p)
           [0..<length (texels img)]\<rparr>"

definition clEnqueueWriteImage ::
  "cl_runtime \<Rightarrow> cl_mem \<Rightarrow> nat \<times> nat \<times> nat \<Rightarrow> nat \<times> nat \<times> nat \<Rightarrow> uint8_t list
     \<Rightarrow> fault + cl_int \<times> cl_runtime" where
  "clEnqueueWriteImage q mem orig reg host =
     (case objects q mem of
        Some (Image img) \<Rightarrow>
          if \<not> region_fits orig reg img \<or> host = [] then Inr (CL_INVALID_VALUE, q)
          else if length host < fst reg * fst (snd reg)
          then Inl (Undefined ''clEnqueueWriteImage reads past the end of the host vector'')
          else Inr (CL_SUCCESS,
                 q\<lparr>objects := (objects q)(mem \<mapsto> Image (write_region orig reg host img)),
                   submitted := submitted q @ [WriteImage mem (take (fst reg * fst (snd reg)) host)]\<rparr>)
      | _ \<Rightarrow> Inr (CL_INVALID_MEM_OBJECT, q))"

text \<open>
  \<open>clEnqueueReadImage (queue, image, CL_TRUE, origin, region, 0, 0, ptr, ...)\<close>: the
  blocking read copies the region to the first \<open>region[0] * region[1]\<close> bytes at
  \<open>ptr\<close>; the rest of the host vector stays. A null \<open>ptr\<close> is refused as above.
\<close>

definition read_region :: "nat \<times> nat \<times> nat \<Rightarrow> nat \<times> nat \<times> nat \<Rightarrow> image2d \<Rightarrow> uint8_t list" where
  "read_region orig reg img =
     map (\<lambda>i. texels img ! ((fst (snd orig) + i div fst reg) * width img + (fst orig + i mod fst reg)))
         [0..<fst reg * fst (snd reg)]"

definition clEnqueueReadImage ::
  "cl_runtime \<Rightarrow> cl_mem \<Rightarrow> nat \<times> nat \<times> nat \<Rightarrow> nat \<times> nat \<times> nat \<Rightarrow> uint8_t list
     \<Rightarrow> fault + cl_int \<times> uint8_t list \<times> cl_runtime" where
  "clEnqueueReadImage q mem orig reg host =
     (case objects q mem of
        Some (Image img) \<Rightarrow>
          if \<not> region_fits orig reg img \<or> length (texels img) \<noteq> width img * height img
             \<or> host = []
          then Inr (CL_INVALID_VALUE, host, q)
          else if length host < fst reg * fst (snd reg)
          then Inl (Undefined ''clEnqueueReadImage writes past the end of the host vector'')
          else Inr (CL_SUCCESS,
                 read_region orig reg img @ drop (fst reg * fst (snd reg)) host,
                 q\<lparr>submitted := submitted q @ [ReadImage mem]\<rparr>)
      | _ \<Rightarrow> Inr (CL_INVALID_MEM_OBJECT, host, q))"

text \<open>\<open>clEnqueueWriteBuffer\<close> of a whole buffer of \<open>float\<close>s.\<close>

definition clEnqueueWriteBuffer ::
  "cl_runtime \<Rightarrow> cl_mem \<Rightarrow> cl_float list \<Rightarrow> cl_int \<times> cl_runtime" where
  "clEnqueueWriteBuffer q buffer host =
     (case objects q buffer of
        Some (Buffer old) \<Rightarrow>
          if length host \<noteq> length old then (CL_INVALID_VALUE, q)
          else (CL_SUCCESS,
                 q\<lparr>objects := (objects q)(buffer \<mapsto> Buffer host),
                   submitted := submitted q @ [WriteBuffer buffer host]\<rparr>)
      | _ \<Rightarrow> (CL_INVALID_MEM_OBJECT, q))"

text \<open>\<open>clSetKernelArg\<close>: kernel \<open>convolution\<close> has seven arguments.\<close>

definition clSetKernelArg :: "cl_kernel \<Rightarrow> nat \<Rightarrow> kernel_arg \<Rightarrow> cl_int \<times> cl_kernel" where
  "clSetKernelArg k arg_index arg_value =
     (if arg_index < 7
      then (CL_SUCCESS, k\<lparr>kernel_args := (kernel_args k)(arg_index \<mapsto> arg_value)\<rparr>)
      else (CL_INVALID_ARG_INDEX, k))"

text \<open>
  Running kernel \<open>convolution\<close> over the global range: the work-item \<open>(x, y)\<close> writes
  texel \<open>(x, y)\<close> of the output image, the others stay.
\<close>

definition run_convolution ::
  "(cl_float \<Rightarrow> uint) \<Rightarrow> nat \<times> nat \<Rightarrow> image2d \<Rightarrow> image2d \<Rightarrow> uint \<Rightarrow> uint \<Rightarrow> cl_float list
     \<Rightarrow> uint \<Rightarrow> sampler_t \<Rightarrow> image2d" where
  "run_convolution oor gsize sourceImage outputImage rows cols filt fWidth sampler =
     outputImage\<lparr>texels :=
       map (\<lambda>p. let x = p mod width outputImage; y = p div width outputImage
                in if x < fst gsize \<and> y < snd gsize
                   then (case convolution oor sourceImage rows cols filt fWidth sampler (x, y) of
                           Some color \<Rightarrow> convert_uchar_sat color
                         | None \<Rightarrow> texels outputImage ! p)
                   else texels outputImage ! p)
           [0..<length (texels outputImage)]\<rparr>"

text \<open>
  The seven arguments of \<open>convolution\<close> as bound, when all are.
\<close>

definition bound_args :: "cl_kernel \<Rightarrow> kernel_arg list option" where
  "bound_args k =
     (case (kernel_args k 0, kernel_args k 1, kernel_args k 2, kernel_args k 3,
            kernel_args k 4, kernel_args k 5, kernel_args k 6) of
        (Some a0, Some a1, Some a2, Some a3, Some a4, Some a5, Some a6) \<Rightarrow>
          Some [a0, a1, a2, a3, a4, a5, a6]
      | _ \<Rightarrow> None)"

text \<open>
  \<open>clEnqueueNDRangeKernel (queue, kernel, 2, NULL, global, NULL, ...)\<close>. OpenCL leaves
  undefined a kernel that reads the image it writes, that reads its \<open>constant\<close> buffer
  past the end, or that writes outside its output image.
\<close>

definition clEnqueueNDRangeKernel ::
  "cl_runtime \<Rightarrow> cl_kernel \<Rightarrow> nat \<times> nat \<Rightarrow> fault + cl_int \<times> cl_runtime" where
  "clEnqueueNDRangeKernel q k gsize =
     (case bound_args k of
        Some [ArgMem src, ArgMem out, ArgInt rows, ArgInt cols, ArgMem flt, ArgInt fWidth,
              ArgSampler smp] \<Rightarrow>
          (case (objects q src, objects q out, objects q flt) of
             (Some (Image sourceImage), Some (Image outputImage), Some (Buffer filt)) \<Rightarrow>
               if src = out
               then Inl (Undefined ''the kernel reads the image it writes'')
               else if length filt < (2 * nat (sint (fWidth div 2)) + 1) ^ 2
               then Inl (Undefined ''the kernel reads past the end of the filter'')
               else if width outputImage < min (fst gsize) (unat cols)
                        \<or> height outputImage < min (snd gsize) (unat rows)
               then Inl (Undefined ''the kernel writes outside the output image'')
               else Inr (CL_SUCCESS,
                      q\<lparr>objects := (objects q)(out \<mapsto> Image
                           (run_convolution (out_of_range q) gsize sourceImage outputImage
                              rows cols filt fWidth smp)),
                        submitted := submitted q @
                          [NDRangeKernel (kernel_name k)
                             [ArgMem src, ArgMem out, ArgInt rows, ArgInt cols, ArgMem flt,
                              ArgInt fWidth, ArgSampler smp] gsize]\<rparr>)
           | _ \<Rightarrow> Inr (CL_INVALID_MEM_OBJECT, q))
      | _ \<Rightarrow> Inr (CL_INVALID_KERNEL_ARGS, q))"


section \<open>Class \<open>Filter\<close> (kinectFilter\_clc.cpp)\<close>

definition gl_win_width :: nat where "gl_win_width = 640"
definition gl_win_height :: nat where "gl_win_height = 480"

record Filter =
  origin :: "nat \<times> nat \<times> nat"
  region :: "nat \<times> nat \<times> nat"
  global :: "nat \<times> nat"
  smoothed :: bool
  status :: cl_int
  queue :: cl_runtime
  sampler :: sampler_t
  bufferBoxFilter :: cl_mem
  bufferLaplacianFilter :: cl_mem
  bufferSourceImage :: cl_mem
  bufferOutputImage :: cl_mem
  bufferInterImage1 :: cl_mem
  bufferInterImage2 :: cl_mem
  kernelConv :: cl_kernel

text \<open>
  \<open>status = clSetKernelArg (...); status |= clSetKernelArg (...); ...;
  chk ("clSetKernelArg", status)\<close>: every call of the group is made, then the statuses,
  or-ed together, are checked.
\<close>

fun set_kernel_args :: "(nat \<times> kernel_arg) list \<Rightarrow> cl_int \<times> cl_kernel \<Rightarrow> cl_int \<times> cl_kernel" where
  "set_kernel_args [] sk = sk"
| "set_kernel_args ((i, v) # rest) sk =
     (let (st, k') = clSetKernelArg (snd sk) i v in set_kernel_args rest (fst sk OR st, k'))"

definition setArgs :: "(nat \<times> kernel_arg) list \<Rightarrow> Filter \<Rightarrow> fault + Filter" where
  "setArgs as f =
     (let (st, k') = set_kernel_args as (CL_SUCCESS, kernelConv f);
          f' = f\<lparr>status := st, kernelConv := k'\<rparr>
      in and_then (chk ''clSetKernelArg'' st) (\<lambda>_. Inr f'))"

text \<open>
  \<open>status = clEnqueueNDRangeKernel (queue, kernelConv, 2, NULL, global, NULL, 0, NULL, NULL);
  chk ("clEnqueueNDRangeKernel", status)\<close>
\<close>

definition enqueueKernel :: "Filter \<Rightarrow> fault + Filter" where
  "enqueueKernel f =
     and_then (clEnqueueNDRangeKernel (queue f) (kernelConv f) (global f)) (\<lambda>(st, q').
     and_then (chk ''clEnqueueNDRangeKernel'' st) (\<lambda>_.
     Inr (f\<lparr>status := st, queue := q'\<rparr>)))"

text \<open>The branch \<open>if (smoothed)\<close> of \<open>convolve\<close>, and its \<open>else\<close>.\<close>

definition smoothing_passes :: "Filter \<Rightarrow> fault + Filter" where
  "smoothing_passes f =
     and_then (setArgs [(0, ArgMem (bufferSourceImage f)),
                        (1, ArgMem (bufferInterImage1 f)),
                        (4, ArgMem (bufferBoxFilter f))] f) (\<lambda>f.
     and_then (enqueueKernel f) (\<lambda>f.
     and_then (setArgs [(0, ArgMem (bufferInterImage1 f)),
                        (1, ArgMem (bufferInterImage2 f))] f) (\<lambda>f.
     and_then (enqueueKernel f) (\<lambda>f.
     setArgs [(0, ArgMem (bufferInterImage2 f))] f))))"

definition no_smoothing :: "Filter \<Rightarrow> fault + Filter" where
  "no_smoothing f = setArgs [(0, ArgMem (bufferSourceImage f))] f"

text \<open>
  \<open>void convolve (std::vector<uint8_t> &image)\<close>: the result is the vector
  \<open>image\<close> (here \<open>imagev\<close>) after the call, with the object.
\<close>

definition convolve :: "uint8_t list \<Rightarrow> Filter \<Rightarrow> fault + uint8_t list \<times> Filter" where
  "convolve imagev f =
     and_then (clEnqueueWriteImage (queue f) (bufferSourceImage f) (origin f) (region f) imagev)
       (\<lambda>(st, q').
     and_then (chk ''clEnqueueWriteImage'' st) (\<lambda>_.
     and_then (if smoothed f then smoothing_passes (f\<lparr>status := st, queue := q'\<rparr>)
               else no_smoothing (f\<lparr>status := st, queue := q'\<rparr>)) (\<lambda>f.
     and_then (setArgs [(1, ArgMem (bufferOutputImage f)),
                        (4, ArgMem (bufferLaplacianFilter f))] f) (\<lambda>f.
     and_then (enqueueKernel f) (\<lambda>f.
     and_then (clEnqueueReadImage (queue f) (bufferOutputImage f) (origin f) (region f) imagev)
       (\<lambda>(st, imagev', q').
     and_then (chk ''clEnqueueReadImage'' st) (\<lambda>_.
     Inr (imagev', f\<lparr>status := st, queue := q'\<rparr>))))))))"

text \<open>\<open>bool smoothing ()\<close> and \<open>bool toggleSmoothing ()\<close>: the result and the object.\<close>

definition smoothing :: "Filter \<Rightarrow> bool" where
  "smoothing f = smoothed f"

definition toggleSmoothing :: "Filter \<Rightarrow> bool \<times> Filter" where
  "toggleSmoothing f = (\<not> smoothed f, f\<lparr>smoothed := \<not> smoothed f\<rparr>)"

text \<open>
  The constructor. What it needs from the machine: whether a platform and a GPU are
  there (and, for the interop variants, whether the GPU shares objects with OpenGL),
  which kernels the file \<open>kernels/kernels.cl\<close> defines (none when the file is
  missing), whether the program builds, and the device's out-of-range conversion.
\<close>

record machine =
  has_platform :: bool
  has_gpu :: bool
  gl_sharing :: bool
  kernel_file :: "string list"
  build_succeeds :: bool
  device_out_of_range :: "cl_float \<Rightarrow> uint"

text \<open>
  \<open>clCreateImage\<close> and \<open>clCreateBuffer\<close> hand out the next handle. The contents of a
  fresh object are unspecified in OpenCL; the program writes every object before it
  reads it, and the model fills it with zeros.
\<close>

definition clCreateImage :: "cl_runtime \<Rightarrow> nat \<Rightarrow> nat \<Rightarrow> cl_mem \<times> cl_runtime" where
  "clCreateImage q w h =
     (next_mem q,
      q\<lparr>objects := (objects q)(next_mem q \<mapsto>
            Image \<lparr>width = w, height = h, texels = replicate (w * h) 0\<rparr>),
        next_mem := Suc (next_mem q)\<rparr>)"

definition clCreateBuffer :: "cl_runtime \<Rightarrow> nat \<Rightarrow> cl_mem \<times> cl_runtime" where
  "clCreateBuffer q n =
     (next_mem q,
      q\<lparr>objects := (objects q)(next_mem q \<mapsto> Buffer (replicate n (Finite 0))),
        next_mem := Suc (next_mem q)\<rparr>)"

definition clCreateKernel :: "string list \<Rightarrow> string \<Rightarrow> cl_int \<times> cl_kernel" where
  "clCreateKernel program name =
     (if name \<in> set program then CL_SUCCESS else CL_INVALID_KERNEL_NAME,
      \<lparr>kernel_name = name, kernel_args = Map.empty\<rparr>)"

text \<open>
  \<open>Filter ()\<close>. The creation of the context, the queue, the sampler and the memory
  objects succeeds on a machine with a GPU; the calls that depend on the machine or on
  the kernel file are the ones that can end the process.
\<close>

definition Filter_new :: "machine \<Rightarrow> fault + Filter" where
  "Filter_new m =
     and_then (chk ''clGetPlatformIDs'' (if has_platform m then CL_SUCCESS else - 1001)) (\<lambda>_.
     and_then (chk ''clGetDeviceIDs'' (if has_gpu m then CL_SUCCESS else CL_DEVICE_NOT_FOUND)) (\<lambda>_.
     let q0 = \<lparr>objects = Map.empty, submitted = [], next_mem = 0,
                out_of_range = device_out_of_range m\<rparr>;
         (src, q1) = clCreateImage q0 gl_win_width gl_win_height;
         (inter1, q2) = clCreateImage q1 gl_win_width gl_win_height;
         (inter2, q3) = clCreateImage q2 gl_win_width gl_win_height;
         (out, q4) = clCreateImage q3 gl_win_width gl_win_height;
         (box, q5) = clCreateBuffer q4 (unat filterWidth * unat filterWidth);
         (lap, q6) = clCreateBuffer q5 (unat filterWidth * unat filterWidth);
         (st1, q7) = clEnqueueWriteBuffer q6 box box_filter
     in
     and_then (chk ''clEnqueueWriteBuffer'' st1) (\<lambda>_.
     let (st2, q8) = clEnqueueWriteBuffer q7 lap laplacian_filter in
     and_then (chk ''clEnqueueWriteBuffer'' st2) (\<lambda>_.
     if \<not> build_succeeds m then Inl (Exit ''clBuildProgram'' CL_BUILD_PROGRAM_FAILURE)
     else
     let (st3, k) = clCreateKernel (kernel_file m) ''convolution'' in
     and_then (chk ''clCreateKernel'' st3) (\<lambda>_.
     setArgs [(2, ArgInt (of_nat gl_win_height)),
              (3, ArgInt (of_nat gl_win_width)),
              (5, ArgInt filterWidth),
              (6, ArgSampler CL_ADDRESS_CLAMP_TO_EDGE)]
       \<lparr>origin = (0, 0, 0),
        region = (gl_win_width, gl_win_height, 1),
        global = (gl_win_width, gl_win_height),
        smoothed = True,
        status = st3,
        queue = q8,
        sampler = CL_ADDRESS_CLAMP_TO_EDGE,
        bufferBoxFilter = box,
        bufferLaplacianFilter = lap,
        bufferSourceImage = src,
        bufferOutputImage = out,
        bufferInterImage1 = inter1,
        bufferInterImage2 = inter2,
        kernelConv = k\<rparr>)))))"


section \<open>The frame mailbox (class \<open>MyFreenectDevice\<close>, kinectFilter\_clc.cpp)\<close>

text \<open>
  \<open>getVideoBufferSize ()\<close> of libfreenect: the bytes of a medium-resolution RGB frame,
  which is also the size the constructor gives \<open>rgbBuffer\<close>.
\<close>

definition getVideoBufferSize :: nat where
  "getVideoBufferSize = 640 * 480 * 3"

record MyFreenectDevice =
  rgbBuffer :: "uint8_t list"
  newRGBFrame :: bool

definition MyFreenectDevice_new :: MyFreenectDevice where
  "MyFreenectDevice_new = \<lparr>rgbBuffer = replicate getVideoBufferSize 0, newRGBFrame = False\<rparr>"

text \<open>\<open>std::copy\<close> of all of \<open>src\<close> to the start of the vector \<open>dst\<close>.\<close>

definition std_copy :: "'a list \<Rightarrow> 'a list \<Rightarrow> 'a list" where
  "std_copy src dst = take (length dst) src @ drop (length src) dst"

text \<open>
  \<open>std::copy (first, first + n, d_first)\<close> over raw pointers: \<open>n\<close> elements are read from
  the memory \<open>src\<close> at \<open>first\<close> and written to the memory \<open>dst\<close> at \<open>d_first\<close>. No
  bound is checked; leaving either memory is undefined behaviour.
\<close>

definition std_copy_range :: "'a list \<Rightarrow> nat \<Rightarrow> 'a list \<Rightarrow> fault + 'a list" where
  "std_copy_range src n dst =
     (if length src < n \<or> length dst < n
      then Inl (Undefined ''std::copy runs past the end of a range'')
      else Inr (take n src @ drop n dst))"

text \<open>
  Each of the two methods holds \<open>rgbMutex\<close> from its first statement to its return
  (\<open>Mutex::ScopedLock\<close>), so calls from the driver's thread and from the display loop
  never overlap: a run of the program is a sequence of whole calls.

  \<open>VideoCallback\<close>: \<open>rgb\<close> is the frame of the driver, \<open>getVideoBufferSize ()\<close> bytes
  of which are copied.
\<close>

definition VideoCallback :: "uint8_t list \<Rightarrow> MyFreenectDevice \<Rightarrow> fault + MyFreenectDevice" where
  "VideoCallback rgb dev =
     (if length rgb < getVideoBufferSize
      then Inl (Undefined ''VideoCallback reads past the end of the frame'')
      else if length (rgbBuffer dev) < getVideoBufferSize
      then Inl (Undefined ''VideoCallback writes past the end of rgbBuffer'')
      else Inr (dev\<lparr>rgbBuffer := std_copy (take getVideoBufferSize rgb) (rgbBuffer dev),
                    newRGBFrame := True\<rparr>))"

text \<open>
  \<open>getRGB\<close>: the result, the caller's vector, the device and the \<open>Filter\<close> behind the
  global \<open>opencl\<close>, after the call. \<open>cvtColor\<close> is OpenCV's conversion of the 640 x 480
  RGB image to gray, one byte a pixel; its value here is the memory of \<open>gray\<close> from
  \<open>gray.datastart\<close> on: the 640 * 480 bytes of the image, then what the allocator of
  OpenCV has left after them, if anything. \<open>gray.dataend\<close> is
  \<open>gray.datastart + 640 * 480\<close>, and the copy into \<open>buffer\<close> has the upper bound
  \<open>gray.dataend + 1\<close>: it moves 640 * 480 + 1 bytes, the last one from after the image to
  index 640 * 480 of \<open>buffer\<close> (the vector of \<open>drawGLScene\<close> has 640 * 480 elements).
\<close>

definition getRGB ::
  "(uint8_t list \<Rightarrow> uint8_t list) \<Rightarrow> uint8_t list \<Rightarrow> MyFreenectDevice \<times> Filter
     \<Rightarrow> fault + bool \<times> uint8_t list \<times> MyFreenectDevice \<times> Filter" where
  "getRGB cvtColor buffer w =
     (let dev = fst w; opencl = snd w
      in if \<not> newRGBFrame dev then Inr (False, buffer, dev, opencl)
         else let gray = cvtColor (rgbBuffer dev)
              in and_then (std_copy_range gray (gl_win_width * gl_win_height + 1) buffer)
                   (\<lambda>copied.
                 and_then (convolve copied opencl) (\<lambda>(buffer', opencl').
                 Inr (True, buffer', dev\<lparr>newRGBFrame := False\<rparr>, opencl'))))"

text \<open>
  A run of the program, as far as the mailbox goes: the driver publishes frames
  (\<open>VideoCallback\<close>) and the display loop takes them (\<open>getRGB\<close> into its vector), in
  some order. The state is the vector of the display loop, the device and the \<open>Filter\<close>.
\<close>

datatype event = Publish "uint8_t list" | Take

datatype outcome = Published | Taken "uint8_t list" | NoNewFrame

definition step ::
  "(uint8_t list \<Rightarrow> uint8_t list) \<Rightarrow> event \<Rightarrow> uint8_t list \<times> MyFreenectDevice \<times> Filter
     \<Rightarrow> fault + outcome \<times> uint8_t list \<times> MyFreenectDevice \<times> Filter" where
  "step cvtColor ev w =
     (case ev of
        Publish rgb \<Rightarrow>
          and_then (VideoCallback rgb (fst (snd w))) (\<lambda>dev'.
          Inr (Published, fst w, dev', snd (snd w)))
      | Take \<Rightarrow>
          and_then (getRGB cvtColor (fst w) (snd w)) (\<lambda>(got, buffer', dev', opencl').
          Inr (if got then Taken buffer' else NoNewFrame, buffer', dev', opencl')))"

fun run ::
  "(uint8_t list \<Rightarrow> uint8_t list) \<Rightarrow> event list \<Rightarrow> uint8_t list \<times> MyFreenectDevice \<times> Filter
     \<Rightarrow> fault + outcome list \<times> uint8_t list \<times> MyFreenectDevice \<times> Filter" where
  "run cvtColor [] w = Inr ([], w)"
| "run cvtColor (ev # evs) w =
     and_then (step cvtColor ev w) (\<lambda>(out, w').
     and_then (run cvtColor evs w') (\<lambda>(outs, w'').
     Inr (out # outs, w'')))"


section \<open>The mailbox of the point-cloud variant (kinectFilter\_gl\_interop\_vertex\_buffer.cpp)\<close>

text \<open>There \<open>getRGB\<close> hands the frame over by swapping the two vectors.\<close>

definition getRGB_vertex_buffer ::
  "uint8_t list \<Rightarrow> MyFreenectDevice \<Rightarrow> bool \<times> uint8_t list \<times> MyFreenectDevice" where
  "getRGB_vertex_buffer buffer dev =
     (if \<not> newRGBFrame dev then (False, buffer, dev)
      else (True, rgbBuffer dev, dev\<lparr>rgbBuffer := buffer, newRGBFrame := False\<rparr>))"


section \<open>The C++ bindings, at the level of the commands submitted\<close>

text \<open>
  The interop variants use \<open>cl.hpp\<close> with exceptions enabled. They are modelled by the
  handles they bind and the commands they submit. The number of arguments of each kernel
  of \<open>kernels/kernels.cl\<close>:
\<close>

definition arity :: "string \<Rightarrow> nat" where
  "arity name =
     (if name = ''convolution'' \<or> name = ''convolutionGL'' then 7
      else if name = ''normalizeImg'' then 5
      else if name = ''rgb2rgba'' \<or> name = ''normalizeRGB'' then 4
      else if name = ''depthTo3D'' then 3
      else 0)"

text \<open>
  \<open>cl::Image2D (context, flags, format, width, height)\<close> and \<open>cl::Buffer (...)\<close> create
  an object: the next handle. The copy constructor \<open>cl::Image2D (const Image2D &)\<close>
  copies the wrapper: the copy holds the same \<open>cl_mem\<close> (and retains it).
\<close>

definition new_object :: "cl_mem \<Rightarrow> cl_mem \<times> cl_mem" where
  "new_object next = (next, Suc next)"

definition Image2D_copy :: "cl_mem \<Rightarrow> cl_mem" where
  "Image2D_copy image2D = image2D"

definition Kernel_new :: "string list \<Rightarrow> string \<Rightarrow> fault + cl_kernel" where
  "Kernel_new program name =
     (if name \<in> set program then Inr \<lparr>kernel_name = name, kernel_args = Map.empty\<rparr>
      else Inl (Throw ''clCreateKernel'' CL_INVALID_KERNEL_NAME))"

definition setArg :: "nat \<Rightarrow> kernel_arg \<Rightarrow> cl_kernel \<Rightarrow> fault + cl_kernel" where
  "setArg i v k =
     (if i < arity (kernel_name k) then Inr (k\<lparr>kernel_args := (kernel_args k)(i \<mapsto> v)\<rparr>)
      else Inl (Throw ''clSetKernelArg'' CL_INVALID_ARG_INDEX))"

definition enqueueNDRangeKernel ::
  "cl_kernel \<Rightarrow> nat \<times> nat \<Rightarrow> command list \<Rightarrow> fault + command list" where
  "enqueueNDRangeKernel k gsize q =
     (if list_all (\<lambda>i. kernel_args k i \<noteq> None) [0..<arity (kernel_name k)]
      then Inr (q @ [NDRangeKernel (kernel_name k)
                       (map (\<lambda>i. the (kernel_args k i)) [0..<arity (kernel_name k)]) gsize])
      else Inl (Throw ''clEnqueueNDRangeKernel'' CL_INVALID_KERNEL_ARGS))"


section \<open>Class \<open>Filter\<close> of kinectFilter\_gl\_interop\_texture.cpp\<close>

record Filter_texture =
  tex_global :: "nat \<times> nat"
  tex_smoothed :: bool
  tex_queue :: "command list"
  tex_bufferSourceImage :: cl_mem
  tex_bufferInterImage1 :: cl_mem
  tex_bufferInterImage2 :: cl_mem
  tex_bufferOutputImage :: "cl_mem list"
  tex_bufferBoxFilter :: cl_mem
  tex_bufferLaplacianFilter :: cl_mem
  tex_kernelNorm :: cl_kernel
  tex_kernelConv :: cl_kernel

definition Filter_texture_new :: "machine \<Rightarrow> fault + Filter_texture" where
  "Filter_texture_new m =
     (if \<not> gl_sharing m then Inl (Exit ''checkCLGLInterop'' 1)
      else
      let (src, n1) = new_object 0;
          (inter1, n2) = new_object n1;
          inter2 = Image2D_copy inter1;
          (out, n3) = new_object n2;
          (box, n4) = new_object n3;
          (lap, n5) = new_object n4;
          q = [WriteBuffer box box_filter, WriteBuffer lap laplacian_filter]
      in
      if \<not> build_succeeds m then Inl (Exit ''clBuildProgram'' CL_BUILD_PROGRAM_FAILURE)
      else
      and_then (Kernel_new (kernel_file m) ''normalizeImg'') (\<lambda>kn.
      and_then (Kernel_new (kernel_file m) ''convolutionGL'') (\<lambda>kc.
      and_then (setArg 0 (ArgMem src) kn) (\<lambda>kn.
      and_then (setArg 1 (ArgMem inter1) kn) (\<lambda>kn.
      and_then (setArg 2 (ArgInt (of_nat gl_win_height)) kn) (\<lambda>kn.
      and_then (setArg 3 (ArgInt (of_nat gl_win_width)) kn) (\<lambda>kn.
      and_then (setArg 4 (ArgSampler CL_ADDRESS_CLAMP_TO_EDGE) kn) (\<lambda>kn.
      and_then (setArg 2 (ArgInt (of_nat gl_win_height)) kc) (\<lambda>kc.
      and_then (setArg 3 (ArgInt (of_nat gl_win_width)) kc) (\<lambda>kc.
      and_then (setArg 5 (ArgInt filterWidth) kc) (\<lambda>kc.
      and_then (setArg 6 (ArgSampler CL_ADDRESS_CLAMP_TO_EDGE) kc) (\<lambda>kc.
      Inr \<lparr>tex_global = (gl_win_width, gl_win_height),
           tex_smoothed = True,
           tex_queue = q,
           tex_bufferSourceImage = src,
           tex_bufferInterImage1 = inter1,
           tex_bufferInterImage2 = inter2,
           tex_bufferOutputImage = [out],
           tex_bufferBoxFilter = box,
           tex_bufferLaplacianFilter = lap,
           tex_kernelNorm = kn,
           tex_kernelConv = kc\<rparr>))))))))))))"

text \<open>
  One pass of \<open>kernelConv\<close>: the \<open>setArg\<close> calls that precede it, in their order, and
  the launch.
\<close>

fun setArgs_cpp :: "(nat \<times> kernel_arg) list \<Rightarrow> cl_kernel \<Rightarrow> fault + cl_kernel" where
  "setArgs_cpp [] k = Inr k"
| "setArgs_cpp ((i, v) # rest) k = and_then (setArg i v k) (setArgs_cpp rest)"

definition conv_pass :: "(nat \<times> kernel_arg) list \<Rightarrow> Filter_texture \<Rightarrow> fault + Filter_texture" where
  "conv_pass as f =
     and_then (setArgs_cpp as (tex_kernelConv f)) (\<lambda>kc.
     and_then (enqueueNDRangeKernel kc (tex_global f) (tex_queue f)) (\<lambda>q.
     Inr (f\<lparr>tex_kernelConv := kc, tex_queue := q\<rparr>)))"

text \<open>\<open>void convolve (uint8_t *image)\<close>; \<open>glFinish\<close> is OpenGL's and submits nothing.\<close>

definition convolve_texture :: "uint8_t list \<Rightarrow> Filter_texture \<Rightarrow> fault + Filter_texture" where
  "convolve_texture imagev f =
     (if length imagev < gl_win_width * gl_win_height
      then Inl (Undefined ''enqueueWriteImage reads past the end of the host array'')
      else if tex_bufferOutputImage f = []
      then Inl (Undefined ''bufferOutputImage[0] of an empty vector'')
      else
      let f = f\<lparr>tex_queue := tex_queue f @
                 [WriteImage (tex_bufferSourceImage f) (take (gl_win_width * gl_win_height) imagev),
                  AcquireGLObjects (tex_bufferOutputImage f)]\<rparr>
      in
      and_then (enqueueNDRangeKernel (tex_kernelNorm f) (tex_global f) (tex_queue f)) (\<lambda>q.
      and_then (if tex_smoothed f
                then and_then (conv_pass [(0, ArgMem (tex_bufferInterImage1 f)),
                                          (1, ArgMem (tex_bufferInterImage2 f)),
                                          (4, ArgMem (tex_bufferBoxFilter f))]
                                 (f\<lparr>tex_queue := q\<rparr>)) (\<lambda>f.
                     conv_pass [(0, ArgMem (tex_bufferInterImage2 f)),
                                (1, ArgMem (tex_bufferInterImage1 f))] f)
                else Inr (f\<lparr>tex_queue := q\<rparr>)) (\<lambda>f.
      and_then (conv_pass [(0, ArgMem (tex_bufferInterImage1 f)),
                           (1, ArgMem (tex_bufferOutputImage f ! 0)),
                           (4, ArgMem (tex_bufferLaplacianFilter f))] f) (\<lambda>f.
      Inr (f\<lparr>tex_queue := tex_queue f @
                 [ReleaseGLObjects (tex_bufferOutputImage f), Finish]\<rparr>)))))"

definition toggleSmoothing_texture :: "Filter_texture \<Rightarrow> bool \<times> Filter_texture" where
  "toggleSmoothing_texture f = (\<not> tex_smoothed f, f\<lparr>tex_smoothed := \<not> tex_smoothed f\<rparr>)"


section \<open>The kernels of the point-cloud variant\<close>

datatype float4 = Float4 (f4x: cl_float) (f4y: cl_float) (f4z: cl_float) (f4w: cl_float)

definition ushort_to_float :: "uint16_t \<Rightarrow> cl_float" where
  "ushort_to_float u = to_float (of_nat (unat u))"

text \<open>
  Kernel \<open>normalizeRGB\<close>, the work-item \<open>gid\<close>: the index and the value it stores in
  \<open>out\<close>, or \<open>None\<close> when it is out of bounds. It reads \<open>in[idx]\<close> before it looks at
  the bounds. \<open>pixel /= sum\<close> divides the four components; \<open>pixel.w = 1.f\<close> then
  replaces the fourth.
\<close>

definition normalizeRGB ::
  "float4 list \<Rightarrow> uint \<Rightarrow> uint \<Rightarrow> nat \<times> nat \<Rightarrow> fault + (nat \<times> float4) option" where
  "normalizeRGB inp rows cols gid =
     (let column = of_nat (fst gid) :: uint;
          row = of_nat (snd gid) :: uint;
          idx = row * cols + column
      in if length inp \<le> unat idx
         then Inl (Undefined ''normalizeRGB reads past the end of in'')
         else
         let pixel = inp ! unat idx;
             sum = fadd (fadd (f4x pixel) (f4y pixel)) (f4z pixel)
         in if row < rows \<and> column < cols
            then let pixel = Float4 (fdiv (f4x pixel) sum) (fdiv (f4y pixel) sum)
                                    (fdiv (f4z pixel) sum) (fdiv (f4w pixel) sum);
                     pixel = Float4 (f4x pixel) (f4y pixel) (f4z pixel) (Finite 1)
                 in Inr (Some (unat idx, pixel))
            else Inr None)"

text \<open>
  Kernel \<open>depthTo3D\<close>, the work-item \<open>gid\<close> of a range of size \<open>gsize\<close>: the index and
  the point it stores in \<open>pCloud\<close>.
\<close>

definition depthTo3D ::
  "uint16_t list \<Rightarrow> cl_float \<Rightarrow> nat \<times> nat \<Rightarrow> nat \<times> nat \<Rightarrow> fault + nat \<times> float4" where
  "depthTo3D depth f gsize gid =
     (let cols = of_nat (fst gsize) :: uint;
          rows = of_nat (snd gsize) :: uint;
          gX = of_nat (fst gid) :: uint;
          gY = of_nat (snd gid) :: uint;
          idx = gY * cols + gX
      in if length depth \<le> unat idx
         then Inl (Undefined ''depthTo3D reads past the end of depth'')
         else
         let d = ushort_to_float (depth ! unat idx);
             point = Float4
               (fdiv (fmul (fsub (uint_to_float gX) (fdiv (uint_to_float (cols - 1)) (Finite 2))) d) f)
               (fdiv (fmul (fsub (uint_to_float gY) (fdiv (uint_to_float (rows - 1)) (Finite 2))) d) f)
               d (Finite 1)
         in Inr (unat idx, point))"


section \<open>Class \<open>Filter\<close> of kinectFilter\_gl\_interop\_vertex\_buffer.cpp\<close>

definition gl_width :: nat where "gl_width = 640"
definition gl_height :: nat where "gl_height = 480"

record Filter_vertex =
  vb_global :: "nat \<times> nat"
  vb_rgb_norm :: bool
  vb_queue :: "command list"
  vb_bufferSourceRGB :: cl_mem
  vb_bufferInterRGBA :: cl_mem
  vb_bufferSourceDepth :: cl_mem
  vb_bufferGLShared :: "cl_mem list"
  vb_kernelRGBA :: cl_kernel
  vb_kernelRGBNorm :: cl_kernel
  vb_kernelDepthTo3D :: cl_kernel

definition Filter_vertex_new :: "machine \<Rightarrow> fault + Filter_vertex" where
  "Filter_vertex_new m =
     (if \<not> gl_sharing m then Inl (Exit ''checkCLGLInterop'' 1)
      else
      let (srcRGB, n1) = new_object 0;
          (interRGBA, n2) = new_object n1;
          (sharedRGB, n3) = new_object n2;
          (srcDepth, n4) = new_object n3;
          (sharedCloud, n5) = new_object n4
      in
      if \<not> build_succeeds m then Inl (Exit ''clBuildProgram'' CL_BUILD_PROGRAM_FAILURE)
      else
      and_then (Kernel_new (kernel_file m) ''rgb2rgba'') (\<lambda>ka.
      and_then (Kernel_new (kernel_file m) ''normalizeRGB'') (\<lambda>kn.
      and_then (Kernel_new (kernel_file m) ''depthTo3D'') (\<lambda>kd.
      and_then (setArg 0 (ArgMem srcRGB) ka) (\<lambda>ka.
      and_then (setArg 2 (ArgInt (of_nat gl_height)) ka) (\<lambda>ka.
      and_then (setArg 3 (ArgInt (of_nat gl_width)) ka) (\<lambda>ka.
      and_then (setArg 0 (ArgMem interRGBA) kn) (\<lambda>kn.
      and_then (setArg 1 (ArgMem sharedRGB) kn) (\<lambda>kn.
      and_then (setArg 2 (ArgInt (of_nat gl_height)) kn) (\<lambda>kn.
      and_then (setArg 3 (ArgInt (of_nat gl_width)) kn) (\<lambda>kn.
      and_then (setArg 0 (ArgMem srcDepth) kd) (\<lambda>kd.
      and_then (setArg 1 (ArgMem sharedCloud) kd) (\<lambda>kd.
      and_then (setArg 2 (ArgFloat (Finite 595)) kd) (\<lambda>kd.
      Inr \<lparr>vb_global = (gl_width, gl_height),
           vb_rgb_norm = False,
           vb_queue = [],
           vb_bufferSourceRGB = srcRGB,
           vb_bufferInterRGBA = interRGBA,
           vb_bufferSourceDepth = srcDepth,
           vb_bufferGLShared = [sharedRGB, sharedCloud],
           vb_kernelRGBA = ka,
           vb_kernelRGBNorm = kn,
           vb_kernelDepthTo3D = kd\<rparr>))))))))))))))"

text \<open>\<open>void processFrames (std::vector<uint8_t> &rgb, std::vector<uint16_t> &depth)\<close>\<close>

definition processFrames ::
  "uint8_t list \<Rightarrow> uint16_t list \<Rightarrow> Filter_vertex \<Rightarrow> fault + Filter_vertex" where
  "processFrames rgb depth f =
     (if length rgb < 3 * gl_width * gl_height \<or> length depth < gl_width * gl_height
      then Inl (Undefined ''enqueueWriteBuffer reads past the end of a host vector'')
      else if length (vb_bufferGLShared f) < 2
      then Inl (Undefined ''bufferGLShared[0] of a vector that has no such element'')
      else
      let q = vb_queue f @
                [AcquireGLObjects (vb_bufferGLShared f),
                 WriteBytes (vb_bufferSourceRGB f) (take (3 * gl_width * gl_height) rgb),
                 WriteShorts (vb_bufferSourceDepth f) (take (gl_width * gl_height) depth)]
      in
      and_then (if vb_rgb_norm f then setArg 1 (ArgMem (vb_bufferInterRGBA f)) (vb_kernelRGBA f)
                else setArg 1 (ArgMem (vb_bufferGLShared f ! 0)) (vb_kernelRGBA f)) (\<lambda>ka.
      and_then (enqueueNDRangeKernel ka (vb_global f) q) (\<lambda>q.
      and_then (if vb_rgb_norm f then enqueueNDRangeKernel (vb_kernelRGBNorm f) (vb_global f) q
                else Inr q) (\<lambda>q.
      and_then (enqueueNDRangeKernel (vb_kernelDepthTo3D f) (vb_global f) q) (\<lambda>q.
      Inr (f\<lparr>vb_kernelRGBA := ka,
             vb_queue := q @ [ReleaseGLObjects (vb_bufferGLShared f), Finish]\<rparr>))))))"

definition toggleRGBNormalization :: "Filter_vertex \<Rightarrow> bool \<times> Filter_vertex" where
  "toggleRGBNormalization f = (\<not> vb_rgb_norm f, f\<lparr>vb_rgb_norm := \<not> vb_rgb_norm f\<rparr>)"



section \<open>Auxiliary notions for the proofs\<close>

definition eighth :: "rat \<Rightarrow> bool" where
  "eighth q = (\<exists>m::int. 8 * q = of_int m)"

definition tap :: "image2d \<Rightarrow> sampler_t \<Rightarrow> uint \<Rightarrow> int \<Rightarrow> int \<Rightarrow> rat" where
  "tap src smp column y j = of_nat (unat (read_imageui src smp (sint (column + word_of_int j), y)))"

definition row_sum :: "image2d \<Rightarrow> sampler_t \<Rightarrow> rat list \<Rightarrow> uint \<Rightarrow> int \<Rightarrow> int list \<Rightarrow> nat \<Rightarrow> rat" where
  "row_sum src smp ws column y js k =
     sum_list (map2 (\<lambda>j w. tap src smp column y j * w) js (take (length js) (drop k ws)))"

definition small_weights :: "rat list \<Rightarrow> bool" where
  "small_weights ws = list_all (\<lambda>w. eighth w \<and> \<bar>w\<bar> \<le> 8) ws"

definition conv3 :: "image2d \<Rightarrow> sampler_t \<Rightarrow> rat list \<Rightarrow> uint \<Rightarrow> uint \<Rightarrow> rat" where
  "conv3 src smp ws column row =
     row_sum src smp ws column (sint (row + word_of_int (- 1))) [- 1, 0, 1] 0
   + row_sum src smp ws column (sint (row + word_of_int 0)) [- 1, 0, 1] 3
   + row_sum src smp ws column (sint (row + word_of_int 1)) [- 1, 0, 1] 6"

definition handles :: "Filter \<Rightarrow> cl_mem list" where
  "handles f = [bufferSourceImage f, bufferInterImage1 f, bufferInterImage2 f,
                bufferOutputImage f, bufferBoxFilter f, bufferLaplacianFilter f]"

definition Filter_ok :: "Filter \<Rightarrow> bool" where
  "Filter_ok f =
     (origin f = (0, 0, 0) \<and> region f = (gl_win_width, gl_win_height, 1)
      \<and> global f = (gl_win_width, gl_win_height)
      \<and> distinct [bufferSourceImage f, bufferInterImage1 f, bufferInterImage2 f,
                   bufferOutputImage f, bufferBoxFilter f, bufferLaplacianFilter f]
      \<and> list_all (\<lambda>h. case objects (queue f) h of
                          Some (Image img) \<Rightarrow> width img = gl_win_width \<and> height img = gl_win_height
                             \<and> length (texels img) = gl_win_width * gl_win_height
                        | _ \<Rightarrow> False)
           [bufferSourceImage f, bufferInterImage1 f, bufferInterImage2 f, bufferOutputImage f]
      \<and> objects (queue f) (bufferBoxFilter f) = Some (Buffer box_filter)
      \<and> objects (queue f) (bufferLaplacianFilter f) = Some (Buffer laplacian_filter)
      \<and> kernel_args (kernelConv f) 2 = Some (ArgInt (of_nat gl_win_height))
      \<and> kernel_args (kernelConv f) 3 = Some (ArgInt (of_nat gl_win_width))
      \<and> kernel_args (kernelConv f) 5 = Some (ArgInt filterWidth)
      \<and> kernel_args (kernelConv f) 6 = Some (ArgSampler CL_ADDRESS_CLAMP_TO_EDGE)
      \<and> kernel_name (kernelConv f) = ''convolution'')"

definition reference_machine :: machine where
  "reference_machine =
     \<lparr>has_platform = True, has_gpu = True, gl_sharing = True,
      kernel_file = [''convolution'', ''convolutionGL'', ''normalizeImg'', ''rgb2rgba'',
                     ''normalizeRGB'', ''depthTo3D''],
      build_succeeds = True,
      device_out_of_range = saturating\<rparr>"

definition good_machine :: "machine \<Rightarrow> bool" where
  "good_machine m = (has_platform m \<and> has_gpu m \<and> build_succeeds m \<and> ''convolution'' \<in> set (kernel_file m))"

definition filtered :: "(cl_float \<Rightarrow> uint) \<Rightarrow> cl_float list \<Rightarrow> uint8_t list \<Rightarrow> uint8_t list" where
  "filtered oor filt src =
     map (\<lambda>p. convert_uchar_sat (float_to_uint oor
            (conv_sum \<lparr>width = gl_win_width, height = gl_win_height, texels = src\<rparr>
               CL_ADDRESS_CLAMP_TO_EDGE filt filterWidth
               (of_nat (p mod gl_win_width)) (of_nat (p div gl_win_width)))))
       [0..<gl_win_width * gl_win_height]"

definition result_image :: "(cl_float \<Rightarrow> uint) \<Rightarrow> bool \<Rightarrow> uint8_t list \<Rightarrow> uint8_t list" where
  "result_image oor smooth frame =
     filtered oor laplacian_filter
       (if smooth then filtered oor box_filter (filtered oor box_filter frame) else frame)"

definition conv_args :: "cl_mem \<Rightarrow> cl_mem \<Rightarrow> cl_mem \<Rightarrow> kernel_arg list" where
  "conv_args src out flt =
     [ArgMem src, ArgMem out, ArgInt (of_nat gl_win_height), ArgInt (of_nat gl_win_width),
      ArgMem flt, ArgInt filterWidth, ArgSampler CL_ADDRESS_CLAMP_TO_EDGE]"

definition convolve_commands :: "Filter \<Rightarrow> uint8_t list \<Rightarrow> command list" where
  "convolve_commands f frame =
     [WriteImage (bufferSourceImage f) frame]
     @ (if smoothed f
        then [NDRangeKernel ''convolution''
                (conv_args (bufferSourceImage f) (bufferInterImage1 f) (bufferBoxFilter f)) (global f),
              NDRangeKernel ''convolution''
                (conv_args (bufferInterImage1 f) (bufferInterImage2 f) (bufferBoxFilter f)) (global f),
              NDRangeKernel ''convolution''
                (conv_args (bufferInterImage2 f) (bufferOutputImage f) (bufferLaplacianFilter f)) (global f)]
        else [NDRangeKernel ''convolution''
                (conv_args (bufferSourceImage f) (bufferOutputImage f) (bufferLaplacianFilter f)) (global f)])
     @ [ReadImage (bufferOutputImage f)]"

definition one_pixel :: "uint8_t \<Rightarrow> image2d" where
  "one_pixel v = \<lparr>width = 1, height = 1, texels = [v]\<rparr>"

fun expected :: "(uint8_t list \<Rightarrow> uint8_t list) \<Rightarrow> uint8_t list option \<Rightarrow> event list \<Rightarrow> outcome list" where
  "expected d pending [] = []"
| "expected d pending (Publish rgb # evs) = Published # expected d (Some rgb) evs"
| "expected d pending (Take # evs) =
     (case pending of Some rgb \<Rightarrow> Taken (d rgb) | None \<Rightarrow> NoNewFrame) # expected d None evs"

definition pending_frame :: "MyFreenectDevice \<Rightarrow> uint8_t list option" where
  "pending_frame dev = (if newRGBFrame dev then Some (rgbBuffer dev) else None)"

definition delivered :: "(cl_float \<Rightarrow> uint) \<Rightarrow> bool \<Rightarrow> uint8_t list \<Rightarrow> uint8_t list" where
  "delivered oor sm gray =
     result_image oor sm (take (gl_win_width * gl_win_height) gray)
     @ [gray ! (gl_win_width * gl_win_height)]"

definition mailbox_room :: "bool \<Rightarrow> (cl_float \<Rightarrow> uint) \<Rightarrow> uint8_t list \<times> MyFreenectDevice \<times> Filter \<Rightarrow> bool" where
  "mailbox_room sm oor w =
     (length (fst w) = gl_win_width * gl_win_height + 1
      \<and> length (rgbBuffer (fst (snd w))) = getVideoBufferSize
      \<and> Filter_ok (snd (snd w)) \<and> smoothed (snd (snd w)) = sm
      \<and> out_of_range (queue (snd (snd w))) = oor)"

definition reference_filter :: Filter where
  "reference_filter = projr (Filter_new reference_machine)"

definition gray_block :: "uint8_t list \<Rightarrow> uint8_t list" where
  "gray_block rgb = take (gl_win_width * gl_win_height + 1) rgb"

definition texture_ok :: "Filter_texture \<Rightarrow> bool" where
  "texture_ok f =
     (tex_global f = (gl_win_width, gl_win_height)
      \<and> tex_bufferInterImage2 f = tex_bufferInterImage1 f
      \<and> length (tex_bufferOutputImage f) = 1
      \<and> kernel_name (tex_kernelNorm f) = ''normalizeImg''
      \<and> kernel_name (tex_kernelConv f) = ''convolutionGL''
      \<and> kernel_args (tex_kernelNorm f) 0 = Some (ArgMem (tex_bufferSourceImage f))
      \<and> kernel_args (tex_kernelNorm f) 1 = Some (ArgMem (tex_bufferInterImage1 f))
      \<and> kernel_args (tex_kernelNorm f) 2 = Some (ArgInt (of_nat gl_win_height))
      \<and> kernel_args (tex_kernelNorm f) 3 = Some (ArgInt (of_nat gl_win_width))
      \<and> kernel_args (tex_kernelNorm f) 4 = Some (ArgSampler CL_ADDRESS_CLAMP_TO_EDGE)
      \<and> kernel_args (tex_kernelConv f) 2 = Some (ArgInt (of_nat gl_win_height))
      \<and> kernel_args (tex_kernelConv f) 3 = Some (ArgInt (of_nat gl_win_width))
      \<and> kernel_args (tex_kernelConv f) 5 = Some (ArgInt filterWidth)
      \<and> kernel_args (tex_kernelConv f) 6 = Some (ArgSampler CL_ADDRESS_CLAMP_TO_EDGE))"

definition convGL_args :: "cl_mem \<Rightarrow> cl_mem \<Rightarrow> cl_mem \<Rightarrow> kernel_arg list" where
  "convGL_args src out flt =
     [ArgMem src, ArgMem out, ArgInt (of_nat gl_win_height), ArgInt (of_nat gl_win_width),
      ArgMem flt, ArgInt filterWidth, ArgSampler CL_ADDRESS_CLAMP_TO_EDGE]"

definition good_texture_machine :: "machine \<Rightarrow> bool" where
  "good_texture_machine m =
     (gl_sharing m \<and> build_succeeds m \<and> ''normalizeImg'' \<in> set (kernel_file m)
      \<and> ''convolutionGL'' \<in> set (kernel_file m))"

definition vertex_ok :: "Filter_vertex \<Rightarrow> bool" where
  "vertex_ok f =
     (vb_global f = (gl_width, gl_height)
      \<and> length (vb_bufferGLShared f) = 2
      \<and> kernel_name (vb_kernelRGBA f) = ''rgb2rgba''
      \<and> kernel_name (vb_kernelRGBNorm f) = ''normalizeRGB''
      \<and> kernel_name (vb_kernelDepthTo3D f) = ''depthTo3D''
      \<and> kernel_args (vb_kernelRGBA f) 0 = Some (ArgMem (vb_bufferSourceRGB f))
      \<and> kernel_args (vb_kernelRGBA f) 2 = Some (ArgInt (of_nat gl_height))
      \<and> kernel_args (vb_kernelRGBA f) 3 = Some (ArgInt (of_nat gl_width))
      \<and> kernel_args (vb_kernelRGBNorm f) 0 = Some (ArgMem (vb_bufferInterRGBA f))
      \<and> kernel_args (vb_kernelRGBNorm f) 1 = Some (ArgMem (vb_bufferGLShared f ! 0))
      \<and> kernel_args (vb_kernelRGBNorm f) 2 = Some (ArgInt (of_nat gl_height))
      \<and> kernel_args (vb_kernelRGBNorm f) 3 = Some (ArgInt (of_nat gl_width))
      \<and> kernel_args (vb_kernelDepthTo3D f) 0 = Some (ArgMem (vb_bufferSourceDepth f))
      \<and> kernel_args (vb_kernelDepthTo3D f) 1 = Some (ArgMem (vb_bufferGLShared f ! 1))
      \<and> kernel_args (vb_kernelDepthTo3D f) 2 = Some (ArgFloat (Finite 595)))"

definition good_vertex_machine :: "machine \<Rightarrow> bool" where
  "good_vertex_machine m =
     (gl_sharing m \<and> build_succeeds m \<and> ''rgb2rgba'' \<in> set (kernel_file m)
      \<and> ''normalizeRGB'' \<in> set (kernel_file m) \<and> ''depthTo3D'' \<in> set (kernel_file m))"

definition channel_sum :: "float4 \<Rightarrow> cl_float" where
  "channel_sum p = fadd (fadd (f4x p) (f4y p)) (f4z p)"

definition normalized :: "float4 \<Rightarrow> float4" where
  "normalized p =
     Float4 (fdiv (f4x p) (channel_sum p)) (fdiv (f4y p) (channel_sum p))
            (fdiv (f4z p) (channel_sum p)) (Finite 1)"

definition columns :: "(nat \<Rightarrow> uint8_t) \<Rightarrow> uint8_t list" where
  "columns g = map (\<lambda>p. g (p mod gl_win_width)) [0..<gl_win_width * gl_win_height]"

definition at_column :: "(nat \<Rightarrow> uint8_t) \<Rightarrow> int \<Rightarrow> rat" where
  "at_column g x = of_nat (unat (g (nat (clamp_to_edge x gl_win_width))))"

definition column_response :: "(cl_float \<Rightarrow> uint) \<Rightarrow> rat list \<Rightarrow> (nat \<Rightarrow> uint8_t) \<Rightarrow> nat \<Rightarrow> uint8_t" where
  "column_response oor ws g c =
     convert_uchar_sat (float_to_uint oor (Finite
       ((ws ! 0 + ws ! 3 + ws ! 6) * at_column g (int c - 1)
        + (ws ! 1 + ws ! 4 + ws ! 7) * at_column g (int c)
        + (ws ! 2 + ws ! 5 + ws ! 8) * at_column g (int c + 1))))"

definition profile :: "nat \<Rightarrow> uint8_t \<Rightarrow> uint8_t \<Rightarrow> nat \<Rightarrow> uint8_t" where
  "profile k a b c = (if c < k then a else b)"

definition edge_at :: "nat \<Rightarrow> nat \<Rightarrow> uint8_t" where
  "edge_at k c = (if c + 1 = k then 3 else 0)"

definition step_frame :: "uint8_t list" where
  "step_frame = columns (profile 320 10 11)"

definition dark_frame :: "uint8_t list" where
  "dark_frame = columns (profile 320 0 1)"

definition wide_frame :: "uint8_t list" where
  "wide_frame = step_frame @ replicate gl_win_width 9"

section \<open>Properties of the arithmetic\<close>

lemma f32_exponent_le:
  assumes "q \<noteq> 0" "\<bar>q\<bar> \<le> 2 ^ 20"
  shows "f32_exponent q \<le> 20"
proof (cases "find (\<lambda>k. 2 powi k \<le> \<bar>q\<bar>) (rev [-126..127])")
  case None
  then show ?thesis by (simp add: f32_exponent_def)
next
  case (Some k)
  then have "(2::rat) powi k \<le> \<bar>q\<bar>"
    by (auto simp: find_Some_iff)
  with assms have "(2::rat) powi k \<le> 2 powi 20"
    by simp
  then have "k \<le> 20"
    by (rule power_int_le_imp_le_exp [rotated]) simp_all
  with Some show ?thesis by (simp add: f32_exponent_def)
qed

lemma round_even_of_int: "round_even (of_int z) = z"
  by (simp add: round_even_def)

lemma f32_round_exact:
  assumes m: "8 * q = of_int m" and b: "\<bar>q\<bar> \<le> 2 ^ 20"
  shows "f32_round q = q"
proof (cases "q = 0")
  case True
  then show ?thesis by (simp add: f32_round_def round_even_def)
next
  case False
  define e where "e = f32_exponent q"
  have e: "e \<le> 20" unfolding e_def using False b by (rule f32_exponent_le)
  define n where "n = nat (20 - e)"
  have u: "(2::rat) powi (e - 23) = 1 / (2 ^ (n + 3))"
    using e by (simp add: power_int_def n_def nat_diff_distrib' field_simps nat_add_distrib flip: power_add)
  have "q * 2 ^ (n + 3) = of_int (m * 2 ^ n)"
    using m by (simp add: power_add algebra_simps)
  then have "round_even (q / (1 / (2 ^ (n + 3)))) = m * 2 ^ n"
    by (simp only: divide_divide_eq_right div_by_1 mult_1 round_even_of_int) 
  then show ?thesis
    using m by (simp add: f32_round_def Let_def u e_def [symmetric] power_add field_simps)
qed

lemma to_float_exact:
  assumes "8 * q = of_int m" "\<bar>q\<bar> \<le> 2 ^ 20"
  shows "to_float q = Finite q"
proof -
  have "f32_round q = q" using assms by (rule f32_round_exact)
  moreover have "q < 2 ^ 128" "- (2 ^ 128) < q"
    using assms(2) by (auto simp: abs_le_iff intro: order_le_less_trans less_le_trans)
  ultimately show ?thesis by (simp add: to_float_def Let_def)
qed

lemma eighth_0: "eighth 0"
  by (simp add: eighth_def)

lemma eighth_add: "eighth a \<Longrightarrow> eighth b \<Longrightarrow> eighth (a + b)"
  unfolding eighth_def
proof (elim exE)
  fix m n :: int
  assume "8 * a = of_int m" "8 * b = of_int n"
  then have "8 * (a + b) = of_int (m + n)" by (simp add: algebra_simps)
  then show "\<exists>m::int. 8 * (a + b) = of_int m" ..
qed

lemma eighth_nat_mult: "eighth w \<Longrightarrow> eighth (of_nat n * w)"
  unfolding eighth_def
proof (elim exE)
  fix m :: int
  assume "8 * w = of_int m"
  then have "8 * (of_nat n * w) = of_int (int n * m)" by (simp add: algebra_simps)
  then show "\<exists>m::int. 8 * (of_nat n * w) = of_int m" ..
qed

lemma to_float_eighth: "eighth q \<Longrightarrow> \<bar>q\<bar> \<le> 2 ^ 20 \<Longrightarrow> to_float q = Finite q"
  unfolding eighth_def by (elim exE) (rule to_float_exact)

lemma ucast8_le: "unat (ucast (b :: uint8_t) :: uint) \<le> 255"
proof -
  have "unat b < 2 ^ 8" using unsigned_less [of b, where 'a = nat] by simp
  then have "take_bit 32 (unat b) = unat b" by (simp add: take_bit_nat_eq_self_iff)
  moreover have "unat b \<le> 255" using \<open>unat b < 2 ^ 8\<close> by simp
  ultimately show ?thesis by (simp add: unsigned_ucast_eq)
qed

lemma texel_le: "unat (texel img x y) \<le> 255"
  by (simp add: texel_def ucast8_le)

lemma read_imageui_le: "unat (read_imageui img smp c) \<le> 255"
  by (simp add: read_imageui_def texel_le split: sampler_t.split)

lemma tap_bounds: "0 \<le> tap src smp column y j" "tap src smp column y j \<le> 255"
proof -
  have "rat_of_nat (unat (read_imageui src smp (sint (column + word_of_int j), y))) \<le> of_nat 255"
    by (rule of_nat_mono) (rule read_imageui_le)
  then show "tap src smp column y j \<le> 255" by (simp add: tap_def del: of_nat_unat)
  show "0 \<le> tap src smp column y j" by (simp add: tap_def del: of_nat_unat)
qed

lemma uint_to_float_tap:
  "uint_to_float (read_imageui src smp (sint (column + word_of_int j), y)) = Finite (tap src smp column y j)"
proof -
  have "eighth (tap src smp column y j)"
    using eighth_nat_mult [of 1 "unat (read_imageui src smp (sint (column + word_of_int j), y))"]
    by (simp add: tap_def eighth_def del: of_nat_unat)
  moreover have "\<bar>tap src smp column y j\<bar> \<le> 2 ^ 20"
    using tap_bounds [of src smp column y j] by simp
  ultimately have "to_float (tap src smp column y j) = Finite (tap src smp column y j)"
    by (rule to_float_eighth)
  then show ?thesis by (simp add: uint_to_float_def tap_def del: of_nat_unat)
qed

lemma tap_weight:
  assumes "eighth w" "\<bar>w\<bar> \<le> 8"
  shows "eighth (tap src smp column y j * w)" "\<bar>tap src smp column y j * w\<bar> \<le> 2040"
proof -
  show "eighth (tap src smp column y j * w)"
    using eighth_nat_mult [OF assms(1)] by (simp add: tap_def del: of_nat_unat)
  have "\<bar>tap src smp column y j * w\<bar> = tap src smp column y j * \<bar>w\<bar>"
    using tap_bounds(1) [of src smp column y j] by (simp add: abs_mult)
  also have "\<dots> \<le> 255 * 8"
    using tap_bounds [of src smp column y j] assms(2) by (intro mult_mono) simp_all
  finally show "\<bar>tap src smp column y j * w\<bar> \<le> 2040" by simp
qed

lemma conv_column_step:
  assumes "eighth s" "\<bar>s\<bar> \<le> 2040 * 100" "eighth w" "\<bar>w\<bar> \<le> 8" "k < length ws" "ws ! k = w"
  shows "conv_column src smp (map Finite ws) column y j (Finite s, k)
           = (Finite (s + tap src smp column y j * w), Suc k)"
proof -
  note tw = tap_weight [OF assms(3,4), of src smp column y j]
  have m: "fmul (Finite (tap src smp column y j)) (Finite w) = Finite (tap src smp column y j * w)"
    using tw by (simp add: to_float_eighth)
  have "eighth (s + tap src smp column y j * w)"
    using assms(1) tw(1) by (rule eighth_add)
  moreover have "\<bar>s + tap src smp column y j * w\<bar> \<le> 2 ^ 20"
    using assms(2) tw(2) by (simp add: abs_le_iff)
  ultimately have a: "fadd (Finite s) (Finite (tap src smp column y j * w))
      = Finite (s + tap src smp column y j * w)"
    by (simp add: to_float_eighth)
  show ?thesis
    using assms(5,6) m a by (simp add: conv_column_def Let_def uint_to_float_tap del: fmul.simps fadd.simps)
qed

lemma row_sum_Nil: "row_sum src smp ws column y [] k = 0"
  by (simp add: row_sum_def)

lemma row_sum_Cons:
  "k < length ws \<Longrightarrow>
   row_sum src smp ws column y (j # js) k
     = tap src smp column y j * ws ! k + row_sum src smp ws column y js (Suc k)"
  by (simp add: row_sum_def flip: Cons_nth_drop_Suc)

lemma small_weights_nth: "small_weights ws \<Longrightarrow> k < length ws \<Longrightarrow> eighth (ws ! k) \<and> \<bar>ws ! k\<bar> \<le> 8"
  by (simp add: small_weights_def list_all_length)

lemma row_sum_small:
  "small_weights ws \<Longrightarrow> k + length js \<le> length ws \<Longrightarrow>
   eighth (row_sum src smp ws column y js k)
   \<and> \<bar>row_sum src smp ws column y js k\<bar> \<le> 2040 * of_nat (length js)"
proof (induction js arbitrary: k)
  case Nil
  then show ?case by (simp add: row_sum_Nil eighth_0)
next
  case (Cons j js)
  then have k: "k < length ws" and k': "Suc k + length js \<le> length ws" by simp_all
  note w = small_weights_nth [OF Cons.prems(1) k]
  note tw = tap_weight [of "ws ! k" src smp column y j, OF conjunct1 [OF w] conjunct2 [OF w]]
  note ih = Cons.IH [OF Cons.prems(1) k']
  have "eighth (tap src smp column y j * ws ! k + row_sum src smp ws column y js (Suc k))"
    using tw(1) conjunct1 [OF ih] by (rule eighth_add)
  moreover have "\<bar>tap src smp column y j * ws ! k + row_sum src smp ws column y js (Suc k)\<bar>
      \<le> 2040 + 2040 * of_nat (length js)"
    using tw(2) conjunct2 [OF ih] by (simp add: abs_le_iff)
  ultimately show ?case by (simp add: row_sum_Cons [OF k] algebra_simps)
qed

lemma conv_column_fold:
  "small_weights ws \<Longrightarrow> eighth s \<Longrightarrow> \<bar>s\<bar> \<le> 2040 * of_nat c \<Longrightarrow> c + length js \<le> 100 \<Longrightarrow>
   k + length js \<le> length ws \<Longrightarrow>
   fold (conv_column src smp (map Finite ws) column y) js (Finite s, k)
     = (Finite (s + row_sum src smp ws column y js k), k + length js)"
proof (induction js arbitrary: s c k)
  case Nil
  then show ?case by (simp add: row_sum_Nil)
next
  case (Cons j js)
  then have k: "k < length ws" and k': "Suc k + length js \<le> length ws" by simp_all
  note w = small_weights_nth [OF Cons.prems(1) k]
  note tw = tap_weight [of "ws ! k" src smp column y j, OF conjunct1 [OF w] conjunct2 [OF w]]
  have "(2040::rat) * of_nat c \<le> 2040 * of_nat 100"
    using Cons.prems(4) by (intro mult_left_mono) (simp_all del: of_nat_numeral)
  then have s100: "\<bar>s\<bar> \<le> 2040 * 100" using Cons.prems(3) by simp
  have step: "conv_column src smp (map Finite ws) column y j (Finite s, k)
      = (Finite (s + tap src smp column y j * ws ! k), Suc k)"
    using Cons.prems(2) s100 conjunct1 [OF w] conjunct2 [OF w] k refl by (rule conv_column_step)
  have e: "eighth (s + tap src smp column y j * ws ! k)"
    using Cons.prems(2) tw(1) by (rule eighth_add)
  have b: "\<bar>s + tap src smp column y j * ws ! k\<bar> \<le> 2040 * of_nat (Suc c)"
    using Cons.prems(3) tw(2) by (simp add: abs_le_iff algebra_simps)
  have c': "Suc c + length js \<le> 100" using Cons.prems(4) by simp
  show ?case
    by (simp add: step Cons.IH [OF Cons.prems(1) e b c' k'] row_sum_Cons [OF k])
qed

lemma upto_m1_1: "[- 1..1] = [- 1, 0, 1::int]"
  by (simp add: upto.simps)

lemma halfwidth_3: "sint ((3::uint) div 2) = 1"
  by simp

lemma conv_sum_3:
  assumes sw: "small_weights ws" and len: "length ws = 9"
  shows "conv_sum src smp (map Finite ws) 3 column row = Finite (conv3 src smp ws column row)"
proof -
  let ?r = "\<lambda>i k. row_sum src smp ws column (sint (row + word_of_int i)) [- 1, 0, 1] k"
  have small: "eighth (?r i k) \<and> \<bar>?r i k\<bar> \<le> 2040 * 3" if "k + 3 \<le> 9" for i k
    using row_sum_small [OF sw, of k "[- 1, 0, 1]" src smp column "sint (row + word_of_int i)"]
      that len by simp
  have r1: "conv_row src smp (map Finite ws) column row 1 (- 1) (Finite 0, 0)
      = (Finite (?r (- 1) 0), 3)"
    using conv_column_fold [OF sw eighth_0, of 0 "[- 1, 0, 1]" 0 src smp column
        "sint (row + word_of_int (- 1))"] len
    by (simp add: conv_row_def upto_m1_1 Let_def)
  have r2: "conv_row src smp (map Finite ws) column row 1 0 (Finite (?r (- 1) 0), 3)
      = (Finite (?r (- 1) 0 + ?r 0 3), 6)"
    using conv_column_fold [OF sw conjunct1 [OF small [of 0 "- 1"]], of 3 "[- 1, 0, 1]" 3 src smp column
        "sint (row + word_of_int 0)"] small [of 0 "- 1"] len
    by (simp add: conv_row_def upto_m1_1 Let_def)
  have e2: "eighth (?r (- 1) 0 + ?r 0 3)"
    using small [of 0 "- 1"] small [of 3 0] by (simp add: eighth_add)
  have b2: "\<bar>?r (- 1) 0 + ?r 0 3\<bar> \<le> 2040 * of_nat 6"
    using small [of 0 "- 1"] small [of 3 0] by (simp add: abs_le_iff)
  have r3: "conv_row src smp (map Finite ws) column row 1 1 (Finite (?r (- 1) 0 + ?r 0 3), 6)
      = (Finite (?r (- 1) 0 + ?r 0 3 + ?r 1 6), 9)"
    using conv_column_fold [OF sw e2 b2, of "[- 1, 0, 1]" 6 src smp column
        "sint (row + word_of_int 1)"] len
    by (simp add: conv_row_def upto_m1_1 Let_def)
  show ?thesis
    by (simp only: conv_sum_def Let_def halfwidth_3 upto_m1_1 fold_simps id_apply o_apply
        r1 r2 r3 conv3_def fst_conv)
qed

lemma chk_success [simp]: "chk n CL_SUCCESS = Inr ()"
  by (simp add: chk_def)

lemma and_then_Inr [simp]: "and_then (Inr x) g = g x"
  by (simp add: and_then_def)

lemma and_then_Inl [simp]: "and_then (Inl e) g = Inl e"
  by (simp add: and_then_def)

lemma CL_SUCCESS_OR [simp]: "CL_SUCCESS OR CL_SUCCESS = CL_SUCCESS"
  by (simp add: CL_SUCCESS_def)

lemma Filter_new_ok:
  assumes "good_machine m"
  shows "\<exists>f. Filter_new m = Inr f \<and> Filter_ok f \<and> smoothed f
             \<and> out_of_range (queue f) = device_out_of_range m
             \<and> submitted (queue f) = [WriteBuffer (bufferBoxFilter f) box_filter,
                                         WriteBuffer (bufferLaplacianFilter f) laplacian_filter]"
  using assms
  by (simp add: good_machine_def Filter_new_def clCreateImage_def clCreateBuffer_def
      clEnqueueWriteBuffer_def clCreateKernel_def setArgs_def clSetKernelArg_def Let_def
      Filter_ok_def filterWidth_def box_filter_def laplacian_filter_def)

lemma length_filtered [simp]: "length (filtered oor filt src) = gl_win_width * gl_win_height"
  by (simp add: filtered_def)

lemma div_lt_height: "p < w * h \<Longrightarrow> p div w < (h::nat)"
  by (simp add: less_mult_imp_div_less mult.commute)

lemma map_upt_cong: "(\<And>p. p < n \<Longrightarrow> f p = g p) \<Longrightarrow> map f [0..<n] = map g [0..<n]"
  by simp

lemma write_region_full:
  assumes "width img = w" "height img = h" "length (texels img) = w * h" "0 < w"
  shows "write_region (0, 0, oz) (w, h, rz) host img = img\<lparr>texels := map (\<lambda>p. host ! p) [0..<w * h]\<rparr>"
proof -
  have eq: "map (\<lambda>p. let x = p mod w; y = p div w
                in if in_region (0, 0, oz) (w, h, rz) x y
                   then host ! ((y - fst (snd (0, 0, oz))) * fst (w, h, rz) + (x - fst (0::nat, 0::nat, oz)))
                   else texels img ! p) [0..<w * h]
        = map (\<lambda>p. host ! p) [0..<w * h]"
    using assms(4) by (intro map_upt_cong) (simp add: in_region_def div_lt_height Let_def)
  show ?thesis
    unfolding write_region_def assms(1) assms(3) by (simp only: eq)
qed

lemma map_nth_take: "n \<le> length xs \<Longrightarrow> map (\<lambda>p. xs ! p) [0..<n] = take n xs"
  by (simp add: list_eq_iff_nth_eq)

lemma read_region_full:
  assumes "width img = w" "length (texels img) = w * h" "0 < w"
  shows "read_region (0, 0, oz) (w, h, rz) img = texels img"
proof -
  have "map (\<lambda>i. texels img ! (i div w * w + i mod w)) [0..<w * h] = map (\<lambda>i. texels img ! i) [0..<w * h]"
    by simp
  also have "\<dots> = texels img"
    using assms(2) map_nth [of "texels img"] by simp
  finally show ?thesis using assms by (simp add: read_region_def)
qed

lemma WriteImage_full:
  assumes "objects q h = Some (Image img)" "width img = gl_win_width" "height img = gl_win_height"
    "length (texels img) = gl_win_width * gl_win_height" "gl_win_width * gl_win_height \<le> length host"
  shows "clEnqueueWriteImage q h (0, 0, 0) (gl_win_width, gl_win_height, 1) host =
           Inr (CL_SUCCESS,
             q\<lparr>objects := (objects q)(h \<mapsto> Image (img\<lparr>texels := take (gl_win_width * gl_win_height) host\<rparr>)),
               submitted := submitted q @ [WriteImage h (take (gl_win_width * gl_win_height) host)]\<rparr>)"
proof -
  have pos: "0 < gl_win_width" "0 < gl_win_height" by (simp_all add: gl_win_width_def gl_win_height_def)
  have fits: "region_fits (0, 0, 0) (gl_win_width, gl_win_height, 1) img"
    using assms pos by (simp add: region_fits_def)
  have ne: "host \<noteq> []"
    using assms(5) pos by auto
  show ?thesis
    using assms fits pos ne
    by (simp add: clEnqueueWriteImage_def write_region_full [OF assms(2,3,4) pos(1)] map_nth_take)
qed

lemma ReadImage_full:
  assumes "objects q h = Some (Image img)" "width img = gl_win_width" "height img = gl_win_height"
    "length (texels img) = gl_win_width * gl_win_height" "gl_win_width * gl_win_height \<le> length host"
  shows "clEnqueueReadImage q h (0, 0, 0) (gl_win_width, gl_win_height, 1) host =
           Inr (CL_SUCCESS, texels img @ drop (gl_win_width * gl_win_height) host,
             q\<lparr>submitted := submitted q @ [ReadImage h]\<rparr>)"
proof -
  have pos: "0 < gl_win_width" "0 < gl_win_height" by (simp_all add: gl_win_width_def gl_win_height_def)
  have fits: "region_fits (0, 0, 0) (gl_win_width, gl_win_height, 1) img"
    using assms pos by (simp add: region_fits_def)
  have ne: "host \<noteq> []"
    using assms(5) pos by auto
  show ?thesis
    using assms fits pos ne
    by (simp add: clEnqueueReadImage_def read_region_full [OF assms(2,4) pos(1)])
qed

lemma uint_of_nat_less: "a < b \<Longrightarrow> b < 2 ^ 32 \<Longrightarrow> (of_nat a :: uint) < of_nat b"
  by (simp add: word_of_nat_less_iff take_bit_nat_eq_self)

lemma guard_in_bounds:
  assumes "p < gl_win_width * gl_win_height"
  shows "(of_nat (p div gl_win_width) :: uint) < of_nat gl_win_height"
    "(of_nat (p mod gl_win_width) :: uint) < of_nat gl_win_width"
proof -
  have "p div gl_win_width < gl_win_height" using assms by (rule div_lt_height)
  moreover have "gl_win_height < 2 ^ 32" by (simp add: gl_win_height_def)
  ultimately show "(of_nat (p div gl_win_width) :: uint) < of_nat gl_win_height"
    by (rule uint_of_nat_less)
  have "p mod gl_win_width < gl_win_width" by (simp add: gl_win_width_def)
  moreover have "gl_win_width < 2 ^ 32" by (simp add: gl_win_width_def)
  ultimately show "(of_nat (p mod gl_win_width) :: uint) < of_nat gl_win_width"
    by (rule uint_of_nat_less)
qed

lemma run_convolution_full:
  assumes "width out = gl_win_width" "height out = gl_win_height"
    "length (texels out) = gl_win_width * gl_win_height"
    "width src = gl_win_width" "height src = gl_win_height"
  shows "run_convolution oor (gl_win_width, gl_win_height) src out (of_nat gl_win_height)
           (of_nat gl_win_width) filt filterWidth CL_ADDRESS_CLAMP_TO_EDGE
         = out\<lparr>texels := filtered oor filt (texels src)\<rparr>"
proof -
  have src: "\<lparr>width = gl_win_width, height = gl_win_height, texels = texels src\<rparr> = src"
    using assms(4,5) by simp
  have lt: "p mod gl_win_width < gl_win_width" "p div gl_win_width < gl_win_height"
    if "p < gl_win_width * gl_win_height" for p
    using that by (simp_all add: div_lt_height) (simp add: gl_win_width_def)
  have eq: "map (\<lambda>p. let x = p mod gl_win_width; y = p div gl_win_width
                 in if x < fst (gl_win_width, gl_win_height) \<and> y < snd (gl_win_width, gl_win_height)
                    then (case convolution oor src (of_nat gl_win_height) (of_nat gl_win_width) filt
                                 filterWidth CL_ADDRESS_CLAMP_TO_EDGE (x, y) of
                            Some color \<Rightarrow> convert_uchar_sat color
                          | None \<Rightarrow> texels out ! p)
                    else texels out ! p)
            [0..<gl_win_width * gl_win_height]
        = filtered oor filt (texels src)"
    unfolding filtered_def src
    by (intro map_upt_cong) (simp add: lt convolution_def Let_def guard_in_bounds)
  show ?thesis
    unfolding run_convolution_def assms(1) assms(3) by (simp only: eq)
qed

lemma NDRange_ok:
  assumes args: "kernel_args k 0 = Some (ArgMem s)" "kernel_args k 1 = Some (ArgMem d)"
      "kernel_args k 2 = Some (ArgInt (of_nat gl_win_height))"
      "kernel_args k 3 = Some (ArgInt (of_nat gl_win_width))"
      "kernel_args k 4 = Some (ArgMem c)" "kernel_args k 5 = Some (ArgInt filterWidth)"
      "kernel_args k 6 = Some (ArgSampler CL_ADDRESS_CLAMP_TO_EDGE)"
    and objs: "objects q s = Some (Image si)" "objects q d = Some (Image di)"
      "objects q c = Some (Buffer filt)"
    and dims: "width si = gl_win_width" "height si = gl_win_height"
      "width di = gl_win_width" "height di = gl_win_height"
      "length (texels di) = gl_win_width * gl_win_height"
    and len: "length filt = 9" and ne: "s \<noteq> d"
  shows "clEnqueueNDRangeKernel q k (gl_win_width, gl_win_height) =
           Inr (CL_SUCCESS,
             q\<lparr>objects := (objects q)(d \<mapsto> Image (di\<lparr>texels := filtered (out_of_range q) filt (texels si)\<rparr>)),
               submitted := submitted q @
                 [NDRangeKernel (kernel_name k) (conv_args s d c) (gl_win_width, gl_win_height)]\<rparr>)"
proof -
  have hw: "(Suc (2 * nat (sint (filterWidth div 2)))) ^ 2 = (9::nat)"
    by (simp add: filterWidth_def)
  have b: "bound_args k = Some (conv_args s d c)"
    using args by (simp add: bound_args_def conv_args_def)
  have m: "\<not> gl_win_width < min gl_win_width (unat (of_nat gl_win_width :: uint))"
      "\<not> gl_win_height < min gl_win_height (unat (of_nat gl_win_height :: uint))"
    by simp_all
  show ?thesis
    unfolding clEnqueueNDRangeKernel_def b conv_args_def
    using objs ne len m dims
    by (simp add: hw run_convolution_full [OF dims(3,4,5,1,2)] del: of_nat_mult)
qed

lemma image_split:
  "(case objects q h of Some (Image img) \<Rightarrow> P img | _ \<Rightarrow> False)
     \<Longrightarrow> \<exists>img. objects q h = Some (Image img) \<and> P img"
  by (auto split: option.splits mem_object.splits)

lemma setArgs1:
  "i < 7 \<Longrightarrow>
   setArgs [(i, v)] f = Inr (f\<lparr>status := CL_SUCCESS,
     kernelConv := (kernelConv f)\<lparr>kernel_args := (kernel_args (kernelConv f))(i \<mapsto> v)\<rparr>\<rparr>)"
  by (simp add: setArgs_def clSetKernelArg_def)

lemma setArgs2:
  "i < 7 \<Longrightarrow> j < 7 \<Longrightarrow>
   setArgs [(i, v), (j, w)] f = Inr (f\<lparr>status := CL_SUCCESS,
     kernelConv := (kernelConv f)\<lparr>kernel_args := (kernel_args (kernelConv f))(i \<mapsto> v, j \<mapsto> w)\<rparr>\<rparr>)"
  by (simp add: setArgs_def clSetKernelArg_def)

lemma setArgs3:
  "i < 7 \<Longrightarrow> j < 7 \<Longrightarrow> l < 7 \<Longrightarrow>
   setArgs [(i, v), (j, w), (l, u)] f = Inr (f\<lparr>status := CL_SUCCESS,
     kernelConv := (kernelConv f)\<lparr>kernel_args :=
        (kernel_args (kernelConv f))(i \<mapsto> v, j \<mapsto> w, l \<mapsto> u)\<rparr>\<rparr>)"
  by (simp add: setArgs_def clSetKernelArg_def)

lemma enqueueKernel_ok:
  assumes args: "kernel_args (kernelConv f) 0 = Some (ArgMem s)"
      "kernel_args (kernelConv f) 1 = Some (ArgMem d)"
      "kernel_args (kernelConv f) 2 = Some (ArgInt (of_nat gl_win_height))"
      "kernel_args (kernelConv f) 3 = Some (ArgInt (of_nat gl_win_width))"
      "kernel_args (kernelConv f) 4 = Some (ArgMem c)"
      "kernel_args (kernelConv f) 5 = Some (ArgInt filterWidth)"
      "kernel_args (kernelConv f) 6 = Some (ArgSampler CL_ADDRESS_CLAMP_TO_EDGE)"
    and objs: "objects (queue f) s = Some (Image si)" "objects (queue f) d = Some (Image di)"
      "objects (queue f) c = Some (Buffer filt)"
    and dims: "width si = gl_win_width" "height si = gl_win_height"
      "width di = gl_win_width" "height di = gl_win_height"
      "length (texels di) = gl_win_width * gl_win_height"
    and len: "length filt = 9" and ne: "s \<noteq> d"
    and g: "global f = (gl_win_width, gl_win_height)"
  shows "enqueueKernel f =
           Inr (f\<lparr>status := CL_SUCCESS,
                  queue := (queue f)\<lparr>objects := (objects (queue f))(d \<mapsto>
                       Image (di\<lparr>texels := filtered (out_of_range (queue f)) filt (texels si)\<rparr>)),
                    submitted := submitted (queue f) @
                      [NDRangeKernel (kernel_name (kernelConv f)) (conv_args s d c)
                         (gl_win_width, gl_win_height)]\<rparr>\<rparr>)"
  unfolding enqueueKernel_def g
  by (simp add: NDRange_ok [OF args objs dims len ne])

lemma convolve_smoothed_ok:
  assumes ok: "Filter_ok f" and len: "gl_win_width * gl_win_height \<le> length imagev"
    and sm: "smoothed f"
  shows "\<exists>f'. convolve imagev f =
            Inr (result_image (out_of_range (queue f)) True
                   (take (gl_win_width * gl_win_height) imagev)
                 @ drop (gl_win_width * gl_win_height) imagev, f')
          \<and> Filter_ok f' \<and> smoothed f' = smoothed f
          \<and> out_of_range (queue f') = out_of_range (queue f) \<and> handles f' = handles f
          \<and> submitted (queue f') = submitted (queue f)
               @ convolve_commands f (take (gl_win_width * gl_win_height) imagev)"
proof -
  define S I1 I2 O' B L where h: "S = bufferSourceImage f" "I1 = bufferInterImage1 f"
    "I2 = bufferInterImage2 f" "O' = bufferOutputImage f" "B = bufferBoxFilter f"
    "L = bufferLaplacianFilter f"
  define frame where "frame = take (gl_win_width * gl_win_height) imagev"
  define oor where "oor = out_of_range (queue f)"
  from ok have geo: "origin f = (0, 0, 0)" "region f = (gl_win_width, gl_win_height, 1)"
      "global f = (gl_win_width, gl_win_height)"
    and kn: "kernel_name (kernelConv f) = ''convolution''"
    and d: "distinct [S, I1, I2, O', B, L]"
    and bx: "objects (queue f) B = Some (Buffer box_filter)"
    and lp: "objects (queue f) L = Some (Buffer laplacian_filter)"
    and ka: "kernel_args (kernelConv f) 2 = Some (ArgInt (of_nat gl_win_height))"
      "kernel_args (kernelConv f) 3 = Some (ArgInt (of_nat gl_win_width))"
      "kernel_args (kernelConv f) 5 = Some (ArgInt filterWidth)"
      "kernel_args (kernelConv f) 6 = Some (ArgSampler CL_ADDRESS_CLAMP_TO_EDGE)"
    by (simp_all add: Filter_ok_def h)
  from ok obtain si i1 i2 oi where
    o: "objects (queue f) S = Some (Image si)"
       "objects (queue f) I1 = Some (Image i1)"
       "objects (queue f) I2 = Some (Image i2)"
       "objects (queue f) O' = Some (Image oi)"
    and dm: "width si = gl_win_width" "height si = gl_win_height"
       "length (texels si) = gl_win_width * gl_win_height"
       "width i1 = gl_win_width" "height i1 = gl_win_height"
       "length (texels i1) = gl_win_width * gl_win_height"
       "width i2 = gl_win_width" "height i2 = gl_win_height"
       "length (texels i2) = gl_win_width * gl_win_height"
       "width oi = gl_win_width" "height oi = gl_win_height"
       "length (texels oi) = gl_win_width * gl_win_height"
    unfolding Filter_ok_def list.pred_inject h
    by (auto dest!: image_split)
  have ne: "S \<noteq> I1" "I1 \<noteq> I2" "I2 \<noteq> O'" "S \<noteq> I2" "S \<noteq> O'" "I1 \<noteq> O'"
      "B \<noteq> S" "B \<noteq> I1" "B \<noteq> I2" "B \<noteq> O'" "L \<noteq> S" "L \<noteq> I1" "L \<noteq> I2" "L \<noteq> O'" "B \<noteq> L"
    using d by auto
  note ne = ne ne [symmetric]
  have fl: "length box_filter = 9" "length laplacian_filter = 9"
    by (simp_all add: box_filter_def laplacian_filter_def)
  \<comment> \<open>the upload\<close>
  define q1 where "q1 = (queue f)\<lparr>objects := (objects (queue f))(S \<mapsto> Image (si\<lparr>texels := frame\<rparr>)),
               submitted := submitted (queue f) @ [WriteImage S frame]\<rparr>"
  have w: "clEnqueueWriteImage (queue f) (bufferSourceImage f) (origin f) (region f) imagev
      = Inr (CL_SUCCESS, q1)"
    unfolding geo q1_def frame_def h [symmetric]
    by (rule WriteImage_full [OF o(1) dm(1,2,3) len])
  define f1 where "f1 = f\<lparr>status := CL_SUCCESS, queue := q1\<rparr>"
  \<comment> \<open>first box filter\<close>
  define f2 where "f2 = f1\<lparr>status := CL_SUCCESS,
     kernelConv := (kernelConv f1)\<lparr>kernel_args :=
        (kernel_args (kernelConv f1))(0 \<mapsto> ArgMem S, 1 \<mapsto> ArgMem I1, 4 \<mapsto> ArgMem B)\<rparr>\<rparr>"
  have s2: "setArgs [(0, ArgMem (bufferSourceImage f1)), (1, ArgMem (bufferInterImage1 f1)),
                     (4, ArgMem (bufferBoxFilter f1))] f1 = Inr f2"
    by (simp add: setArgs3 f2_def f1_def h)
  define q2 where "q2 = q1\<lparr>objects := (objects q1)(I1 \<mapsto>
                       Image (i1\<lparr>texels := filtered oor box_filter frame\<rparr>)),
                    submitted := submitted q1 @
                      [NDRangeKernel ''convolution'' (conv_args S I1 B)
                         (gl_win_width, gl_win_height)]\<rparr>"
  define f3 where "f3 = f2\<lparr>status := CL_SUCCESS, queue := q2\<rparr>"
  have e3: "enqueueKernel f2 = Inr f3"
  proof -
    have "enqueueKernel f2 =
           Inr (f2\<lparr>status := CL_SUCCESS,
                  queue := (queue f2)\<lparr>objects := (objects (queue f2))(I1 \<mapsto>
                       Image (i1\<lparr>texels := filtered (out_of_range (queue f2)) box_filter (texels (si\<lparr>texels := frame\<rparr>))\<rparr>)),
                    submitted := submitted (queue f2) @
                      [NDRangeKernel (kernel_name (kernelConv f2)) (conv_args S I1 B)
                         (gl_win_width, gl_win_height)]\<rparr>\<rparr>)"
      by (rule enqueueKernel_ok [where filt = box_filter])
        (simp_all add: f2_def f1_def q1_def ka o bx dm fl ne geo)
    then show ?thesis
      by (simp add: f3_def q2_def f2_def f1_def q1_def oor_def kn)
  qed
  \<comment> \<open>second box filter\<close>
  define f4 where "f4 = f3\<lparr>status := CL_SUCCESS,
     kernelConv := (kernelConv f3)\<lparr>kernel_args :=
        (kernel_args (kernelConv f3))(0 \<mapsto> ArgMem I1, 1 \<mapsto> ArgMem I2)\<rparr>\<rparr>"
  have s4: "setArgs [(0, ArgMem (bufferInterImage1 f3)), (1, ArgMem (bufferInterImage2 f3))] f3
      = Inr f4"
    by (simp add: setArgs2 f4_def f3_def f2_def f1_def h)
  define q3 where "q3 = q2\<lparr>objects := (objects q2)(I2 \<mapsto>
                       Image (i2\<lparr>texels := filtered oor box_filter (filtered oor box_filter frame)\<rparr>)),
                    submitted := submitted q2 @
                      [NDRangeKernel ''convolution'' (conv_args I1 I2 B)
                         (gl_win_width, gl_win_height)]\<rparr>"
  define f5 where "f5 = f4\<lparr>status := CL_SUCCESS, queue := q3\<rparr>"
  have e5: "enqueueKernel f4 = Inr f5"
  proof -
    have "enqueueKernel f4 =
           Inr (f4\<lparr>status := CL_SUCCESS,
                  queue := (queue f4)\<lparr>objects := (objects (queue f4))(I2 \<mapsto>
                       Image (i2\<lparr>texels := filtered (out_of_range (queue f4)) box_filter
                          (texels (i1\<lparr>texels := filtered oor box_filter frame\<rparr>))\<rparr>)),
                    submitted := submitted (queue f4) @
                      [NDRangeKernel (kernel_name (kernelConv f4)) (conv_args I1 I2 B)
                         (gl_win_width, gl_win_height)]\<rparr>\<rparr>)"
      by (rule enqueueKernel_ok [where filt = box_filter])
        (simp_all add: f4_def f3_def q2_def f2_def f1_def q1_def ka o bx dm fl ne geo)
    then show ?thesis
      by (simp add: f5_def q3_def f4_def f3_def q2_def f2_def f1_def q1_def oor_def kn)
  qed
  define f6 where "f6 = f5\<lparr>status := CL_SUCCESS,
     kernelConv := (kernelConv f5)\<lparr>kernel_args :=
        (kernel_args (kernelConv f5))(0 \<mapsto> ArgMem I2)\<rparr>\<rparr>"
  have s6: "setArgs [(0, ArgMem (bufferInterImage2 f5))] f5 = Inr f6"
    by (simp add: setArgs1 f6_def f5_def f4_def f3_def f2_def f1_def h)
  have sp: "smoothing_passes f1 = Inr f6"
    by (simp only: smoothing_passes_def s2 e3 s4 e5 s6 and_then_Inr)
  \<comment> \<open>the edge detection\<close>
  define f7 where "f7 = f6\<lparr>status := CL_SUCCESS,
     kernelConv := (kernelConv f6)\<lparr>kernel_args :=
        (kernel_args (kernelConv f6))(1 \<mapsto> ArgMem O', 4 \<mapsto> ArgMem L)\<rparr>\<rparr>"
  have s7: "setArgs [(1, ArgMem (bufferOutputImage f6)), (4, ArgMem (bufferLaplacianFilter f6))] f6
      = Inr f7"
    by (simp add: setArgs2 f7_def f6_def f5_def f4_def f3_def f2_def f1_def h)
  define res where "res = result_image oor True frame"
  define q4 where "q4 = q3\<lparr>objects := (objects q3)(O' \<mapsto> Image (oi\<lparr>texels := res\<rparr>)),
                    submitted := submitted q3 @
                      [NDRangeKernel ''convolution'' (conv_args I2 O' L)
                         (gl_win_width, gl_win_height)]\<rparr>"
  define f8 where "f8 = f7\<lparr>status := CL_SUCCESS, queue := q4\<rparr>"
  have e8: "enqueueKernel f7 = Inr f8"
  proof -
    have "enqueueKernel f7 =
           Inr (f7\<lparr>status := CL_SUCCESS,
                  queue := (queue f7)\<lparr>objects := (objects (queue f7))(O' \<mapsto>
                       Image (oi\<lparr>texels := filtered (out_of_range (queue f7)) laplacian_filter
                          (texels (i2\<lparr>texels := filtered oor box_filter (filtered oor box_filter frame)\<rparr>))\<rparr>)),
                    submitted := submitted (queue f7) @
                      [NDRangeKernel (kernel_name (kernelConv f7)) (conv_args I2 O' L)
                         (gl_win_width, gl_win_height)]\<rparr>\<rparr>)"
      by (rule enqueueKernel_ok [where filt = laplacian_filter])
        (simp_all add: f7_def f6_def f5_def q3_def f4_def f3_def q2_def f2_def f1_def q1_def
          ka o lp dm fl ne geo)
    then show ?thesis
      by (simp add: f8_def q4_def f7_def f6_def f5_def q3_def f4_def f3_def q2_def f2_def f1_def
          q1_def oor_def kn res_def result_image_def)
  qed
  \<comment> \<open>the read-back\<close>
  define q5 where "q5 = q4\<lparr>submitted := submitted q4 @ [ReadImage O']\<rparr>"
  have r: "clEnqueueReadImage (queue f8) (bufferOutputImage f8) (origin f8) (region f8) imagev
      = Inr (CL_SUCCESS, res @ drop (gl_win_width * gl_win_height) imagev, q5)"
  proof -
    have g8: "origin f8 = (0, 0, 0)" "region f8 = (gl_win_width, gl_win_height, 1)"
      "bufferOutputImage f8 = O'" "queue f8 = q4"
      by (simp_all add: f8_def f7_def f6_def f5_def f4_def f3_def f2_def f1_def geo h)
    have o8: "objects q4 O' = Some (Image (oi\<lparr>texels := res\<rparr>))"
      by (simp add: q4_def)
    have "clEnqueueReadImage q4 O' (0, 0, 0) (gl_win_width, gl_win_height, 1) imagev =
           Inr (CL_SUCCESS, texels (oi\<lparr>texels := res\<rparr>) @ drop (gl_win_width * gl_win_height) imagev,
             q4\<lparr>submitted := submitted q4 @ [ReadImage O']\<rparr>)"
      by (rule ReadImage_full [OF o8 _ _ _ len])
        (simp_all add: dm res_def result_image_def)
    then show ?thesis by (simp add: g8 q5_def)
  qed
  define f9 where "f9 = f8\<lparr>status := CL_SUCCESS, queue := q5\<rparr>"
  have c: "convolve imagev f = Inr (res @ drop (gl_win_width * gl_win_height) imagev, f9)"
    by (simp only: convolve_def w and_then_Inr prod.case chk_success sm if_True
        f1_def [symmetric] sp s7 e8 r f9_def)
  have ok9: "Filter_ok f9"
    using geo kn d bx lp ka dm ne o len
    unfolding h
    by (simp add: Filter_ok_def f9_def q5_def f8_def q4_def f7_def f6_def f5_def
        q3_def f4_def f3_def q2_def f2_def f1_def q1_def h res_def result_image_def frame_def)
  have sub: "submitted (queue f9) = submitted (queue f) @ convolve_commands f frame"
    using sm geo
    by (simp add: f9_def q5_def q4_def q3_def q2_def q1_def convolve_commands_def h)
  have misc: "smoothed f9 = smoothed f" "out_of_range (queue f9) = out_of_range (queue f)"
      "handles f9 = handles f"
    by (simp_all add: handles_def f9_def q5_def f8_def q4_def f7_def f6_def f5_def
        q3_def f4_def f3_def q2_def f2_def f1_def q1_def)
  show ?thesis
    using c ok9 sub misc by (auto simp: res_def frame_def oor_def)
qed

lemma convolve_raw_ok:
  assumes ok: "Filter_ok f" and len: "gl_win_width * gl_win_height \<le> length imagev"
    and sm: "\<not> smoothed f"
  shows "\<exists>f'. convolve imagev f =
            Inr (result_image (out_of_range (queue f)) False
                   (take (gl_win_width * gl_win_height) imagev)
                 @ drop (gl_win_width * gl_win_height) imagev, f')
          \<and> Filter_ok f' \<and> smoothed f' = smoothed f
          \<and> out_of_range (queue f') = out_of_range (queue f) \<and> handles f' = handles f
          \<and> submitted (queue f') = submitted (queue f)
               @ convolve_commands f (take (gl_win_width * gl_win_height) imagev)"
proof -
  define S I1 I2 O' B L where h: "S = bufferSourceImage f" "I1 = bufferInterImage1 f"
    "I2 = bufferInterImage2 f" "O' = bufferOutputImage f" "B = bufferBoxFilter f"
    "L = bufferLaplacianFilter f"
  define frame where "frame = take (gl_win_width * gl_win_height) imagev"
  define oor where "oor = out_of_range (queue f)"
  from ok have geo: "origin f = (0, 0, 0)" "region f = (gl_win_width, gl_win_height, 1)"
      "global f = (gl_win_width, gl_win_height)"
    and kn: "kernel_name (kernelConv f) = ''convolution''"
    and d: "distinct [S, I1, I2, O', B, L]"
    and bx: "objects (queue f) B = Some (Buffer box_filter)"
    and lp: "objects (queue f) L = Some (Buffer laplacian_filter)"
    and ka: "kernel_args (kernelConv f) 2 = Some (ArgInt (of_nat gl_win_height))"
      "kernel_args (kernelConv f) 3 = Some (ArgInt (of_nat gl_win_width))"
      "kernel_args (kernelConv f) 5 = Some (ArgInt filterWidth)"
      "kernel_args (kernelConv f) 6 = Some (ArgSampler CL_ADDRESS_CLAMP_TO_EDGE)"
    by (simp_all add: Filter_ok_def h)
  from ok obtain si i1 i2 oi where
    o: "objects (queue f) S = Some (Image si)"
       "objects (queue f) I1 = Some (Image i1)"
       "objects (queue f) I2 = Some (Image i2)"
       "objects (queue f) O' = Some (Image oi)"
    and dm: "width si = gl_win_width" "height si = gl_win_height"
       "length (texels si) = gl_win_width * gl_win_height"
       "width i1 = gl_win_width" "height i1 = gl_win_height"
       "length (texels i1) = gl_win_width * gl_win_height"
       "width i2 = gl_win_width" "height i2 = gl_win_height"
       "length (texels i2) = gl_win_width * gl_win_height"
       "width oi = gl_win_width" "height oi = gl_win_height"
       "length (texels oi) = gl_win_width * gl_win_height"
    unfolding Filter_ok_def list.pred_inject h
    by (auto dest!: image_split)
  have ne: "S \<noteq> I1" "I1 \<noteq> I2" "I2 \<noteq> O'" "S \<noteq> I2" "S \<noteq> O'" "I1 \<noteq> O'"
      "B \<noteq> S" "B \<noteq> I1" "B \<noteq> I2" "B \<noteq> O'" "L \<noteq> S" "L \<noteq> I1" "L \<noteq> I2" "L \<noteq> O'" "B \<noteq> L"
    using d by auto
  note ne = ne ne [symmetric]
  have fl: "length box_filter = 9" "length laplacian_filter = 9"
    by (simp_all add: box_filter_def laplacian_filter_def)
  \<comment> \<open>the upload\<close>
  define q1 where "q1 = (queue f)\<lparr>objects := (objects (queue f))(S \<mapsto> Image (si\<lparr>texels := frame\<rparr>)),
               submitted := submitted (queue f) @ [WriteImage S frame]\<rparr>"
  have w: "clEnqueueWriteImage (queue f) (bufferSourceImage f) (origin f) (region f) imagev
      = Inr (CL_SUCCESS, q1)"
    unfolding geo q1_def frame_def h [symmetric]
    by (rule WriteImage_full [OF o(1) dm(1,2,3) len])
  define f1 where "f1 = f\<lparr>status := CL_SUCCESS, queue := q1\<rparr>"
  define f6 where "f6 = f1\<lparr>status := CL_SUCCESS,
     kernelConv := (kernelConv f1)\<lparr>kernel_args :=
        (kernel_args (kernelConv f1))(0 \<mapsto> ArgMem S)\<rparr>\<rparr>"
  have sp: "no_smoothing f1 = Inr f6"
    by (simp add: no_smoothing_def setArgs1 f6_def f1_def h)
  \<comment> \<open>the edge detection\<close>
  define f7 where "f7 = f6\<lparr>status := CL_SUCCESS,
     kernelConv := (kernelConv f6)\<lparr>kernel_args :=
        (kernel_args (kernelConv f6))(1 \<mapsto> ArgMem O', 4 \<mapsto> ArgMem L)\<rparr>\<rparr>"
  have s7: "setArgs [(1, ArgMem (bufferOutputImage f6)), (4, ArgMem (bufferLaplacianFilter f6))] f6
      = Inr f7"
    by (simp add: setArgs2 f7_def f6_def f1_def h)
  define res where "res = result_image oor False frame"
  define q4 where "q4 = q1\<lparr>objects := (objects q1)(O' \<mapsto> Image (oi\<lparr>texels := res\<rparr>)),
                    submitted := submitted q1 @
                      [NDRangeKernel ''convolution'' (conv_args S O' L)
                         (gl_win_width, gl_win_height)]\<rparr>"
  define f8 where "f8 = f7\<lparr>status := CL_SUCCESS, queue := q4\<rparr>"
  have e8: "enqueueKernel f7 = Inr f8"
  proof -
    have "enqueueKernel f7 =
           Inr (f7\<lparr>status := CL_SUCCESS,
                  queue := (queue f7)\<lparr>objects := (objects (queue f7))(O' \<mapsto>
                       Image (oi\<lparr>texels := filtered (out_of_range (queue f7)) laplacian_filter
                          (texels (si\<lparr>texels := frame\<rparr>))\<rparr>)),
                    submitted := submitted (queue f7) @
                      [NDRangeKernel (kernel_name (kernelConv f7)) (conv_args S O' L)
                         (gl_win_width, gl_win_height)]\<rparr>\<rparr>)"
      by (rule enqueueKernel_ok [where filt = laplacian_filter])
        (simp_all add: f7_def f6_def f1_def q1_def ka o lp dm fl ne geo)
    then show ?thesis
      by (simp add: f8_def q4_def f7_def f6_def f1_def q1_def oor_def kn res_def result_image_def)
  qed
  \<comment> \<open>the read-back\<close>
  define q5 where "q5 = q4\<lparr>submitted := submitted q4 @ [ReadImage O']\<rparr>"
  have r: "clEnqueueReadImage (queue f8) (bufferOutputImage f8) (origin f8) (region f8) imagev
      = Inr (CL_SUCCESS, res @ drop (gl_win_width * gl_win_height) imagev, q5)"
  proof -
    have g8: "origin f8 = (0, 0, 0)" "region f8 = (gl_win_width, gl_win_height, 1)"
      "bufferOutputImage f8 = O'" "queue f8 = q4"
      by (simp_all add: f8_def f7_def f6_def f1_def geo h)
    have o8: "objects q4 O' = Some (Image (oi\<lparr>texels := res\<rparr>))"
      by (simp add: q4_def)
    have "clEnqueueReadImage q4 O' (0, 0, 0) (gl_win_width, gl_win_height, 1) imagev =
           Inr (CL_SUCCESS, texels (oi\<lparr>texels := res\<rparr>) @ drop (gl_win_width * gl_win_height) imagev,
             q4\<lparr>submitted := submitted q4 @ [ReadImage O']\<rparr>)"
      by (rule ReadImage_full [OF o8 _ _ _ len])
        (simp_all add: dm res_def result_image_def)
    then show ?thesis by (simp add: g8 q5_def)
  qed
  define f9 where "f9 = f8\<lparr>status := CL_SUCCESS, queue := q5\<rparr>"
  have c: "convolve imagev f = Inr (res @ drop (gl_win_width * gl_win_height) imagev, f9)"
    by (simp only: convolve_def w and_then_Inr prod.case chk_success sm if_False
        f1_def [symmetric] sp s7 e8 r f9_def)
  have ok9: "Filter_ok f9"
    using geo kn d bx lp ka dm ne o len
    unfolding h
    by (simp add: Filter_ok_def f9_def q5_def f8_def q4_def f7_def f6_def
        f1_def q1_def h res_def result_image_def frame_def)
  have sub: "submitted (queue f9) = submitted (queue f) @ convolve_commands f frame"
    using sm geo
    by (simp add: f9_def q5_def q4_def q1_def convolve_commands_def h)
  have misc: "smoothed f9 = smoothed f" "out_of_range (queue f9) = out_of_range (queue f)"
      "handles f9 = handles f"
    by (simp_all add: handles_def f9_def q5_def f8_def q4_def f7_def f6_def f1_def q1_def)
  show ?thesis
    using c ok9 sub misc by (auto simp: res_def frame_def oor_def)
qed

lemma convolve_ok:
  assumes "Filter_ok f" "gl_win_width * gl_win_height \<le> length imagev"
  shows "\<exists>f'. convolve imagev f =
            Inr (result_image (out_of_range (queue f)) (smoothed f)
                   (take (gl_win_width * gl_win_height) imagev)
                 @ drop (gl_win_width * gl_win_height) imagev, f')
          \<and> Filter_ok f' \<and> smoothed f' = smoothed f
          \<and> out_of_range (queue f') = out_of_range (queue f) \<and> handles f' = handles f
          \<and> submitted (queue f') = submitted (queue f)
               @ convolve_commands f (take (gl_win_width * gl_win_height) imagev)"
proof (cases "smoothed f")
  case True
  with convolve_smoothed_ok [OF assms] show ?thesis by simp
next
  case False
  with convolve_raw_ok [OF assms] show ?thesis by simp
qed


section \<open>The coefficients and the commands of \<open>convolve\<close>\<close>

text \<open>
  C5. The coefficients of the box filter that the constructor uploads are nine weights,
  each 0.125; added up in single precision they give exactly 9/8 = 1.125, which is not 1.
  On a machine where the constructor succeeds, the buffer \<open>bufferBoxFilter\<close> holds them
  and the upload is the first command of the queue.
\<close>

theorem box_filter_sum:
  "box_filter = replicate 9 (Finite (1/8))
   \<and> fold (\<lambda>w s. fadd s w) box_filter (Finite 0) = Finite (9/8)
   \<and> Finite (9/8) \<noteq> Finite 1
   \<and> (good_machine m \<longrightarrow>
        (\<exists>f. Filter_new m = Inr f
           \<and> objects (queue f) (bufferBoxFilter f) = Some (Buffer box_filter)
           \<and> hd (submitted (queue f)) = WriteBuffer (bufferBoxFilter f) box_filter))"
proof -
  have e: "to_float (of_int k / 8) = Finite (of_int k / 8)" if "\<bar>k\<bar> \<le> 16" for k :: int
  proof (rule to_float_exact)
    show "8 * (rat_of_int k / 8) = of_int k" by simp
    have "\<bar>rat_of_int k\<bar> \<le> 16" using that by (simp flip: of_int_abs)
    then show "\<bar>rat_of_int k / 8\<bar> \<le> 2 ^ 20" by simp
  qed
  have s: "fold (\<lambda>w s. fadd s w) box_filter (Finite 0) = Finite (9/8)"
    using e [of 1] e [of 2] e [of 3] e [of 4] e [of 5] e [of 6] e [of 7] e [of 8] e [of 9]
    by (simp add: box_filter_def)
  have u: "\<exists>f. Filter_new m = Inr f
           \<and> objects (queue f) (bufferBoxFilter f) = Some (Buffer box_filter)
           \<and> hd (submitted (queue f)) = WriteBuffer (bufferBoxFilter f) box_filter"
    if "good_machine m"
    using Filter_new_ok [OF that] by (auto simp: Filter_ok_def)
  show ?thesis
    using s u by (simp add: box_filter_def eval_nat_numeral)
qed

theorem box_filter_sum_witness:
  "good_machine reference_machine
   \<and> (\<exists>f. Filter_new reference_machine = Inr f
           \<and> objects (queue f) (bufferBoxFilter f) = Some (Buffer box_filter)
           \<and> hd (submitted (queue f)) = WriteBuffer (bufferBoxFilter f) box_filter)"
proof -
  have g: "good_machine reference_machine"
    by (simp add: good_machine_def reference_machine_def)
  with box_filter_sum [of reference_machine] show ?thesis by blast
qed

text \<open>
  C1. On a \<open>Filter\<close> as the constructor leaves it (and as \<open>convolve\<close> and
  \<open>toggleSmoothing\<close> keep it) and for every frame of at least 640 * 480 bytes,
  \<open>convolve\<close> returns and submits, in this order, exactly: the upload of the frame to the
  source image; with smoothing on, the kernel with the box coefficients from the source
  to intermediate image 1, the same from intermediate 1 to intermediate 2, and the kernel
  with the Laplacian coefficients from intermediate 2 to the output image; with smoothing
  off, only the kernel with the Laplacian coefficients from the source to the output
  image; and last the read-back of the output image. The Laplacian pass is there in both
  modes. The four images are distinct objects, and the two coefficient buffers hold the
  box and the Laplacian coefficients.
\<close>

theorem convolve_dispatches:
  assumes "Filter_ok f" and "gl_win_width * gl_win_height \<le> length imagev"
  shows "\<exists>imagev' f'. convolve imagev f = Inr (imagev', f')
     \<and> submitted (queue f') = submitted (queue f) @
         (if smoothed f
          then [WriteImage (bufferSourceImage f) (take (gl_win_width * gl_win_height) imagev),
                NDRangeKernel ''convolution''
                  (conv_args (bufferSourceImage f) (bufferInterImage1 f) (bufferBoxFilter f))
                  (gl_win_width, gl_win_height),
                NDRangeKernel ''convolution''
                  (conv_args (bufferInterImage1 f) (bufferInterImage2 f) (bufferBoxFilter f))
                  (gl_win_width, gl_win_height),
                NDRangeKernel ''convolution''
                  (conv_args (bufferInterImage2 f) (bufferOutputImage f) (bufferLaplacianFilter f))
                  (gl_win_width, gl_win_height),
                ReadImage (bufferOutputImage f)]
          else [WriteImage (bufferSourceImage f) (take (gl_win_width * gl_win_height) imagev),
                NDRangeKernel ''convolution''
                  (conv_args (bufferSourceImage f) (bufferOutputImage f) (bufferLaplacianFilter f))
                  (gl_win_width, gl_win_height),
                ReadImage (bufferOutputImage f)])
     \<and> distinct [bufferSourceImage f, bufferInterImage1 f, bufferInterImage2 f, bufferOutputImage f]
     \<and> objects (queue f') (bufferBoxFilter f) = Some (Buffer box_filter)
     \<and> objects (queue f') (bufferLaplacianFilter f) = Some (Buffer laplacian_filter)"
proof -
  from convolve_ok [OF assms] obtain f' where
    c: "convolve imagev f =
          Inr (result_image (out_of_range (queue f)) (smoothed f)
                 (take (gl_win_width * gl_win_height) imagev)
               @ drop (gl_win_width * gl_win_height) imagev, f')"
    and ok: "Filter_ok f'" and h: "handles f' = handles f"
    and s: "submitted (queue f') = submitted (queue f)
               @ convolve_commands f (take (gl_win_width * gl_win_height) imagev)"
    by blast
  have g: "global f = (gl_win_width, gl_win_height)"
    and d: "distinct [bufferSourceImage f, bufferInterImage1 f, bufferInterImage2 f, bufferOutputImage f]"
    using assms(1) by (simp_all add: Filter_ok_def)
  have b: "objects (queue f') (bufferBoxFilter f) = Some (Buffer box_filter)"
    "objects (queue f') (bufferLaplacianFilter f) = Some (Buffer laplacian_filter)"
    using ok h by (simp_all add: Filter_ok_def handles_def)
  show ?thesis
    using c s d b by (simp add: convolve_commands_def g)
qed

theorem convolve_dispatches_witness:
  "\<exists>f imagev' f'. Filter_new reference_machine = Inr f \<and> smoothed f
     \<and> convolve (replicate (gl_win_width * gl_win_height) 0) f = Inr (imagev', f')
     \<and> submitted (queue f') = submitted (queue f) @
          [WriteImage (bufferSourceImage f) (replicate (gl_win_width * gl_win_height) 0),
           NDRangeKernel ''convolution''
             (conv_args (bufferSourceImage f) (bufferInterImage1 f) (bufferBoxFilter f))
             (gl_win_width, gl_win_height),
           NDRangeKernel ''convolution''
             (conv_args (bufferInterImage1 f) (bufferInterImage2 f) (bufferBoxFilter f))
             (gl_win_width, gl_win_height),
           NDRangeKernel ''convolution''
             (conv_args (bufferInterImage2 f) (bufferOutputImage f) (bufferLaplacianFilter f))
             (gl_win_width, gl_win_height),
           ReadImage (bufferOutputImage f)]"
proof -
  have "good_machine reference_machine"
    by (simp add: good_machine_def reference_machine_def)
  from Filter_new_ok [OF this] obtain f where
    f: "Filter_new reference_machine = Inr f" "Filter_ok f" "smoothed f"
    by blast
  have l: "gl_win_width * gl_win_height \<le> length (replicate (gl_win_width * gl_win_height) (0::uint8_t))"
    by simp
  from convolve_dispatches [OF f(2) l] f(1,3) show ?thesis
    by (simp del: replicate_eq_replicate) blast
qed

section \<open>A source image of one texel\<close>

lemma unat_ucast8: "unat (ucast (v :: uint8_t) :: uint) = unat v"
proof -
  have "unat v < 2 ^ 8" using unsigned_less [of v, where 'a = nat] by simp
  then have "take_bit 32 (unat v) = unat v" by (simp add: take_bit_nat_eq_self_iff)
  then show ?thesis by (simp add: unsigned_ucast_eq)
qed

lemma read_1x1:
  "read_imageui (one_pixel v) CL_ADDRESS_CLAMP_TO_EDGE c = ucast v"
  by (simp add: read_imageui_def texel_def clamp_to_edge_def one_pixel_def)

lemma tap_1x1:
  "tap (one_pixel v) CL_ADDRESS_CLAMP_TO_EDGE column y j = of_nat (unat v)"
  by (simp only: tap_def read_1x1 unat_ucast8)

lemma sum_list_9:
  assumes "length ws = 9"
  shows "sum_list ws = (ws ! 0 + ws ! 1 + ws ! 2) + (ws ! 3 + ws ! 4 + ws ! 5) + (ws ! 6 + ws ! 7 + ws ! 8 :: rat)"
proof -
  from assms obtain a b c d e f g h i where "ws = [a, b, c, d, e, f, g, h, i]"
    by (auto simp: length_Suc_conv eval_nat_numeral)
  then show ?thesis by simp
qed

lemma conv3_1x1:
  assumes "length ws = 9"
  shows "conv3 (one_pixel v) CL_ADDRESS_CLAMP_TO_EDGE ws column row
           = of_nat (unat v) * sum_list ws"
proof -
  from assms obtain a b c d e f g h i where "ws = [a, b, c, d, e, f, g, h, i]"
    by (auto simp: length_Suc_conv eval_nat_numeral)
  then show ?thesis
    by (simp add: conv3_def row_sum_def tap_1x1 algebra_simps del: of_nat_unat)
qed

lemma small_laplacian: "small_weights [1, 1, 1, 1, - 8, 1, 1, 1, 1]"
  by (simp add: small_weights_def eighth_def) (intro conjI exI [of _ 8] exI [of _ "- 64"]; simp)

lemma laplacian_map: "laplacian_filter = map Finite [1, 1, 1, 1, - 8, 1, 1, 1, 1]"
  by (simp add: laplacian_filter_def)

text \<open>
  C4. A source image of one texel \<open>v\<close>, read with the clamp-to-edge sampler: each of
  the nine reads of the kernel returns \<open>v\<close>, so for nine weights that are multiples of
  1/8 of magnitude at most 8 (as both filters of the program are; the additions and
  multiplications are then exact in single precision) the accumulator ends as
  \<open>v\<close> times the sum of the weights. With the Laplacian coefficients, whose sum is 0,
  the work-item \<open>(0, 0)\<close> writes 0 whatever \<open>v\<close> is and whatever the device does with
  out-of-range conversions, and the 1 x 1 output image holds the texel 0 after the run.
\<close>

theorem convolution_1x1:
  "(small_weights ws \<and> length ws = 9 \<longrightarrow>
      conv_sum (one_pixel v) CL_ADDRESS_CLAMP_TO_EDGE
        (map Finite ws) filterWidth 0 0 = Finite (of_nat (unat v) * sum_list ws))
   \<and> convolution oor (one_pixel v) 1 1 laplacian_filter filterWidth
        CL_ADDRESS_CLAMP_TO_EDGE (0, 0) = Some 0
   \<and> run_convolution oor (1, 1) (one_pixel v)
        (one_pixel u) 1 1 laplacian_filter filterWidth
        CL_ADDRESS_CLAMP_TO_EDGE = one_pixel 0"
proof -
  let ?src = "one_pixel v"
  have g: "conv_sum ?src CL_ADDRESS_CLAMP_TO_EDGE (map Finite ws) filterWidth column row
      = Finite (of_nat (unat v) * sum_list ws)"
    if "small_weights ws" "length ws = 9" for ws column row
    using conv_sum_3 [OF that] conv3_1x1 [OF that(2)] by (simp add: filterWidth_def del: of_nat_unat)
  have l: "conv_sum ?src CL_ADDRESS_CLAMP_TO_EDGE laplacian_filter filterWidth column row = Finite 0"
    for column row
    unfolding laplacian_map using g [OF small_laplacian] by simp
  have c: "convolution oor ?src 1 1 laplacian_filter filterWidth CL_ADDRESS_CLAMP_TO_EDGE (0, 0) = Some 0"
    by (simp add: convolution_def l float_to_uint_def Let_def)
  have r: "run_convolution oor (1, 1) ?src (one_pixel u) 1 1
        laplacian_filter filterWidth CL_ADDRESS_CLAMP_TO_EDGE = one_pixel 0"
    using c by (simp add: run_convolution_def convert_uchar_sat_def one_pixel_def)
  show ?thesis using g c r by blast
qed

theorem convolution_1x1_witness:
  "small_weights [1/8, 1/8, 1/8, 1/8, 1/8, 1/8, 1/8, 1/8, 1/8]
   \<and> conv_sum (one_pixel 200) CL_ADDRESS_CLAMP_TO_EDGE
        box_filter filterWidth 0 0 = Finite 225"
proof -
  have s: "small_weights [1/8, 1/8, 1/8, 1/8, 1/8, 1/8, 1/8, 1/8, 1/8]"
    by (simp add: small_weights_def eighth_def)
  have b: "box_filter = map Finite [1/8, 1/8, 1/8, 1/8, 1/8, 1/8, 1/8, 1/8, 1/8]"
    by (simp add: box_filter_def)
  from convolution_1x1 [of "[1/8, 1/8, 1/8, 1/8, 1/8, 1/8, 1/8, 1/8, 1/8]" 200 saturating 0] s
  show ?thesis
    unfolding b by simp
qed

section \<open>The mailbox\<close>

lemma VideoCallback_ok:
  assumes "length rgb = getVideoBufferSize" "length (rgbBuffer dev) = getVideoBufferSize"
  shows "VideoCallback rgb dev = Inr (dev\<lparr>rgbBuffer := rgb, newRGBFrame := True\<rparr>)"
  using assms by (simp add: VideoCallback_def std_copy_def)

lemma getRGB_empty:
  "\<not> newRGBFrame dev \<Longrightarrow> getRGB cvtColor buffer (dev, opencl) = Inr (False, buffer, dev, opencl)"
  by (simp add: getRGB_def)

lemma getRGB_overrun:
  assumes "newRGBFrame dev" "length buffer \<le> gl_win_width * gl_win_height"
  shows "getRGB cvtColor buffer (dev, opencl)
         = Inl (Undefined ''std::copy runs past the end of a range'')"
  using assms by (simp add: getRGB_def std_copy_range_def and_then_def)

lemma getRGB_ok:
  assumes "Filter_ok opencl" "newRGBFrame dev"
    "gl_win_width * gl_win_height + 1 \<le> length (cvtColor (rgbBuffer dev))"
    "length buffer = gl_win_width * gl_win_height + 1"
  shows "\<exists>opencl'. getRGB cvtColor buffer (dev, opencl) =
            Inr (True, delivered (out_of_range (queue opencl)) (smoothed opencl)
                         (cvtColor (rgbBuffer dev)),
                 dev\<lparr>newRGBFrame := False\<rparr>, opencl')
          \<and> Filter_ok opencl' \<and> smoothed opencl' = smoothed opencl
          \<and> out_of_range (queue opencl') = out_of_range (queue opencl)"
proof -
  let ?n = "gl_win_width * gl_win_height"
  let ?gray = "cvtColor (rgbBuffer dev)"
  have c: "std_copy_range ?gray (Suc ?n) buffer = Inr (take (Suc ?n) ?gray)"
    using assms(3,4) by (simp add: std_copy_range_def)
  have l: "?n \<le> length (take (Suc ?n) ?gray)"
    using assms(3) by simp
  have t: "take ?n (take (Suc ?n) ?gray) = take ?n ?gray"
    by (simp add: min_def)
  have d: "drop ?n (take (Suc ?n) ?gray) = [?gray ! ?n]"
  proof -
    have "?n < length ?gray" using assms(3) by simp
    then have "take (Suc ?n) ?gray = take ?n ?gray @ [?gray ! ?n]"
      by (simp add: take_Suc_conv_app_nth)
    moreover have "length (take ?n ?gray) = ?n" using assms(3) by simp
    ultimately show ?thesis by (metis append_eq_conv_conj)
  qed
  from convolve_ok [OF assms(1) l] obtain f' where
    cv: "convolve (take (Suc ?n) ?gray) opencl =
       Inr (result_image (out_of_range (queue opencl)) (smoothed opencl)
              (take ?n (take (Suc ?n) ?gray))
            @ drop ?n (take (Suc ?n) ?gray), f')"
    and ok: "Filter_ok f'" "smoothed f' = smoothed opencl"
    "out_of_range (queue f') = out_of_range (queue opencl)"
    by blast
  have "getRGB cvtColor buffer (dev, opencl) =
            Inr (True, delivered (out_of_range (queue opencl)) (smoothed opencl) ?gray,
                 dev\<lparr>newRGBFrame := False\<rparr>, f')"
    using assms(2) by (simp add: getRGB_def c cv t d delivered_def)
  with ok show ?thesis by blast
qed

lemma length_delivered:
  "length (delivered oor sm gray) = gl_win_width * gl_win_height + 1"
  by (simp add: delivered_def result_image_def)

lemma run_expected:
  assumes "mailbox_room sm oor w"
    and "\<forall>rgb. Publish rgb \<in> set evs \<longrightarrow> length rgb = getVideoBufferSize"
    and "\<forall>rgb. length rgb = getVideoBufferSize
           \<longrightarrow> gl_win_width * gl_win_height + 1 \<le> length (cvtColor rgb)"
  shows "\<exists>w'. run cvtColor evs w =
           Inr (expected (\<lambda>rgb. delivered oor sm (cvtColor rgb)) (pending_frame (fst (snd w))) evs, w')
         \<and> mailbox_room sm oor w'"
  using assms(1,2)
proof (induction evs arbitrary: w)
  case Nil
  then show ?case by simp
next
  case (Cons ev evs)
  obtain buffer dev opencl where w: "w = (buffer, dev, opencl)" by (cases w) auto
  from Cons.prems(1) have inv: "length buffer = gl_win_width * gl_win_height + 1"
      "length (rgbBuffer dev) = getVideoBufferSize" "Filter_ok opencl" "smoothed opencl = sm"
      "out_of_range (queue opencl) = oor"
    by (simp_all add: mailbox_room_def w)
  from Cons.prems(2) have sizes: "\<forall>rgb. Publish rgb \<in> set evs \<longrightarrow> length rgb = getVideoBufferSize"
    by simp
  show ?case
  proof (cases ev)
    case (Publish rgb)
    with Cons.prems(2) have l: "length rgb = getVideoBufferSize" by simp
    let ?w = "(buffer, dev\<lparr>rgbBuffer := rgb, newRGBFrame := True\<rparr>, opencl)"
    have s: "step cvtColor ev w = Inr (Published, ?w)"
      by (simp add: step_def Publish w VideoCallback_ok [OF l inv(2)])
    have "mailbox_room sm oor ?w"
      using inv l by (simp add: mailbox_room_def)
    from Cons.IH [OF this sizes] obtain w' where
      "run cvtColor evs ?w = Inr (expected (\<lambda>rgb. delivered oor sm (cvtColor rgb)) (Some rgb) evs, w')"
      "mailbox_room sm oor w'"
      by (auto simp: pending_frame_def)
    then show ?thesis
      using s by (auto simp: Publish)
  next
    case Take
    show ?thesis
    proof (cases "newRGBFrame dev")
      case False
      have s: "step cvtColor ev w = Inr (NoNewFrame, w)"
        using False by (simp add: step_def Take w getRGB_empty)
      from Cons.IH [OF Cons.prems(1) sizes] obtain w' where
        "run cvtColor evs w = Inr (expected (\<lambda>rgb. delivered oor sm (cvtColor rgb)) None evs, w')"
        "mailbox_room sm oor w'"
        using False by (auto simp: pending_frame_def w)
      then show ?thesis
        using False s by (auto simp: Take pending_frame_def w)
    next
      case True
      have lg: "gl_win_width * gl_win_height + 1 \<le> length (cvtColor (rgbBuffer dev))"
        using assms(3) inv(2) by simp
      from getRGB_ok [of opencl dev cvtColor buffer, OF inv(3) True lg inv(1)] obtain opencl' where
        g: "getRGB cvtColor buffer (dev, opencl) =
            Inr (True, delivered oor sm (cvtColor (rgbBuffer dev)),
                 dev\<lparr>newRGBFrame := False\<rparr>, opencl')"
        and ok': "Filter_ok opencl'" "smoothed opencl' = sm" "out_of_range (queue opencl') = oor"
        using inv(4,5) by auto
      let ?w = "(delivered oor sm (cvtColor (rgbBuffer dev)), dev\<lparr>newRGBFrame := False\<rparr>, opencl')"
      have s: "step cvtColor ev w = Inr (Taken (delivered oor sm (cvtColor (rgbBuffer dev))), ?w)"
        by (simp add: step_def Take w g)
      have "mailbox_room sm oor ?w"
        using inv ok' by (simp add: mailbox_room_def length_delivered)
      from Cons.IH [OF this sizes] obtain w' where
        "run cvtColor evs ?w = Inr (expected (\<lambda>rgb. delivered oor sm (cvtColor rgb)) None evs, w')"
        "mailbox_room sm oor w'"
        by (auto simp: pending_frame_def)
      then show ?thesis
        using True s by (auto simp: Take pending_frame_def w)
    qed
  qed
qed

lemma length_expected [simp]: "length (expected d p evs) = length evs"
  by (induction d p evs rule: expected.induct) simp_all

lemma expected_nth:
  "i < length evs \<Longrightarrow>
   expected d p evs ! i =
     (case evs ! i of
        Publish rgb \<Rightarrow> Published
      | Take \<Rightarrow>
          (if 0 < i
           then (case evs ! (i - 1) of Publish rgb \<Rightarrow> Taken (d rgb) | Take \<Rightarrow> NoNewFrame)
           else (case p of Some rgb \<Rightarrow> Taken (d rgb) | None \<Rightarrow> NoNewFrame)))"
proof (induction d p evs arbitrary: i rule: expected.induct)
  case (1 d pending)
  then show ?case by simp
next
  case (2 d pending rgb evs)
  show ?case
  proof (cases i)
    case 0
    then show ?thesis by simp
  next
    case (Suc j)
    with 2 show ?thesis by (cases j) (simp_all split: event.splits)
  qed
next
  case (3 d pending evs)
  show ?case
  proof (cases i)
    case 0
    then show ?thesis by simp
  next
    case (Suc j)
    with 3 show ?thesis by (cases j) (simp_all split: event.splits)
  qed
qed

lemma reference_filter:
  "Filter_new reference_machine = Inr reference_filter" "Filter_ok reference_filter"
  "smoothed reference_filter" "out_of_range (queue reference_filter) = saturating"
proof -
  have "good_machine reference_machine"
    by (simp add: good_machine_def reference_machine_def)
  from Filter_new_ok [OF this] obtain f where
    f: "Filter_new reference_machine = Inr f" "Filter_ok f" "smoothed f"
      "out_of_range (queue f) = device_out_of_range reference_machine"
    by blast
  then have "reference_filter = f" by (simp add: reference_filter_def)
  with f show "Filter_new reference_machine = Inr reference_filter" "Filter_ok reference_filter"
    "smoothed reference_filter" "out_of_range (queue reference_filter) = saturating"
    by (simp_all add: reference_machine_def)
qed

lemma frame_sizes: "gl_win_width * gl_win_height \<le> getVideoBufferSize"
  by (simp add: gl_win_width_def gl_win_height_def getVideoBufferSize_def)

lemma length_gray_block:
  "length rgb = getVideoBufferSize \<Longrightarrow> length (gray_block rgb) = gl_win_width * gl_win_height + 1"
  by (simp add: gray_block_def getVideoBufferSize_def gl_win_width_def gl_win_height_def)

text \<open>
  With one more byte of room in the caller's vector, and after the gray image, the
  mailbox does what its comments say: a take succeeds exactly when the call just before
  it was a publish, and it delivers that frame, the most recently published one,
  converted to gray and filtered, followed by the one byte from after the image.
\<close>

lemma mailbox_with_room:
  assumes "Filter_ok opencl" and "length buffer = gl_win_width * gl_win_height + 1"
    and "length (rgbBuffer dev) = getVideoBufferSize" and "\<not> newRGBFrame dev"
    and "\<forall>rgb. Publish rgb \<in> set evs \<longrightarrow> length rgb = getVideoBufferSize"
    and "\<forall>rgb. length rgb = getVideoBufferSize
           \<longrightarrow> gl_win_width * gl_win_height + 1 \<le> length (cvtColor rgb)"
  shows "\<exists>outs w'. run cvtColor evs (buffer, dev, opencl) = Inr (outs, w')
     \<and> length outs = length evs
     \<and> (\<forall>i<length evs. outs ! i =
          (case evs ! i of
             Publish rgb \<Rightarrow> Published
           | Take \<Rightarrow>
               (if 0 < i
                then (case evs ! (i - 1) of
                        Publish rgb \<Rightarrow>
                          Taken (delivered (out_of_range (queue opencl)) (smoothed opencl)
                                   (cvtColor rgb))
                      | Take \<Rightarrow> NoNewFrame)
                else NoNewFrame)))"
proof -
  have "mailbox_room (smoothed opencl) (out_of_range (queue opencl)) (buffer, dev, opencl)"
    using assms(1,2,3) by (simp add: mailbox_room_def)
  from run_expected [OF this assms(5,6)] obtain w' where
    r: "run cvtColor evs (buffer, dev, opencl) =
          Inr (expected (\<lambda>rgb. delivered (out_of_range (queue opencl)) (smoothed opencl)
                 (cvtColor rgb)) None evs, w')"
    using assms(4) by (auto simp: pending_frame_def)
  let ?d = "\<lambda>rgb. delivered (out_of_range (queue opencl)) (smoothed opencl) (cvtColor rgb)"
  have l: "length (expected ?d None evs) = length evs"
    by (rule length_expected)
  have n: "expected ?d None evs ! i =
          (case evs ! i of
             Publish rgb \<Rightarrow> Published
           | Take \<Rightarrow>
               (if 0 < i
                then (case evs ! (i - 1) of Publish rgb \<Rightarrow> Taken (?d rgb) | Take \<Rightarrow> NoNewFrame)
                else NoNewFrame))" if "i < length evs" for i
    using expected_nth [OF that, of ?d None] by (simp split: event.splits)
  show ?thesis
    using r l n by blast
qed

text \<open>
  C2. \<open>getRGB\<close> is to deliver the most recently received frame, but its copy has the
  bound \<open>gray.dataend + 1\<close> and moves 640 * 480 + 1 bytes. Whenever a frame is pending
  and the caller's vector has at most 640 * 480 bytes, as the vector of
  \<open>drawGLScene\<close> has, the copy runs past its end: the take has undefined behaviour and
  delivers nothing. In the program as it starts, a publish followed by a take ends so.
\<close>

theorem getRGB_overruns_display_vector:
  "(newRGBFrame dev \<and> length buffer \<le> gl_win_width * gl_win_height \<longrightarrow>
      getRGB cvtColor buffer (dev, opencl)
        = Inl (Undefined ''std::copy runs past the end of a range''))
   \<and> (getVideoBufferSize \<le> length rgb \<longrightarrow>
      run cvtColor [Publish rgb, Take]
        (replicate (gl_win_width * gl_win_height) 0, MyFreenectDevice_new, opencl)
        = Inl (Undefined ''std::copy runs past the end of a range''))"
proof (intro conjI impI)
  assume "newRGBFrame dev \<and> length buffer \<le> gl_win_width * gl_win_height"
  then show "getRGB cvtColor buffer (dev, opencl)
        = Inl (Undefined ''std::copy runs past the end of a range'')"
    by (simp add: getRGB_overrun)
next
  assume l: "getVideoBufferSize \<le> length rgb"
  let ?dev = "MyFreenectDevice_new\<lparr>rgbBuffer := take getVideoBufferSize rgb, newRGBFrame := True\<rparr>"
  have v: "VideoCallback rgb MyFreenectDevice_new = Inr ?dev"
    using l by (simp add: VideoCallback_def MyFreenectDevice_new_def std_copy_def)
  have g: "getRGB cvtColor (replicate (gl_win_width * gl_win_height) 0) (?dev, opencl)
        = Inl (Undefined ''std::copy runs past the end of a range'')"
    by (rule getRGB_overrun) simp_all
  show "run cvtColor [Publish rgb, Take]
        (replicate (gl_win_width * gl_win_height) 0, MyFreenectDevice_new, opencl)
        = Inl (Undefined ''std::copy runs past the end of a range'')"
    by (simp add: step_def v g)
qed

theorem getRGB_overruns_display_vector_witness:
  "getRGB gray_block (replicate (gl_win_width * gl_win_height) 0)
     (\<lparr>rgbBuffer = replicate getVideoBufferSize 9, newRGBFrame = True\<rparr>, reference_filter)
     = Inl (Undefined ''std::copy runs past the end of a range'')
   \<and> run gray_block [Publish (replicate getVideoBufferSize 9), Take]
        (replicate (gl_win_width * gl_win_height) 0, MyFreenectDevice_new, reference_filter)
        = Inl (Undefined ''std::copy runs past the end of a range'')"
  using getRGB_overruns_display_vector [of "\<lparr>rgbBuffer = replicate getVideoBufferSize 9, newRGBFrame = True\<rparr>"
      "replicate (gl_win_width * gl_win_height) 0" gray_block reference_filter
      "replicate getVideoBufferSize 9"]
  by simp

text \<open>
  C8. After a successful \<open>getRGB\<close>, or whenever \<open>newRGBFrame\<close> is false, the next
  \<open>getRGB\<close> with no publish in between returns false, and the caller's vector, the
  device and the filter are what they were. The same holds for the \<open>getRGB\<close> of the
  point-cloud variant, which swaps the vectors.
\<close>

theorem getRGB_no_new_frame:
  "(getRGB cvtColor buffer (dev, opencl) = Inr (True, buffer', dev', opencl') \<longrightarrow>
      getRGB cvtColor buffer2 (dev', opencl') = Inr (False, buffer2, dev', opencl'))
   \<and> (\<not> newRGBFrame dev \<longrightarrow>
      getRGB cvtColor buffer (dev, opencl) = Inr (False, buffer, dev, opencl))
   \<and> (getRGB_vertex_buffer buffer dev = (True, buffer', dev') \<longrightarrow>
      getRGB_vertex_buffer buffer2 dev' = (False, buffer2, dev'))
   \<and> (\<not> newRGBFrame dev \<longrightarrow> getRGB_vertex_buffer buffer dev = (False, buffer, dev))"
proof (intro conjI impI)
  assume "getRGB cvtColor buffer (dev, opencl) = Inr (True, buffer', dev', opencl')"
  then have "\<not> newRGBFrame dev'"
    by (auto simp: getRGB_def and_then_def Let_def split: if_splits sum.splits)
  then show "getRGB cvtColor buffer2 (dev', opencl') = Inr (False, buffer2, dev', opencl')"
    by (rule getRGB_empty)
next
  assume "\<not> newRGBFrame dev"
  then show "getRGB cvtColor buffer (dev, opencl) = Inr (False, buffer, dev, opencl)"
    by (rule getRGB_empty)
next
  assume "getRGB_vertex_buffer buffer dev = (True, buffer', dev')"
  then have "\<not> newRGBFrame dev'"
    by (auto simp: getRGB_vertex_buffer_def split: if_splits)
  then show "getRGB_vertex_buffer buffer2 dev' = (False, buffer2, dev')"
    by (simp add: getRGB_vertex_buffer_def)
next
  assume "\<not> newRGBFrame dev"
  then show "getRGB_vertex_buffer buffer dev = (False, buffer, dev)"
    by (simp add: getRGB_vertex_buffer_def)
qed

theorem getRGB_no_new_frame_witness:
  "(\<exists>buffer' dev' opencl'.
      getRGB gray_block (replicate (gl_win_width * gl_win_height + 1) 0)
        (\<lparr>rgbBuffer = replicate getVideoBufferSize 9, newRGBFrame = True\<rparr>, reference_filter)
        = Inr (True, buffer', dev', opencl')
      \<and> getRGB gray_block [1, 2, 3] (dev', opencl') = Inr (False, [1, 2, 3], dev', opencl'))
   \<and> getRGB_vertex_buffer [0] \<lparr>rgbBuffer = [7], newRGBFrame = True\<rparr>
        = (True, [7], \<lparr>rgbBuffer = [0], newRGBFrame = False\<rparr>)
   \<and> getRGB_vertex_buffer [1, 2, 3] \<lparr>rgbBuffer = [0], newRGBFrame = False\<rparr>
        = (False, [1, 2, 3], \<lparr>rgbBuffer = [0], newRGBFrame = False\<rparr>)"
proof -
  let ?dev = "\<lparr>rgbBuffer = replicate getVideoBufferSize 9, newRGBFrame = True\<rparr>"
  let ?buf = "replicate (gl_win_width * gl_win_height + 1) (0::uint8_t)"
  have "gl_win_width * gl_win_height + 1 \<le> length (gray_block (rgbBuffer ?dev))"
    by (simp add: length_gray_block)
  from getRGB_ok [of reference_filter ?dev gray_block ?buf, OF reference_filter(2) _ this]
  obtain buffer' opencl' where
    g: "getRGB gray_block ?buf (?dev, reference_filter)
        = Inr (True, buffer', ?dev\<lparr>newRGBFrame := False\<rparr>, opencl')"
    by auto
  from getRGB_no_new_frame [of gray_block ?buf ?dev
      reference_filter buffer' "?dev\<lparr>newRGBFrame := False\<rparr>" opencl' "[1, 2, 3]"] g
  have a: "getRGB gray_block [1, 2, 3] (?dev\<lparr>newRGBFrame := False\<rparr>, opencl')
      = Inr (False, [1, 2, 3], ?dev\<lparr>newRGBFrame := False\<rparr>, opencl')"
    by blast
  have b: "getRGB_vertex_buffer [0] \<lparr>rgbBuffer = [7], newRGBFrame = True\<rparr>
        = (True, [7], \<lparr>rgbBuffer = [0], newRGBFrame = False\<rparr>)"
    by (simp add: getRGB_vertex_buffer_def)
  from getRGB_no_new_frame [of gray_block "[0]" "\<lparr>rgbBuffer = [7], newRGBFrame = True\<rparr>"
      reference_filter "[7]" "\<lparr>rgbBuffer = [0], newRGBFrame = False\<rparr>" reference_filter "[1, 2, 3]"] b
  have c: "getRGB_vertex_buffer [1, 2, 3] \<lparr>rgbBuffer = [0], newRGBFrame = False\<rparr>
        = (False, [1, 2, 3], \<lparr>rgbBuffer = [0], newRGBFrame = False\<rparr>)"
    by blast
  from g a b c show ?thesis by blast
qed

section \<open>The texture variant: construction and \<open>convolve\<close>\<close>

lemma upt_5: "[0..<5] = [0, 1, 2, 3, 4]"
  by (simp add: upt_rec)

lemma upt_7: "[0..<7] = [0, 1, 2, 3, 4, 5, 6]"
  by (simp add: upt_rec)

lemma upt_4: "[0..<4] = [0, 1, 2, 3]"
  by (simp add: upt_rec)

lemma upt_3: "[0..<3] = [0, 1, 2]"
  by (simp add: upt_rec)

lemma arity_simps [simp]: "arity ''convolutionGL'' = 7" "arity ''normalizeImg'' = 5"
  "arity ''rgb2rgba'' = 4" "arity ''normalizeRGB'' = 4" "arity ''depthTo3D'' = 3"
  by (simp_all add: arity_def)

lemma Filter_texture_new_ok:
  assumes "good_texture_machine m"
  shows "\<exists>f. Filter_texture_new m = Inr f \<and> texture_ok f \<and> tex_smoothed f"
  using assms
  by (simp add: good_texture_machine_def Filter_texture_new_def new_object_def Image2D_copy_def
      Kernel_new_def setArg_def texture_ok_def Let_def)

lemma convolve_texture_ok:
  assumes "texture_ok f" "gl_win_width * gl_win_height \<le> length imagev"
  shows "\<exists>f'. convolve_texture imagev f = Inr f' \<and> texture_ok f'
      \<and> tex_smoothed f' = tex_smoothed f
      \<and> tex_queue f' = tex_queue f @
          [WriteImage (tex_bufferSourceImage f) (take (gl_win_width * gl_win_height) imagev),
           AcquireGLObjects (tex_bufferOutputImage f),
           NDRangeKernel ''normalizeImg''
             [ArgMem (tex_bufferSourceImage f), ArgMem (tex_bufferInterImage1 f),
              ArgInt (of_nat gl_win_height), ArgInt (of_nat gl_win_width),
              ArgSampler CL_ADDRESS_CLAMP_TO_EDGE] (gl_win_width, gl_win_height)]
          @ (if tex_smoothed f
             then [NDRangeKernel ''convolutionGL''
                     (convGL_args (tex_bufferInterImage1 f) (tex_bufferInterImage1 f)
                        (tex_bufferBoxFilter f)) (gl_win_width, gl_win_height),
                   NDRangeKernel ''convolutionGL''
                     (convGL_args (tex_bufferInterImage1 f) (tex_bufferInterImage1 f)
                        (tex_bufferBoxFilter f)) (gl_win_width, gl_win_height)]
             else [])
          @ [NDRangeKernel ''convolutionGL''
               (convGL_args (tex_bufferInterImage1 f) (tex_bufferOutputImage f ! 0)
                  (tex_bufferLaplacianFilter f)) (gl_win_width, gl_win_height),
             ReleaseGLObjects (tex_bufferOutputImage f), Finish]"
proof -
  from assms(1) obtain out where out: "tex_bufferOutputImage f = [out]"
    by (auto simp: texture_ok_def length_Suc_conv)
  show ?thesis
    using assms out
    by (cases "tex_smoothed f")
      (simp_all add: texture_ok_def convolve_texture_def conv_pass_def setArg_def
        enqueueNDRangeKernel_def upt_5 upt_7 convGL_args_def Let_def)
qed

section \<open>Exact single-precision results, in general\<close>

lemma f32_exponent_le_gen:
  assumes "q \<noteq> 0" "\<bar>q\<bar> \<le> 2 ^ n"
  shows "f32_exponent q \<le> int n"
proof (cases "find (\<lambda>k. 2 powi k \<le> \<bar>q\<bar>) (rev [-126..127])")
  case None
  then show ?thesis by (simp add: f32_exponent_def)
next
  case (Some k)
  then have "(2::rat) powi k \<le> \<bar>q\<bar>"
    by (auto simp: find_Some_iff)
  with assms have "(2::rat) powi k \<le> 2 powi (int n)"
    by simp
  then have "k \<le> int n"
    by (rule power_int_le_imp_le_exp [rotated]) simp_all
  with Some show ?thesis by (simp add: f32_exponent_def)
qed

lemma f32_round_exact_gen:
  assumes m: "2 ^ k * q = of_int m" and b: "\<bar>q\<bar> \<le> 2 ^ n" and kn: "k + n = 23"
  shows "f32_round q = q"
proof (cases "q = 0")
  case True
  then show ?thesis by (simp add: f32_round_def round_even_def)
next
  case False
  define e where "e = f32_exponent q"
  have e: "e \<le> int n" unfolding e_def using False b by (rule f32_exponent_le_gen)
  define j where "j = nat (int n - e)"
  have "e - 23 = - int (j + k)" using e kn by (simp add: j_def)
  then have u: "(2::rat) powi (e - 23) = 1 / (2 ^ (j + k))"
    by (simp only: power_int_minus power_int_of_nat inverse_eq_divide)
  have "q * 2 ^ (j + k) = of_int (m * 2 ^ j)"
    using m by (simp add: power_add algebra_simps)
  then have "round_even (q / (1 / (2 ^ (j + k)))) = m * 2 ^ j"
    by (simp only: divide_divide_eq_right div_by_1 mult_1 round_even_of_int)
  then show ?thesis
    using m by (simp add: f32_round_def Let_def u e_def [symmetric] power_add field_simps)
qed

lemma to_float_exact_gen:
  assumes "2 ^ k * q = of_int m" "\<bar>q\<bar> \<le> 2 ^ n" "k + n = 23"
  shows "to_float q = Finite q"
proof -
  have "f32_round q = q" using assms by (rule f32_round_exact_gen)
  moreover have "(2::rat) ^ n < 2 ^ 128" using assms(3) by (intro power_strict_increasing) simp_all
  then have "q < 2 ^ 128" "- (2 ^ 128) < q"
    using assms(2) by (auto simp: abs_le_iff)
  ultimately show ?thesis by (simp add: to_float_def Let_def)
qed

lemma to_float_of_nat:
  assumes "n \<le> 2 ^ 23"
  shows "to_float (of_nat n) = Finite (of_nat n)"
proof (rule to_float_exact_gen [where k = 0 and m = "int n" and n = 23])
  show "2 ^ 0 * rat_of_nat n = rat_of_int (int n)" by simp
  have "rat_of_nat n \<le> of_nat (2 ^ 23)" using assms by (rule of_nat_mono)
  then show "\<bar>rat_of_nat n\<bar> \<le> 2 ^ 23" by simp
  show "0 + 23 = (23::nat)" by simp
qed

section \<open>The point-cloud variant\<close>

lemma Filter_vertex_new_ok:
  assumes "good_vertex_machine m"
  shows "\<exists>f. Filter_vertex_new m = Inr f \<and> vertex_ok f \<and> \<not> vb_rgb_norm f"
  using assms
  by (simp add: good_vertex_machine_def Filter_vertex_new_def new_object_def
      Kernel_new_def setArg_def vertex_ok_def Let_def)

lemma processFrames_ok:
  assumes "vertex_ok f" "3 * gl_width * gl_height \<le> length rgb" "gl_width * gl_height \<le> length depth"
  shows "\<exists>f'. processFrames rgb depth f = Inr f' \<and> vertex_ok f'
      \<and> vb_rgb_norm f' = vb_rgb_norm f
      \<and> vb_queue f' = vb_queue f @
          [AcquireGLObjects (vb_bufferGLShared f),
           WriteBytes (vb_bufferSourceRGB f) (take (3 * gl_width * gl_height) rgb),
           WriteShorts (vb_bufferSourceDepth f) (take (gl_width * gl_height) depth),
           NDRangeKernel ''rgb2rgba''
             [ArgMem (vb_bufferSourceRGB f),
              ArgMem (if vb_rgb_norm f then vb_bufferInterRGBA f else vb_bufferGLShared f ! 0),
              ArgInt (of_nat gl_height), ArgInt (of_nat gl_width)] (gl_width, gl_height)]
          @ (if vb_rgb_norm f
             then [NDRangeKernel ''normalizeRGB''
                     [ArgMem (vb_bufferInterRGBA f), ArgMem (vb_bufferGLShared f ! 0),
                      ArgInt (of_nat gl_height), ArgInt (of_nat gl_width)] (gl_width, gl_height)]
             else [])
          @ [NDRangeKernel ''depthTo3D''
               [ArgMem (vb_bufferSourceDepth f), ArgMem (vb_bufferGLShared f ! 1),
                ArgFloat (Finite 595)] (gl_width, gl_height),
             ReleaseGLObjects (vb_bufferGLShared f), Finish]"
  using assms
  by (cases "vb_rgb_norm f")
    (simp_all add: vertex_ok_def processFrames_def setArg_def
      enqueueNDRangeKernel_def upt_3 upt_4 Let_def)

lemma to_float_0: "to_float 0 = Finite 0"
  by (rule to_float_exact_gen [where k = 0 and m = 0 and n = 23]) simp_all

lemma normalizeRGB_in_bounds:
  assumes "(of_nat r :: uint) < rows" "(of_nat c :: uint) < cols"
    "unat (of_nat r * cols + of_nat c :: uint) < length inp"
  shows "normalizeRGB inp rows cols (c, r) =
     Inr (Some (unat (of_nat r * cols + of_nat c :: uint),
       Float4
         (fdiv (f4x (inp ! unat (of_nat r * cols + of_nat c :: uint)))
            (fadd (fadd (f4x (inp ! unat (of_nat r * cols + of_nat c :: uint)))
                        (f4y (inp ! unat (of_nat r * cols + of_nat c :: uint))))
                  (f4z (inp ! unat (of_nat r * cols + of_nat c :: uint)))))
         (fdiv (f4y (inp ! unat (of_nat r * cols + of_nat c :: uint)))
            (fadd (fadd (f4x (inp ! unat (of_nat r * cols + of_nat c :: uint)))
                        (f4y (inp ! unat (of_nat r * cols + of_nat c :: uint))))
                  (f4z (inp ! unat (of_nat r * cols + of_nat c :: uint)))))
         (fdiv (f4z (inp ! unat (of_nat r * cols + of_nat c :: uint)))
            (fadd (fadd (f4x (inp ! unat (of_nat r * cols + of_nat c :: uint)))
                        (f4y (inp ! unat (of_nat r * cols + of_nat c :: uint))))
                  (f4z (inp ! unat (of_nat r * cols + of_nat c :: uint)))))
         (Finite 1)))"
  using assms by (simp add: normalizeRGB_def Let_def)

lemma unat_uint_of_nat: "n < 2 ^ 32 \<Longrightarrow> unat (of_nat n :: uint) = n"
  by (simp add: unat_of_nat)

lemma grid_index:
  assumes "gx < gl_width" "gy < gl_height"
  shows "unat (of_nat gy * of_nat gl_width + of_nat gx :: uint) = gy * gl_width + gx"
    "gy * gl_width + gx < gl_width * gl_height"
proof -
  have "gy * gl_width + gx < (gy + 1) * gl_width" using assms(1) by simp
  also have "\<dots> \<le> gl_height * gl_width" using assms(2) by (intro mult_right_mono) simp_all
  finally show lt: "gy * gl_width + gx < gl_width * gl_height" by (simp add: mult.commute)
  then have "gy * gl_width + gx < 2 ^ 32" by (simp add: gl_width_def gl_height_def)
  then have "unat (of_nat (gy * gl_width + gx) :: uint) = gy * gl_width + gx"
    by (rule unat_uint_of_nat)
  then show "unat (of_nat gy * of_nat gl_width + of_nat gx :: uint) = gy * gl_width + gx"
    by simp
qed

lemma uint_to_float_small: "n \<le> 2 ^ 23 \<Longrightarrow> uint_to_float (of_nat n) = Finite (of_nat n)"
proof -
  assume n: "n \<le> 2 ^ 23"
  then have "n < 2 ^ 32" by (rule order_le_less_trans) simp
  then have "unat (of_nat n :: uint) = n" by (rule unat_uint_of_nat)
  then show ?thesis
    using to_float_of_nat [OF n] by (simp add: uint_to_float_def del: of_nat_unat)
qed

lemma ushort_to_float_exact: "ushort_to_float d = Finite (of_nat (unat d))"
proof -
  have "unat d < 2 ^ 16" using unsigned_less [of d, where 'a = nat] by simp
  then have "unat d \<le> 2 ^ 23" by simp
  from to_float_of_nat [OF this] show ?thesis
    by (simp add: ushort_to_float_def del: of_nat_unat)
qed

lemma half_exact:
  assumes "2 * q = of_int m" "\<bar>q\<bar> \<le> 2 ^ 22"
  shows "to_float q = Finite q"
  by (rule to_float_exact_gen [where k = 1 and m = m and n = 22]) (use assms in simp_all)

lemma centre_offset:
  assumes "g < n" "n \<le> 640" "0 < n"
  shows "fsub (uint_to_float (of_nat g)) (fdiv (uint_to_float (of_nat n - 1)) (Finite 2))
           = Finite (of_nat g - (of_nat n - 1) / 2)"
proof -
  have n1: "of_nat n - (1::uint) = of_nat (n - 1)" using assms(3) by (simp add: of_nat_diff)
  have c: "uint_to_float (of_nat n - 1) = Finite (of_nat (n - 1))"
    unfolding n1 using assms(2) by (intro uint_to_float_small) simp
  have g: "uint_to_float (of_nat g) = Finite (of_nat g)"
    using assms(1,2) by (intro uint_to_float_small) simp
  have r: "rat_of_nat (n - 1) = of_nat n - 1" using assms(3) by (simp add: of_nat_diff)
  have "rat_of_nat n \<le> rat_of_nat 640" using assms(2) by (rule of_nat_mono)
  moreover have "rat_of_nat g \<le> rat_of_nat 640" using assms(1,2) by (intro of_nat_mono) simp
  moreover have "0 < rat_of_nat n" using assms(3) by simp
  ultimately have nb: "rat_of_nat n \<le> 640" "rat_of_nat g \<le> 640" "0 < rat_of_nat n" "0 \<le> rat_of_nat g"
    by simp_all
  have h: "to_float ((of_nat n - 1) / 2) = Finite ((of_nat n - 1) / 2)"
    by (rule half_exact [where m = "int n - 1"]) (use nb in \<open>simp_all add: abs_le_iff\<close>)
  have d: "to_float (of_nat g - (of_nat n - 1) / 2) = Finite (of_nat g - (of_nat n - 1) / 2)"
    by (rule half_exact [where m = "2 * int g - (int n - 1)"])
      (use nb in \<open>simp_all add: abs_le_iff field_simps\<close>)
  have "fdiv (Finite (rat_of_nat (n - 1))) (Finite 2) = to_float (rat_of_nat (n - 1) / 2)"
    by simp
  then have c': "fdiv (uint_to_float (of_nat n - 1)) (Finite 2) = Finite ((of_nat n - 1) / 2)"
    by (simp only: c r h)
  have "fadd (Finite (rat_of_nat g)) (Finite (- ((of_nat n - 1) / 2)))
      = to_float (of_nat g - (of_nat n - 1) / 2)"
    by simp
  then show ?thesis
    by (simp only: fsub_def c' g fneg.simps d)
qed

lemma depthTo3D_grid:
  assumes "gx < gl_width" "gy < gl_height" "gl_width * gl_height \<le> length depth"
  shows "depthTo3D depth f (gl_width, gl_height) (gx, gy) =
       Inr (gy * gl_width + gx,
            Float4
              (fdiv (fmul (Finite (of_nat gx - 639 / 2))
                          (Finite (of_nat (unat (depth ! (gy * gl_width + gx)))))) f)
              (fdiv (fmul (Finite (of_nat gy - 479 / 2))
                          (Finite (of_nat (unat (depth ! (gy * gl_width + gx)))))) f)
              (Finite (of_nat (unat (depth ! (gy * gl_width + gx)))))
              (Finite 1))"
proof -
  note i = grid_index [OF assms(1,2)]
  have l: "\<not> length depth \<le> gy * gl_width + gx" using i(2) assms(3) by simp
  have x: "fsub (uint_to_float (of_nat gx)) (fdiv (uint_to_float (of_nat gl_width - 1)) (Finite 2))
      = Finite (of_nat gx - 639 / 2)"
    using centre_offset [of gx gl_width] assms(1) by (simp add: gl_width_def)
  have y: "fsub (uint_to_float (of_nat gy)) (fdiv (uint_to_float (of_nat gl_height - 1)) (Finite 2))
      = Finite (of_nat gy - 479 / 2)"
    using centre_offset [of gy gl_height] assms(2) by (simp add: gl_height_def)
  show ?thesis
    unfolding depthTo3D_def Let_def fst_conv snd_conv i(1) x y ushort_to_float_exact
    using l by (simp del: of_nat_unat)
qed

lemma product_exact:
  assumes a: "\<bar>q\<bar> \<le> 639 / 2" and k: "2 * q = of_int k" and "d \<le> 13000"
  shows "fmul (Finite q) (Finite (of_nat d)) = Finite (q * of_nat d)"
proof -
  have "rat_of_nat d \<le> rat_of_nat 13000" using assms(3) by (rule of_nat_mono)
  then have d: "rat_of_nat d \<le> 13000" "0 \<le> rat_of_nat d" by simp_all
  have "\<bar>q * of_nat d\<bar> = \<bar>q\<bar> * of_nat d"
    using d(2) by (simp add: abs_mult)
  also have "\<dots> \<le> 639 / 2 * 13000"
    using a d by (intro mult_mono) simp_all
  finally have b: "\<bar>q * of_nat d\<bar> \<le> 2 ^ 22" by simp
  have m: "2 * (q * of_nat d) = of_int (k * int d)"
    using k by (simp add: algebra_simps)
  have "to_float (q * of_nat d) = Finite (q * of_nat d)"
    using m b by (rule half_exact)
  then show ?thesis by simp
qed

lemma centre_bound:
  fixes x y :: rat
  assumes "y \<le> 640" "x + 1 \<le> y" "0 \<le> x"
  shows "\<bar>x - (y - 1) / 2\<bar> \<le> 639 / 2"
  using assms by (simp add: abs_le_iff field_simps)

lemma offset_bounds:
  assumes "g < n" "n \<le> 640" "0 < n"
  shows "\<bar>rat_of_nat g - (of_nat n - 1) / 2\<bar> \<le> 639 / 2"
    "2 * (rat_of_nat g - (of_nat n - 1) / 2) = of_int (2 * int g - (int n - 1))"
proof -
  have "rat_of_nat n \<le> rat_of_nat 640" using assms(2) by (rule of_nat_mono)
  moreover have "rat_of_nat (Suc g) \<le> rat_of_nat n" using assms(1) by (intro of_nat_mono) simp
  ultimately have "rat_of_nat n \<le> 640" "rat_of_nat g + 1 \<le> rat_of_nat n" "0 \<le> rat_of_nat g"
    by simp_all
  then show "\<bar>rat_of_nat g - (of_nat n - 1) / 2\<bar> \<le> 639 / 2" by (rule centre_bound)
  show "2 * (rat_of_nat g - (of_nat n - 1) / 2) = of_int (2 * int g - (int n - 1))"
    by (simp add: field_simps)
qed

text \<open>
  C7. On the 640 x 480 range that the host launches, with \<open>f = 595\<close> as the constructor
  binds it, the work-item \<open>(x, y)\<close> of \<open>depthTo3D\<close> stores at index \<open>y * 640 + x\<close> the
  point \<open>(X, Y, Z, 1)\<close> with \<open>X = (x - cx) * d / f\<close>, \<open>Y = (y - cy) * d / f\<close>, \<open>Z = d\<close>
  in single precision, where \<open>d\<close> is the depth at that index, \<open>cx = 639/2\<close> and
  \<open>cy = 479/2\<close>: the index does not wrap, and the conversions, the two centres and the
  two differences are exact. For a depth up to 13000 the product is exact as well, so
  that \<open>X\<close> and \<open>Y\<close> are the exact quotients rounded once. At pixel (319, 239) with
  depth 1000, \<open>X = Y = -14098501 / 2^24\<close>, within 10^-7 of -0.5 * 1000 / 595 = -0.8403...,
  and \<open>Z = 1000\<close>.
\<close>

theorem depthTo3D_pinhole:
  "(gx < gl_width \<and> gy < gl_height \<and> gl_width * gl_height \<le> length depth \<longrightarrow>
      depthTo3D depth (Finite 595) (gl_width, gl_height) (gx, gy) =
        Inr (gy * gl_width + gx,
             Float4
               (fdiv (fmul (Finite (of_nat gx - 639 / 2))
                           (Finite (of_nat (unat (depth ! (gy * gl_width + gx)))))) (Finite 595))
               (fdiv (fmul (Finite (of_nat gy - 479 / 2))
                           (Finite (of_nat (unat (depth ! (gy * gl_width + gx)))))) (Finite 595))
               (Finite (of_nat (unat (depth ! (gy * gl_width + gx)))))
               (Finite 1)))
   \<and> (gx < gl_width \<and> gy < gl_height \<and> gl_width * gl_height \<le> length depth
        \<and> unat (depth ! (gy * gl_width + gx)) \<le> 13000 \<longrightarrow>
      depthTo3D depth (Finite 595) (gl_width, gl_height) (gx, gy) =
        Inr (gy * gl_width + gx,
             Float4
               (to_float ((of_nat gx - 639 / 2) * of_nat (unat (depth ! (gy * gl_width + gx))) / 595))
               (to_float ((of_nat gy - 479 / 2) * of_nat (unat (depth ! (gy * gl_width + gx))) / 595))
               (Finite (of_nat (unat (depth ! (gy * gl_width + gx)))))
               (Finite 1)))
   \<and> (gl_width * gl_height \<le> length depth \<and> depth ! (239 * gl_width + 319) = 1000 \<longrightarrow>
      depthTo3D depth (Finite 595) (gl_width, gl_height) (319, 239) =
        Inr (239 * gl_width + 319,
             Float4 (Finite (- (14098501 / 16777216))) (Finite (- (14098501 / 16777216)))
                    (Finite 1000) (Finite 1)))
   \<and> \<bar>- (14098501 / 16777216) - (319 - 639 / 2) * 1000 / (595::rat)\<bar> < 1 / 10 ^ 7
   \<and> (good_vertex_machine m \<longrightarrow>
        (\<exists>f. Filter_vertex_new m = Inr f
           \<and> kernel_args (vb_kernelDepthTo3D f) 2 = Some (ArgFloat (Finite 595))
           \<and> vb_global f = (gl_width, gl_height)))"
proof -
  have r: "to_float (- 500 / 595) = Finite (- (14098501 / 16777216))"
    by code_simp
  have A: "depthTo3D depth (Finite 595) (gl_width, gl_height) (gx, gy) =
        Inr (gy * gl_width + gx,
             Float4
               (fdiv (fmul (Finite (of_nat gx - 639 / 2))
                           (Finite (of_nat (unat (depth ! (gy * gl_width + gx)))))) (Finite 595))
               (fdiv (fmul (Finite (of_nat gy - 479 / 2))
                           (Finite (of_nat (unat (depth ! (gy * gl_width + gx)))))) (Finite 595))
               (Finite (of_nat (unat (depth ! (gy * gl_width + gx)))))
               (Finite 1))"
    if "gx < gl_width" "gy < gl_height" "gl_width * gl_height \<le> length depth" for gx gy depth
    using that by (rule depthTo3D_grid)
  have B: "depthTo3D depth (Finite 595) (gl_width, gl_height) (gx, gy) =
        Inr (gy * gl_width + gx,
             Float4
               (to_float ((of_nat gx - 639 / 2) * of_nat (unat (depth ! (gy * gl_width + gx))) / 595))
               (to_float ((of_nat gy - 479 / 2) * of_nat (unat (depth ! (gy * gl_width + gx))) / 595))
               (Finite (of_nat (unat (depth ! (gy * gl_width + gx)))))
               (Finite 1))"
    if h: "gx < gl_width" "gy < gl_height" "gl_width * gl_height \<le> length depth"
      "unat (depth ! (gy * gl_width + gx)) \<le> 13000" for gx gy depth
  proof -
    define d where "d = unat (depth ! (gy * gl_width + gx))"
    have ox: "\<bar>rat_of_nat gx - 639 / 2\<bar> \<le> 639 / 2"
        "2 * (rat_of_nat gx - 639 / 2) = of_int (2 * int gx - 639)"
      using offset_bounds [of gx gl_width] h(1) by (simp_all add: gl_width_def)
    have oy: "\<bar>rat_of_nat gy - 479 / 2\<bar> \<le> 639 / 2"
        "2 * (rat_of_nat gy - 479 / 2) = of_int (2 * int gy - 479)"
      using offset_bounds [of gy gl_height] h(2) by (simp_all add: gl_height_def)
    have px: "fmul (Finite (of_nat gx - 639 / 2)) (Finite (of_nat d))
        = Finite ((of_nat gx - 639 / 2) * of_nat d)"
      by (rule product_exact [OF ox h(4) [folded d_def]])
    have py: "fmul (Finite (of_nat gy - 479 / 2)) (Finite (of_nat d))
        = Finite ((of_nat gy - 479 / 2) * of_nat d)"
      by (rule product_exact [OF oy h(4) [folded d_def]])
    show ?thesis
      unfolding A [OF h(1,2,3)] d_def [symmetric] px py
      by simp
  qed
  have C: "depthTo3D depth (Finite 595) (gl_width, gl_height) (319, 239) =
        Inr (239 * gl_width + 319,
             Float4 (Finite (- (14098501 / 16777216))) (Finite (- (14098501 / 16777216)))
                    (Finite 1000) (Finite 1))"
    if h: "gl_width * gl_height \<le> length depth" "depth ! (239 * gl_width + 319) = 1000" for depth
  proof -
    have "319 < gl_width" "239 < gl_height" by (simp_all add: gl_width_def gl_height_def)
    moreover have "unat (depth ! (239 * gl_width + 319)) \<le> 13000" using h(2) by simp
    ultimately show ?thesis
      using B [of 319 239 depth] h r by simp
  qed
  have D: "\<bar>- (14098501 / 16777216) - (319 - 639 / 2) * 1000 / (595::rat)\<bar> < 1 / 10 ^ 7"
    by simp
  have E: "\<exists>f. Filter_vertex_new m = Inr f
           \<and> kernel_args (vb_kernelDepthTo3D f) 2 = Some (ArgFloat (Finite 595))
           \<and> vb_global f = (gl_width, gl_height)" if "good_vertex_machine m"
    using Filter_vertex_new_ok [OF that] by (auto simp: vertex_ok_def)
  show ?thesis
    using A B C D E by blast
qed

lemma good_reference:
  "good_machine reference_machine" "good_texture_machine reference_machine"
  "good_vertex_machine reference_machine"
  by (simp_all add: good_machine_def good_texture_machine_def good_vertex_machine_def
      reference_machine_def)

theorem depthTo3D_pinhole_witness:
  "319 < gl_width \<and> 239 < gl_height
   \<and> depthTo3D (replicate (gl_width * gl_height) 1000) (Finite 595) (gl_width, gl_height) (319, 239) =
        Inr (239 * gl_width + 319,
             Float4 (Finite (- (14098501 / 16777216))) (Finite (- (14098501 / 16777216)))
                    (Finite 1000) (Finite 1))
   \<and> depthTo3D (replicate (gl_width * gl_height) 1000) (Finite 595) (gl_width, gl_height) (0, 0) =
        Inr (0, Float4 (to_float (- (639 / 2) * 1000 / 595)) (to_float (- (479 / 2) * 1000 / 595))
                  (Finite 1000) (Finite 1))
   \<and> (\<exists>f. Filter_vertex_new reference_machine = Inr f
           \<and> kernel_args (vb_kernelDepthTo3D f) 2 = Some (ArgFloat (Finite 595))
           \<and> vb_global f = (gl_width, gl_height))"
proof -
  let ?depth = "replicate (gl_width * gl_height) (1000 :: uint16_t)"
  have g: "319 < gl_width" "239 < gl_height" "0 < gl_width" "0 < gl_height"
    by (simp_all add: gl_width_def gl_height_def)
  have i: "239 * gl_width + 319 < gl_width * gl_height" "0 < gl_width * gl_height"
    by (simp_all add: gl_width_def gl_height_def)
  have l: "gl_width * gl_height \<le> length ?depth" by simp
  have n: "?depth ! (239 * gl_width + 319) = 1000" "?depth ! (0 * gl_width + 0) = 1000"
    using i by simp_all
  have u: "unat (?depth ! (0 * gl_width + 0)) \<le> 13000"
    unfolding n by simp
  note t = depthTo3D_pinhole [of 0 0 ?depth reference_machine]
  from t g l n(1) have a: "depthTo3D ?depth (Finite 595) (gl_width, gl_height) (319, 239) =
        Inr (239 * gl_width + 319,
             Float4 (Finite (- (14098501 / 16777216))) (Finite (- (14098501 / 16777216)))
                    (Finite 1000) (Finite 1))"
    by blast
  from t g l u have "depthTo3D ?depth (Finite 595) (gl_width, gl_height) (0, 0) =
        Inr (0 * gl_width + 0,
             Float4
               (to_float ((of_nat 0 - 639 / 2) * of_nat (unat (?depth ! (0 * gl_width + 0))) / 595))
               (to_float ((of_nat 0 - 479 / 2) * of_nat (unat (?depth ! (0 * gl_width + 0))) / 595))
               (Finite (of_nat (unat (?depth ! (0 * gl_width + 0)))))
               (Finite 1))"
    by blast
  then have b: "depthTo3D ?depth (Finite 595) (gl_width, gl_height) (0, 0) =
        Inr (0, Float4 (to_float (- (639 / 2) * 1000 / 595)) (to_float (- (479 / 2) * 1000 / 595))
                  (Finite 1000) (Finite 1))"
    unfolding n by simp
  from t good_reference(3) have c: "\<exists>f. Filter_vertex_new reference_machine = Inr f
           \<and> kernel_args (vb_kernelDepthTo3D f) 2 = Some (ArgFloat (Finite 595))
           \<and> vb_global f = (gl_width, gl_height)"
    by blast
  from g a b c show ?thesis by blast
qed

text \<open>
  C10. Every in-bounds work-item of \<open>normalizeRGB\<close> stores the input pixel with its
  first three components divided by \<open>s = (x + y) + z\<close> and the fourth set to 1; there is
  no case for \<open>s = 0\<close>. For a black pixel the three quotients are 0/0 = NaN, which is
  not finite; for finite components whose sum is finite and not 0 they are the rounded
  quotients. \<open>processFrames\<close> launches the kernel over 640 x 480, from
  \<open>bufferInterRGBA\<close> to the first shared buffer, exactly when \<open>rgb_norm\<close> is set.
\<close>

theorem normalizeRGB_unguarded:
  "((of_nat r :: uint) < rows \<and> (of_nat c :: uint) < cols
      \<and> unat (of_nat r * cols + of_nat c :: uint) < length inp \<longrightarrow>
     normalizeRGB inp rows cols (c, r) =
       Inr (Some (unat (of_nat r * cols + of_nat c :: uint),
                  normalized (inp ! unat (of_nat r * cols + of_nat c :: uint)))))
   \<and> normalized (Float4 (Finite 0) (Finite 0) (Finite 0) a) = Float4 NaN NaN NaN (Finite 1)
   \<and> \<not> is_finite NaN
   \<and> (channel_sum (Float4 (Finite x) (Finite y) (Finite z) a) = Finite t \<and> t \<noteq> 0 \<longrightarrow>
        normalized (Float4 (Finite x) (Finite y) (Finite z) a) =
          Float4 (to_float (x / t)) (to_float (y / t)) (to_float (z / t)) (Finite 1))
   \<and> (vertex_ok f \<and> 3 * gl_width * gl_height \<le> length rgb \<and> gl_width * gl_height \<le> length depth \<longrightarrow>
        (\<exists>f'. processFrames rgb depth f = Inr f'
           \<and> (NDRangeKernel ''normalizeRGB''
                 [ArgMem (vb_bufferInterRGBA f), ArgMem (vb_bufferGLShared f ! 0),
                  ArgInt (of_nat gl_height), ArgInt (of_nat gl_width)] (gl_width, gl_height)
               \<in> set (drop (length (vb_queue f)) (vb_queue f'))) = vb_rgb_norm f))"
proof -
  have A: "normalizeRGB inp rows cols (c, r) =
       Inr (Some (unat (of_nat r * cols + of_nat c :: uint),
                  normalized (inp ! unat (of_nat r * cols + of_nat c :: uint))))"
    if "(of_nat r :: uint) < rows" "(of_nat c :: uint) < cols"
      "unat (of_nat r * cols + of_nat c :: uint) < length inp"
    using normalizeRGB_in_bounds [OF that] by (simp add: normalized_def channel_sum_def)
  have B: "normalized (Float4 (Finite 0) (Finite 0) (Finite 0) a) = Float4 NaN NaN NaN (Finite 1)"
    by (simp add: normalized_def channel_sum_def to_float_0)
  have C: "\<not> is_finite NaN" by (simp add: is_finite_def)
  have D: "normalized (Float4 (Finite x) (Finite y) (Finite z) a) =
          Float4 (to_float (x / t)) (to_float (y / t)) (to_float (z / t)) (Finite 1)"
    if "channel_sum (Float4 (Finite x) (Finite y) (Finite z) a) = Finite t" "t \<noteq> 0"
    using that by (simp add: normalized_def)
  have E: "\<exists>f'. processFrames rgb depth f = Inr f'
           \<and> (NDRangeKernel ''normalizeRGB''
                 [ArgMem (vb_bufferInterRGBA f), ArgMem (vb_bufferGLShared f ! 0),
                  ArgInt (of_nat gl_height), ArgInt (of_nat gl_width)] (gl_width, gl_height)
               \<in> set (drop (length (vb_queue f)) (vb_queue f'))) = vb_rgb_norm f"
    if "vertex_ok f" "3 * gl_width * gl_height \<le> length rgb" "gl_width * gl_height \<le> length depth"
    using processFrames_ok [OF that] by auto
  show ?thesis
    using A B C D E by blast
qed

theorem normalizeRGB_unguarded_witness:
  "normalizeRGB [Float4 (Finite (1/2)) (Finite (1/4)) (Finite (1/4)) (Finite 1),
                 Float4 (Finite 0) (Finite 0) (Finite 0) (Finite 1)] 1 2 (0, 0)
     = Inr (Some (0, Float4 (Finite (1/2)) (Finite (1/4)) (Finite (1/4)) (Finite 1)))
   \<and> normalizeRGB [Float4 (Finite (1/2)) (Finite (1/4)) (Finite (1/4)) (Finite 1),
                   Float4 (Finite 0) (Finite 0) (Finite 0) (Finite 1)] 1 2 (1, 0)
     = Inr (Some (1, Float4 NaN NaN NaN (Finite 1)))
   \<and> (\<exists>f f'. Filter_vertex_new reference_machine = Inr f
         \<and> processFrames (replicate (3 * gl_width * gl_height) 0) (replicate (gl_width * gl_height) 0)
              (snd (toggleRGBNormalization f)) = Inr f'
         \<and> NDRangeKernel ''normalizeRGB''
              [ArgMem (vb_bufferInterRGBA f), ArgMem (vb_bufferGLShared f ! 0),
               ArgInt (of_nat gl_height), ArgInt (of_nat gl_width)] (gl_width, gl_height)
            \<in> set (vb_queue f'))"
proof -
  let ?inp = "[Float4 (Finite (1/2)) (Finite (1/4)) (Finite (1/4)) (Finite 1),
               Float4 (Finite 0) (Finite 0) (Finite 0) (Finite 1)]"
  have e: "to_float (1/4) = Finite (1/4)" "to_float (1/2) = Finite (1/2)" "to_float 1 = Finite 1"
    "to_float (3/4) = Finite (3/4)"
    by (rule to_float_exact_gen [where k = 3 and n = 20 and m = 2], simp, simp, simp)
      (rule to_float_exact_gen [where k = 3 and n = 20 and m = 4], simp, simp, simp,
       rule to_float_exact_gen [where k = 3 and n = 20 and m = 8], simp, simp, simp,
       rule to_float_exact_gen [where k = 3 and n = 20 and m = 6], simp, simp, simp)
  have s: "channel_sum (Float4 (Finite (1/2)) (Finite (1/4)) (Finite (1/4)) (Finite 1)) = Finite 1"
    by (simp add: channel_sum_def e)
  note t = normalizeRGB_unguarded [where inp = ?inp and rows = 1 and cols = 2 and r = 0
      and a = "Finite 1" and x = "1/2" and y = "1/4" and z = "1/4" and t = 1]
  have a: "normalizeRGB ?inp 1 2 (0, 0)
     = Inr (Some (0, Float4 (Finite (1/2)) (Finite (1/4)) (Finite (1/4)) (Finite 1)))"
    using t [where c = 0] s by (simp add: e)
  have b: "normalizeRGB ?inp 1 2 (1, 0) = Inr (Some (1, Float4 NaN NaN NaN (Finite 1)))"
    using t [where c = 1] by simp
  from Filter_vertex_new_ok [OF good_reference(3)] obtain f where
    f: "Filter_vertex_new reference_machine = Inr f" "vertex_ok f" "\<not> vb_rgb_norm f"
    by blast
  let ?f = "snd (toggleRGBNormalization f)"
  have f2: "vertex_ok ?f" "vb_rgb_norm ?f" "vb_queue ?f = vb_queue f"
    "vb_bufferInterRGBA ?f = vb_bufferInterRGBA f" "vb_bufferGLShared ?f = vb_bufferGLShared f"
    using f(2,3) by (simp_all add: toggleRGBNormalization_def vertex_ok_def)
  have l: "3 * gl_width * gl_height \<le> length (replicate (3 * gl_width * gl_height) (0::uint8_t))"
    "gl_width * gl_height \<le> length (replicate (gl_width * gl_height) (0::uint16_t))"
    by simp_all
  note E = normalizeRGB_unguarded [where f = ?f and rgb = "replicate (3 * gl_width * gl_height) 0"
      and depth = "replicate (gl_width * gl_height) 0",
      THEN conjunct2, THEN conjunct2, THEN conjunct2, THEN conjunct2, rule_format]
  from E [OF conjI [OF f2(1) conjI [OF l(1) l(2)]]] f2(2,3,4,5)
  obtain f' where
    "processFrames (replicate (3 * gl_width * gl_height) 0) (replicate (gl_width * gl_height) 0) ?f
       = Inr f'"
    "NDRangeKernel ''normalizeRGB''
       [ArgMem (vb_bufferInterRGBA f), ArgMem (vb_bufferGLShared f ! 0),
        ArgInt (of_nat gl_height), ArgInt (of_nat gl_width)] (gl_width, gl_height)
     \<in> set (drop (length (vb_queue f)) (vb_queue f'))"
    by auto
  then have c: "\<exists>f f'. Filter_vertex_new reference_machine = Inr f
         \<and> processFrames (replicate (3 * gl_width * gl_height) 0) (replicate (gl_width * gl_height) 0)
              (snd (toggleRGBNormalization f)) = Inr f'
         \<and> NDRangeKernel ''normalizeRGB''
              [ArgMem (vb_bufferInterRGBA f), ArgMem (vb_bufferGLShared f ! 0),
               ArgInt (of_nat gl_height), ArgInt (of_nat gl_width)] (gl_width, gl_height)
            \<in> set (vb_queue f')"
    using f(1) by (meson in_set_dropD)
  from a b c show ?thesis by blast
qed

text \<open>
  C9. In kinectFilter\_gl\_interop\_texture.cpp the constructor makes
  \<open>bufferInterImage2\<close> a copy of the wrapper \<open>bufferInterImage1\<close>: the two hold the
  same \<open>cl_mem\<close>. This stays so (nothing assigns to either afterwards), and whenever
  smoothing is on, \<open>convolve\<close> submits two box passes whose source and output arguments
  are that one image, followed by the Laplacian pass from it to the shared texture.
\<close>

theorem texture_box_passes_in_place:
  "(good_texture_machine m \<longrightarrow>
      (\<exists>f. Filter_texture_new m = Inr f \<and> texture_ok f \<and> tex_smoothed f
         \<and> tex_bufferInterImage2 f = Image2D_copy (tex_bufferInterImage1 f)
         \<and> tex_bufferInterImage2 f = tex_bufferInterImage1 f))
   \<and> (texture_ok f \<longrightarrow> texture_ok (snd (toggleSmoothing_texture f)))
   \<and> (texture_ok f \<and> tex_smoothed f \<and> gl_win_width * gl_win_height \<le> length imagev \<longrightarrow>
      (\<exists>f'. convolve_texture imagev f = Inr f' \<and> texture_ok f'
         \<and> tex_bufferInterImage2 f = tex_bufferInterImage1 f
         \<and> tex_queue f' = tex_queue f @
              [WriteImage (tex_bufferSourceImage f) (take (gl_win_width * gl_win_height) imagev),
               AcquireGLObjects (tex_bufferOutputImage f),
               NDRangeKernel ''normalizeImg''
                 [ArgMem (tex_bufferSourceImage f), ArgMem (tex_bufferInterImage1 f),
                  ArgInt (of_nat gl_win_height), ArgInt (of_nat gl_win_width),
                  ArgSampler CL_ADDRESS_CLAMP_TO_EDGE] (gl_win_width, gl_win_height),
               NDRangeKernel ''convolutionGL''
                 (convGL_args (tex_bufferInterImage1 f) (tex_bufferInterImage1 f)
                    (tex_bufferBoxFilter f)) (gl_win_width, gl_win_height),
               NDRangeKernel ''convolutionGL''
                 (convGL_args (tex_bufferInterImage1 f) (tex_bufferInterImage1 f)
                    (tex_bufferBoxFilter f)) (gl_win_width, gl_win_height),
               NDRangeKernel ''convolutionGL''
                 (convGL_args (tex_bufferInterImage1 f) (tex_bufferOutputImage f ! 0)
                    (tex_bufferLaplacianFilter f)) (gl_win_width, gl_win_height),
               ReleaseGLObjects (tex_bufferOutputImage f), Finish]))"
proof -
  have A: "\<exists>f. Filter_texture_new m = Inr f \<and> texture_ok f \<and> tex_smoothed f
         \<and> tex_bufferInterImage2 f = Image2D_copy (tex_bufferInterImage1 f)
         \<and> tex_bufferInterImage2 f = tex_bufferInterImage1 f"
    if "good_texture_machine m"
    using Filter_texture_new_ok [OF that] by (auto simp: texture_ok_def Image2D_copy_def)
  have B: "texture_ok (snd (toggleSmoothing_texture f))" if "texture_ok f"
    using that by (simp add: texture_ok_def toggleSmoothing_texture_def)
  have C: "\<exists>f'. convolve_texture imagev f = Inr f' \<and> texture_ok f'
         \<and> tex_bufferInterImage2 f = tex_bufferInterImage1 f
         \<and> tex_queue f' = tex_queue f @
              [WriteImage (tex_bufferSourceImage f) (take (gl_win_width * gl_win_height) imagev),
               AcquireGLObjects (tex_bufferOutputImage f),
               NDRangeKernel ''normalizeImg''
                 [ArgMem (tex_bufferSourceImage f), ArgMem (tex_bufferInterImage1 f),
                  ArgInt (of_nat gl_win_height), ArgInt (of_nat gl_win_width),
                  ArgSampler CL_ADDRESS_CLAMP_TO_EDGE] (gl_win_width, gl_win_height),
               NDRangeKernel ''convolutionGL''
                 (convGL_args (tex_bufferInterImage1 f) (tex_bufferInterImage1 f)
                    (tex_bufferBoxFilter f)) (gl_win_width, gl_win_height),
               NDRangeKernel ''convolutionGL''
                 (convGL_args (tex_bufferInterImage1 f) (tex_bufferInterImage1 f)
                    (tex_bufferBoxFilter f)) (gl_win_width, gl_win_height),
               NDRangeKernel ''convolutionGL''
                 (convGL_args (tex_bufferInterImage1 f) (tex_bufferOutputImage f ! 0)
                    (tex_bufferLaplacianFilter f)) (gl_win_width, gl_win_height),
               ReleaseGLObjects (tex_bufferOutputImage f), Finish]"
    if "texture_ok f" "tex_smoothed f" "gl_win_width * gl_win_height \<le> length imagev"
    using convolve_texture_ok [OF that(1,3)] that(1,2) by (auto simp: texture_ok_def)
  show ?thesis
    using A B C by blast
qed

theorem texture_box_passes_in_place_witness:
  "\<exists>f f'. Filter_texture_new reference_machine = Inr f
      \<and> tex_bufferInterImage2 f = tex_bufferInterImage1 f
      \<and> convolve_texture (replicate (gl_win_width * gl_win_height) 0) f = Inr f'
      \<and> tex_queue f' ! 5 =
           NDRangeKernel ''convolutionGL''
             (convGL_args (tex_bufferInterImage1 f) (tex_bufferInterImage1 f)
                (tex_bufferBoxFilter f)) (gl_win_width, gl_win_height)
      \<and> tex_queue f' ! 6 =
           NDRangeKernel ''convolutionGL''
             (convGL_args (tex_bufferInterImage1 f) (tex_bufferInterImage1 f)
                (tex_bufferBoxFilter f)) (gl_win_width, gl_win_height)"
proof -
  note t = texture_box_passes_in_place [where m = reference_machine]
  from t [THEN conjunct1, rule_format, OF good_reference(2)] obtain f where
    f: "Filter_texture_new reference_machine = Inr f" "texture_ok f" "tex_smoothed f"
      "tex_bufferInterImage2 f = tex_bufferInterImage1 f"
    by blast
  have q: "length (tex_queue f) = 2"
    using f(1) good_reference(2)
    by (auto simp: good_texture_machine_def Filter_texture_new_def new_object_def Image2D_copy_def
        Kernel_new_def setArg_def Let_def)
  have l: "gl_win_width * gl_win_height \<le> length (replicate (gl_win_width * gl_win_height) (0::uint8_t))"
    by simp
  from t [where f = f and imagev = "replicate (gl_win_width * gl_win_height) 0",
      THEN conjunct2, THEN conjunct2, rule_format, OF conjI [OF f(2) conjI [OF f(3) l]]]
  obtain f' where
    c: "convolve_texture (replicate (gl_win_width * gl_win_height) 0) f = Inr f'"
    and s: "tex_queue f' = tex_queue f @
              [WriteImage (tex_bufferSourceImage f)
                 (take (gl_win_width * gl_win_height) (replicate (gl_win_width * gl_win_height) 0)),
               AcquireGLObjects (tex_bufferOutputImage f),
               NDRangeKernel ''normalizeImg''
                 [ArgMem (tex_bufferSourceImage f), ArgMem (tex_bufferInterImage1 f),
                  ArgInt (of_nat gl_win_height), ArgInt (of_nat gl_win_width),
                  ArgSampler CL_ADDRESS_CLAMP_TO_EDGE] (gl_win_width, gl_win_height),
               NDRangeKernel ''convolutionGL''
                 (convGL_args (tex_bufferInterImage1 f) (tex_bufferInterImage1 f)
                    (tex_bufferBoxFilter f)) (gl_win_width, gl_win_height),
               NDRangeKernel ''convolutionGL''
                 (convGL_args (tex_bufferInterImage1 f) (tex_bufferInterImage1 f)
                    (tex_bufferBoxFilter f)) (gl_win_width, gl_win_height),
               NDRangeKernel ''convolutionGL''
                 (convGL_args (tex_bufferInterImage1 f) (tex_bufferOutputImage f ! 0)
                    (tex_bufferLaplacianFilter f)) (gl_win_width, gl_win_height),
               ReleaseGLObjects (tex_bufferOutputImage f), Finish]"
    by blast
  have "tex_queue f' ! 5 =
           NDRangeKernel ''convolutionGL''
             (convGL_args (tex_bufferInterImage1 f) (tex_bufferInterImage1 f)
                (tex_bufferBoxFilter f)) (gl_win_width, gl_win_height)"
    "tex_queue f' ! 6 =
           NDRangeKernel ''convolutionGL''
             (convGL_args (tex_bufferInterImage1 f) (tex_bufferInterImage1 f)
                (tex_bufferBoxFilter f)) (gl_win_width, gl_win_height)"
    unfolding s using q by (simp_all add: nth_append)
  with f(1,4) c show ?thesis by blast
qed

section \<open>Frames that are constant along their columns\<close>

lemma sint_offset:
  assumes "c < 2 ^ 20" "\<bar>j\<bar> \<le> 1"
  shows "sint (of_nat c + word_of_int j :: uint) = int c + j"
proof -
  have "(of_nat c + word_of_int j :: uint) = word_of_int (int c + j)" by simp
  moreover have "sint (word_of_int (int c + j) :: uint) = int c + j"
  proof -
    have "int c < 1048576" using assms(1) by simp
    then have "- 2147483648 \<le> int c + j \<and> int c + j < 2147483648" using assms(2) by linarith
    then show ?thesis by (simp only: sint_sbintrunc') (simp add: signed_take_bit_int_eq_self)
  qed
  ultimately show ?thesis by (simp only:)
qed

lemma read_columns:
  "read_imageui \<lparr>width = gl_win_width, height = gl_win_height, texels = columns g\<rparr>
     CL_ADDRESS_CLAMP_TO_EDGE (x, y)
   = ucast (g (nat (clamp_to_edge x gl_win_width)))"
proof -
  define x' where "x' = nat (clamp_to_edge x gl_win_width)"
  define y' where "y' = nat (clamp_to_edge y gl_win_height)"
  have x: "x' < gl_win_width" "clamp_to_edge x gl_win_width = int x'"
    by (simp_all add: x'_def clamp_to_edge_def gl_win_width_def)
  have y: "y' < gl_win_height" "clamp_to_edge y gl_win_height = int y'"
    by (simp_all add: y'_def clamp_to_edge_def gl_win_height_def)
  have "y' * gl_win_width + x' < gl_win_width * (y' + 1)" using x by (simp add: algebra_simps)
  also have "\<dots> \<le> gl_win_width * gl_win_height" using y by (intro mult_le_mono2) simp
  finally have lt: "y' * gl_win_width + x' < gl_win_width * gl_win_height" .
  have "columns g ! (y' * gl_win_width + x') = g x'"
    using lt x by (simp add: columns_def)
  then show ?thesis
    using lt x y by (simp add: read_imageui_def texel_def columns_def flip: x'_def)
qed

lemma tap_columns:
  assumes "c < gl_win_width" "\<bar>j\<bar> \<le> 1"
  shows "tap \<lparr>width = gl_win_width, height = gl_win_height, texels = columns g\<rparr>
           CL_ADDRESS_CLAMP_TO_EDGE (of_nat c) y j = at_column g (int c + j)"
proof -
  have "c < 2 ^ 20" using assms(1) by (simp add: gl_win_width_def)
  from sint_offset [OF this assms(2)] show ?thesis
    by (simp only: tap_def read_columns unat_ucast8 at_column_def)
qed

lemma conv3_columns:
  assumes "length ws = 9" "c < gl_win_width"
  shows "conv3 \<lparr>width = gl_win_width, height = gl_win_height, texels = columns g\<rparr>
           CL_ADDRESS_CLAMP_TO_EDGE ws (of_nat c) row
         = (ws ! 0 + ws ! 3 + ws ! 6) * at_column g (int c - 1)
           + (ws ! 1 + ws ! 4 + ws ! 7) * at_column g (int c)
           + (ws ! 2 + ws ! 5 + ws ! 8) * at_column g (int c + 1)"
proof -
  from assms(1) obtain a b c' d e f' g' h i where ws: "ws = [a, b, c', d, e, f', g', h, i]"
    by (auto simp: length_Suc_conv eval_nat_numeral)
  have t: "tap \<lparr>width = gl_win_width, height = gl_win_height, texels = columns g\<rparr>
             CL_ADDRESS_CLAMP_TO_EDGE (of_nat c) y (- 1) = at_column g (int c - 1)"
          "tap \<lparr>width = gl_win_width, height = gl_win_height, texels = columns g\<rparr>
             CL_ADDRESS_CLAMP_TO_EDGE (of_nat c) y 0 = at_column g (int c)"
          "tap \<lparr>width = gl_win_width, height = gl_win_height, texels = columns g\<rparr>
             CL_ADDRESS_CLAMP_TO_EDGE (of_nat c) y 1 = at_column g (int c + 1)" for y
    using tap_columns [OF assms(2), of "- 1" g y] tap_columns [OF assms(2), of 0 g y]
      tap_columns [OF assms(2), of 1 g y] by simp_all
  show ?thesis
    unfolding ws by (simp add: conv3_def row_sum_def t algebra_simps)
qed

lemma filtered_columns:
  assumes "small_weights ws" "length ws = 9"
  shows "filtered oor (map Finite ws) (columns g) = columns (column_response oor ws g)"
proof -
  have "conv_sum \<lparr>width = gl_win_width, height = gl_win_height, texels = columns g\<rparr>
          CL_ADDRESS_CLAMP_TO_EDGE (map Finite ws) filterWidth
          (of_nat (p mod gl_win_width)) (of_nat (p div gl_win_width))
        = Finite ((ws ! 0 + ws ! 3 + ws ! 6) * at_column g (int (p mod gl_win_width) - 1)
           + (ws ! 1 + ws ! 4 + ws ! 7) * at_column g (int (p mod gl_win_width))
           + (ws ! 2 + ws ! 5 + ws ! 8) * at_column g (int (p mod gl_win_width) + 1))" for p
  proof -
    have "p mod gl_win_width < gl_win_width" by (simp add: gl_win_width_def)
    from conv3_columns [OF assms(2) this] conv_sum_3 [OF assms] show ?thesis
      by (simp only: filterWidth_def)
  qed
  then show ?thesis
    unfolding filtered_def column_response_def
    by (subst (2) columns_def) (simp only:)
qed

lemma at_column_profile:
  assumes "0 < k" "k < gl_win_width" "c < gl_win_width"
  shows "at_column (profile k a b) (int c - 1) = of_nat (unat (if c \<le> k then a else b))"
    and "at_column (profile k a b) (int c) = of_nat (unat (if c < k then a else b))"
    and "at_column (profile k a b) (int c + 1) = of_nat (unat (if c + 1 < k then a else b))"
  using assms by (auto simp: at_column_def profile_def clamp_to_edge_def gl_win_width_def)

lemma small_box: "small_weights [1/8, 1/8, 1/8, 1/8, 1/8, 1/8, 1/8, 1/8, 1/8]"
  by (simp add: small_weights_def eighth_def)

lemma floors:
  "\<lfloor>45 / 4 :: rat\<rfloor> = 11" "\<lfloor>93 / 8 :: rat\<rfloor> = 11" "\<lfloor>99 / 8 :: rat\<rfloor> = 12"
  "\<lfloor>51 / 4 :: rat\<rfloor> = 12" "\<lfloor>105 / 8 :: rat\<rfloor> = 13" "\<lfloor>27 / 2 :: rat\<rfloor> = 13"
  "\<lfloor>3 / 8 :: rat\<rfloor> = 0" "\<lfloor>3 / 4 :: rat\<rfloor> = 0" "\<lfloor>9 / 8 :: rat\<rfloor> = 1"
  by (simp_all add: floor_eq_iff)

lemma box_map: "box_filter = map Finite [1/8, 1/8, 1/8, 1/8, 1/8, 1/8, 1/8, 1/8, 1/8]"
  by (simp add: box_filter_def)

lemma columns_cong:
  assumes "\<And>c. c < gl_win_width \<Longrightarrow> g c = h c"
  shows "columns g = columns h"
  unfolding columns_def by (rule map_cong [OF refl]) (simp add: assms gl_win_width_def)

lemma response_profile:
  assumes "0 < k" "k < gl_win_width" "c < gl_win_width"
  shows "column_response oor [w0, w1, w2, w3, w4, w5, w6, w7, w8] (profile k a b) c
         = convert_uchar_sat (float_to_uint oor (Finite
             ((w0 + w3 + w6) * of_nat (unat (if c \<le> k then a else b))
              + (w1 + w4 + w7) * of_nat (unat (if c < k then a else b))
              + (w2 + w5 + w8) * of_nat (unat (if c + 1 < k then a else b)))))"
  by (simp only: column_response_def at_column_profile [OF assms]) simp

lemma response_step:
  assumes "0 < k" "k < gl_win_width" "c < gl_win_width"
  shows "column_response oor [w0, w1, w2, w3, w4, w5, w6, w7, w8] (profile k a b) c
         = convert_uchar_sat (float_to_uint oor (Finite
             (if c + 1 < k
              then (w0 + w3 + w6 + (w1 + w4 + w7) + (w2 + w5 + w8)) * of_nat (unat a)
              else if c < k
              then (w0 + w3 + w6 + (w1 + w4 + w7)) * of_nat (unat a) + (w2 + w5 + w8) * of_nat (unat b)
              else if c = k
              then (w0 + w3 + w6) * of_nat (unat a) + (w1 + w4 + w7 + (w2 + w5 + w8)) * of_nat (unat b)
              else (w0 + w3 + w6 + (w1 + w4 + w7) + (w2 + w5 + w8)) * of_nat (unat b))))"
proof -
  consider "c + 1 < k" | "c + 1 = k" | "c = k" | "k < c" by linarith
  then show ?thesis
  proof cases
    case 1
    show ?thesis unfolding response_profile [OF assms] using 1 by (simp add: algebra_simps)
  next
    case 2
    show ?thesis unfolding response_profile [OF assms] using 2 by (auto simp: algebra_simps)
  next
    case 3
    show ?thesis unfolding response_profile [OF assms] using 3 by (simp add: algebra_simps)
  next
    case 4
    show ?thesis unfolding response_profile [OF assms] using 4 by (simp add: algebra_simps)
  qed
qed

lemma k320: "0 < (320::nat)" "320 < gl_win_width"
  by (simp_all add: gl_win_width_def)

lemma k321: "0 < (321::nat)" "321 < gl_win_width"
  by (simp_all add: gl_win_width_def)

lemma k322: "0 < (322::nat)" "322 < gl_win_width"
  by (simp_all add: gl_win_width_def)

lemma response_box_10:
  assumes "c < gl_win_width"
  shows "column_response oor [1/8, 1/8, 1/8, 1/8, 1/8, 1/8, 1/8, 1/8, 1/8] (profile 320 10 11) c
        = profile 320 11 12 c"
  unfolding response_step [OF k320 assms]
  by (simp add: float_to_uint_def convert_uchar_sat_def profile_def floors)

lemma response_box_11:
  assumes "c < gl_win_width"
  shows "column_response oor [1/8, 1/8, 1/8, 1/8, 1/8, 1/8, 1/8, 1/8, 1/8] (profile 320 11 12) c
        = profile 320 12 13 c"
  unfolding response_step [OF k320 assms]
  by (simp add: float_to_uint_def convert_uchar_sat_def profile_def floors)

lemma response_box_dark_320:
  assumes "c < gl_win_width"
  shows "column_response oor [1/8, 1/8, 1/8, 1/8, 1/8, 1/8, 1/8, 1/8, 1/8] (profile 320 0 1) c
        = profile 321 0 1 c"
  unfolding response_step [OF k320 assms]
  by (simp add: float_to_uint_def convert_uchar_sat_def profile_def floors)

lemma response_box_dark_321:
  assumes "c < gl_win_width"
  shows "column_response oor [1/8, 1/8, 1/8, 1/8, 1/8, 1/8, 1/8, 1/8, 1/8] (profile 321 0 1) c
        = profile 322 0 1 c"
  unfolding response_step [OF k321 assms]
  by (simp add: float_to_uint_def convert_uchar_sat_def profile_def floors)

lemma response_laplacian:
  assumes "0 < k" "k < gl_win_width" "c < gl_win_width" "unat b = unat a + 1"
  shows "column_response saturating [1, 1, 1, 1, - 8, 1, 1, 1, 1] (profile k a b) c = edge_at k c"
proof -
  have B: "(of_nat (unat b) :: rat) = of_nat (unat a) + 1"
    by (simp only: assms(4) of_nat_add of_nat_1)
  have "column_response saturating [1, 1, 1, 1, - 8, 1, 1, 1, 1] (profile k a b) c
        = convert_uchar_sat (float_to_uint saturating (Finite
            (if c + 1 = k then 3 else if c = k then - 3 else 0)))"
    unfolding response_step [OF assms(1-3)] B
    by (rule arg_cong [where f = "\<lambda>q. convert_uchar_sat (float_to_uint saturating (Finite q))"])
       (auto simp: algebra_simps)
  then show ?thesis
    by (simp add: float_to_uint_def convert_uchar_sat_def edge_at_def saturating_def)
qed

lemma length_columns [simp]: "length (columns g) = gl_win_width * gl_win_height"
  by (simp add: columns_def)

lemma columns_nth:
  "p < gl_win_width * gl_win_height \<Longrightarrow> columns g ! p = g (p mod gl_win_width)"
  by (simp add: columns_def)

lemma filtered_box:
  "filtered oor box_filter (columns g)
   = columns (column_response oor [1/8, 1/8, 1/8, 1/8, 1/8, 1/8, 1/8, 1/8, 1/8] g)"
  unfolding box_map by (rule filtered_columns [OF small_box]) simp

lemma filtered_laplacian:
  "filtered oor laplacian_filter (columns g)
   = columns (column_response oor [1, 1, 1, 1, - 8, 1, 1, 1, 1] g)"
  unfolding laplacian_map by (rule filtered_columns [OF small_laplacian]) simp

lemma box_step_10:
  "filtered oor box_filter (columns (profile 320 10 11)) = columns (profile 320 11 12)"
  unfolding filtered_box
  by (rule columns_cong) (rule response_box_10)

lemma box_step_11:
  "filtered oor box_filter (columns (profile 320 11 12)) = columns (profile 320 12 13)"
  unfolding filtered_box
  by (rule columns_cong) (rule response_box_11)

lemma box_dark_320:
  "filtered oor box_filter (columns (profile 320 0 1)) = columns (profile 321 0 1)"
  unfolding filtered_box
  by (rule columns_cong) (rule response_box_dark_320)

lemma box_dark_321:
  "filtered oor box_filter (columns (profile 321 0 1)) = columns (profile 322 0 1)"
  unfolding filtered_box
  by (rule columns_cong) (rule response_box_dark_321)

lemma laplacian_step:
  assumes "0 < k" "k < gl_win_width" "unat b = unat a + 1"
  shows "filtered saturating laplacian_filter (columns (profile k a b)) = columns (edge_at k)"
  unfolding filtered_laplacian
  by (rule columns_cong) (rule response_laplacian [OF assms(1,2) _ assms(3)])

lemma result_step_frame:
  "result_image saturating True step_frame = columns (edge_at 320)"
  "result_image saturating False step_frame = columns (edge_at 320)"
  by (simp_all add: result_image_def step_frame_def box_step_10 box_step_11
      laplacian_step [OF k320])

lemma result_dark_frame:
  "result_image saturating True dark_frame = columns (edge_at 322)"
  "result_image saturating False dark_frame = columns (edge_at 320)"
  by (simp_all add: result_image_def dark_frame_def box_dark_320 box_dark_321
      laplacian_step [OF k320] laplacian_step [OF k322])

lemma edges_differ: "columns (edge_at 322) \<noteq> columns (edge_at 320)"
proof
  assume "columns (edge_at 322) = columns (edge_at 320)"
  then have "columns (edge_at 322) ! 319 = columns (edge_at 320) ! 319" by simp
  then show False
    by (simp add: columns_nth edge_at_def gl_win_width_def gl_win_height_def)
qed

section \<open>Toggling the smoothing\<close>

lemma toggleSmoothing_simps:
  "fst (toggleSmoothing f) = (\<not> smoothed f)"
  "smoothed (snd (toggleSmoothing f)) = (\<not> smoothed f)"
  "queue (snd (toggleSmoothing f)) = queue f"
  "Filter_ok (snd (toggleSmoothing f)) = Filter_ok f"
  by (simp_all add: toggleSmoothing_def Filter_ok_def)

lemma convolve_frame:
  assumes "Filter_ok f" "length frame = gl_win_width * gl_win_height"
  shows "\<exists>f'. convolve frame f
             = Inr (result_image (out_of_range (queue f)) (smoothed f) frame, f')
           \<and> Filter_ok f' \<and> smoothed f' = smoothed f
           \<and> out_of_range (queue f') = out_of_range (queue f)"
  using convolve_ok [OF assms(1), of frame] assms(2) by auto

lemma convolve_reference:
  assumes "length frame = gl_win_width * gl_win_height"
  shows "map_sum id fst (convolve frame reference_filter)
           = Inr (result_image saturating True frame)"
    and "map_sum id fst (convolve frame (snd (toggleSmoothing reference_filter)))
           = Inr (result_image saturating False frame)"
proof -
  from convolve_frame [OF reference_filter(2) assms] reference_filter(3,4)
  show "map_sum id fst (convolve frame reference_filter)
           = Inr (result_image saturating True frame)"
    by auto
  have "Filter_ok (snd (toggleSmoothing reference_filter))"
    by (simp add: toggleSmoothing_simps reference_filter(2))
  from convolve_frame [OF this assms] reference_filter(3,4)
  show "map_sum id fst (convolve frame (snd (toggleSmoothing reference_filter)))
           = Inr (result_image saturating False frame)"
    by (auto simp: toggleSmoothing_simps)
qed

lemma step_frame_facts:
  "length step_frame = gl_win_width * gl_win_height"
  "step_frame ! 319 = 10" "step_frame ! 320 = 11"
  by (simp_all add: step_frame_def columns_nth profile_def gl_win_width_def gl_win_height_def)

text \<open>
  A frame on which the two modes cannot be told apart: 10 in the columns 0 to 319 and 11
  in the columns 320 to 639 (every 3 x 3 neighbourhood across the step is non-constant).
  The box weights sum to 9/8, and on this frame each box pass adds exactly 1 to every
  texel (90/8, 93/8, 96/8, 99/8 truncate to 11, 11, 12, 12, then 99/8, 102/8, 105/8, 108/8
  to 12, 12, 13, 13), so the Laplacian sees the same step of height 1 in both modes: 3 in
  column 319, -3 (stored as 0) in column 320, 0 elsewhere. The constructor leaves
  smoothing on; one toggle switches it off.
\<close>

theorem smoothing_unobservable_on_step_frame:
  "map_sum id fst (convolve step_frame reference_filter) = Inr (columns (edge_at 320))
   \<and> map_sum id fst (convolve step_frame (snd (toggleSmoothing reference_filter)))
       = Inr (columns (edge_at 320))
   \<and> smoothed reference_filter = True
   \<and> smoothed (snd (toggleSmoothing reference_filter)) = False
   \<and> length step_frame = gl_win_width * gl_win_height
   \<and> step_frame ! 319 = 10 \<and> step_frame ! 320 = 11"
  using convolve_reference [OF step_frame_facts(1)] reference_filter(3)
  by (simp add: result_step_frame step_frame_facts toggleSmoothing_simps)

text \<open>
  C3. \<open>toggleSmoothing\<close> only flips the flag and returns its new value: two toggles
  give back the object as it was, hence the behaviour of \<open>convolve\<close>; a toggle submits
  nothing and changes no device memory, so an image already returned is not affected, and
  the \<open>convolve\<close> after the toggle filters its frame in the other mode. The images of
  the two modes can differ, as on the frame that is 0 left of column 320 and 1 from there
  on; they need not (see the step frame above).
\<close>

theorem toggleSmoothing_next_call:
  "snd (toggleSmoothing (snd (toggleSmoothing f))) = f
   \<and> toggleSmoothing f = (\<not> smoothed f, f\<lparr>smoothed := \<not> smoothed f\<rparr>)
   \<and> (Filter_ok f \<and> length frame1 = gl_win_width * gl_win_height
        \<and> length frame2 = gl_win_width * gl_win_height \<longrightarrow>
       (\<exists>f1 f2. convolve frame1 f
                   = Inr (result_image (out_of_range (queue f)) (smoothed f) frame1, f1)
              \<and> convolve frame2 (snd (toggleSmoothing f1))
                   = Inr (result_image (out_of_range (queue f)) (\<not> smoothed f) frame2, f2)))
   \<and> result_image saturating True dark_frame \<noteq> result_image saturating False dark_frame"
proof (intro conjI impI)
  show "snd (toggleSmoothing (snd (toggleSmoothing f))) = f"
    by (simp add: toggleSmoothing_def)
  show "toggleSmoothing f = (\<not> smoothed f, f\<lparr>smoothed := \<not> smoothed f\<rparr>)"
    by (simp add: toggleSmoothing_def)
  show "result_image saturating True dark_frame \<noteq> result_image saturating False dark_frame"
    by (simp add: result_dark_frame edges_differ)
next
  assume a: "Filter_ok f \<and> length frame1 = gl_win_width * gl_win_height
        \<and> length frame2 = gl_win_width * gl_win_height"
  from convolve_frame [of f frame1] a obtain f1 where
    f1: "convolve frame1 f = Inr (result_image (out_of_range (queue f)) (smoothed f) frame1, f1)"
      "Filter_ok f1" "smoothed f1 = smoothed f" "out_of_range (queue f1) = out_of_range (queue f)"
    by auto
  have "Filter_ok (snd (toggleSmoothing f1))"
    by (simp add: toggleSmoothing_simps f1(2))
  from convolve_frame [OF this, of frame2] a obtain f2 where
    "convolve frame2 (snd (toggleSmoothing f1))
       = Inr (result_image (out_of_range (queue f)) (\<not> smoothed f) frame2, f2)"
    by (auto simp: toggleSmoothing_simps f1)
  with f1(1) show "\<exists>f1 f2. convolve frame1 f
                   = Inr (result_image (out_of_range (queue f)) (smoothed f) frame1, f1)
              \<and> convolve frame2 (snd (toggleSmoothing f1))
                   = Inr (result_image (out_of_range (queue f)) (\<not> smoothed f) frame2, f2)"
    by blast
qed

theorem toggleSmoothing_next_call_witness:
  "\<exists>f1 f2. convolve dark_frame reference_filter = Inr (columns (edge_at 322), f1)
      \<and> convolve dark_frame (snd (toggleSmoothing f1)) = Inr (columns (edge_at 320), f2)"
proof -
  have l: "length dark_frame = gl_win_width * gl_win_height"
    by (simp add: dark_frame_def)
  from toggleSmoothing_next_call [of reference_filter dark_frame dark_frame]
  have "\<exists>f1 f2. convolve dark_frame reference_filter
                   = Inr (result_image (out_of_range (queue reference_filter))
                            (smoothed reference_filter) dark_frame, f1)
              \<and> convolve dark_frame (snd (toggleSmoothing f1))
                   = Inr (result_image (out_of_range (queue reference_filter))
                            (\<not> smoothed reference_filter) dark_frame, f2)"
    using reference_filter(2) l by blast
  then show ?thesis
    by (simp add: reference_filter(3,4) result_dark_frame)
qed

section \<open>Frames of another size\<close>

lemma wide_frame_facts:
  "length wide_frame = gl_win_width * (gl_win_height + 1)"
  "take (gl_win_width * gl_win_height) wide_frame = step_frame"
  "drop (gl_win_width * gl_win_height) wide_frame = replicate gl_win_width 9"
  by (simp_all add: wide_frame_def step_frame_def)

lemma convolve_short:
  assumes "Filter_ok f" "imagev \<noteq> []" "length imagev < gl_win_width * gl_win_height"
  shows "convolve imagev f
         = Inl (Undefined ''clEnqueueWriteImage reads past the end of the host vector'')"
proof -
  from assms(1) obtain img where
    img: "objects (queue f) (bufferSourceImage f) = Some (Image img)"
      "width img = gl_win_width" "height img = gl_win_height"
    by (auto simp: Filter_ok_def split: option.splits mem_object.splits)
  from assms(1) have g: "origin f = (0, 0, 0)" "region f = (gl_win_width, gl_win_height, 1)"
    by (simp_all add: Filter_ok_def)
  have "clEnqueueWriteImage (queue f) (bufferSourceImage f) (origin f) (region f) imagev
        = Inl (Undefined ''clEnqueueWriteImage reads past the end of the host vector'')"
    using assms(2,3)
    by (simp add: clEnqueueWriteImage_def img g region_fits_def gl_win_width_def gl_win_height_def)
  then show ?thesis
    by (simp add: convolve_def and_then_def)
qed

lemma convolve_null:
  assumes "Filter_ok f"
  shows "convolve [] f = Inl (Exit ''clEnqueueWriteImage'' CL_INVALID_VALUE)"
proof -
  from assms obtain img where
    img: "objects (queue f) (bufferSourceImage f) = Some (Image img)"
    by (auto simp: Filter_ok_def split: option.splits mem_object.splits)
  have "clEnqueueWriteImage (queue f) (bufferSourceImage f) (origin f) (region f) []
        = Inr (CL_INVALID_VALUE, queue f)"
    by (simp add: clEnqueueWriteImage_def img)
  moreover have "chk ''clEnqueueWriteImage'' CL_INVALID_VALUE
                 = Inl (Exit ''clEnqueueWriteImage'' CL_INVALID_VALUE)"
    by (simp add: chk_def CL_INVALID_VALUE_def CL_SUCCESS_def)
  ultimately show ?thesis
    by (simp add: convolve_def and_then_def)
qed

text \<open>
  A frame of 640 x 481 bytes is not rejected: \<open>convolve\<close> returns normally, with the
  first 640 x 480 bytes replaced by the filtered image of those bytes and the last row
  as it was.
\<close>

theorem convolve_accepts_wide_frame:
  "length wide_frame = gl_win_width * (gl_win_height + 1)
   \<and> length wide_frame \<noteq> gl_win_width * gl_win_height
   \<and> map_sum id fst (convolve wide_frame reference_filter)
       = Inr (columns (edge_at 320) @ replicate gl_win_width 9)"
proof -
  have "gl_win_width * gl_win_height \<le> length wide_frame"
    by (simp add: wide_frame_facts)
  from convolve_ok [OF reference_filter(2) this]
  have "map_sum id fst (convolve wide_frame reference_filter)
       = Inr (columns (edge_at 320) @ replicate gl_win_width 9)"
    by (auto simp: wide_frame_facts(2,3) reference_filter(3,4) result_step_frame)
  then show ?thesis by (simp add: wide_frame_facts(1) gl_win_width_def)
qed

text \<open>
  C6. \<open>convolve\<close> does not look at the size of the vector. From a vector of at least
  640 x 480 bytes it takes the first 640 x 480 as the image, replaces them by the result
  and leaves the rest. For a shorter vector that is not empty, \<open>clEnqueueWriteImage\<close>
  reads past its end, which is undefined behaviour and not a reported error. For an empty
  vector the data pointer is null: \<open>clEnqueueWriteImage\<close> returns \<open>CL_INVALID_VALUE\<close>,
  and \<open>chk\<close> reports it and ends the program.
\<close>

theorem convolve_unchecked_size:
  assumes "Filter_ok f"
  shows "(gl_win_width * gl_win_height \<le> length imagev \<longrightarrow>
            (\<exists>f'. convolve imagev f
               = Inr (result_image (out_of_range (queue f)) (smoothed f)
                        (take (gl_win_width * gl_win_height) imagev)
                      @ drop (gl_win_width * gl_win_height) imagev, f')))
       \<and> (imagev \<noteq> [] \<and> length imagev < gl_win_width * gl_win_height \<longrightarrow>
            convolve imagev f
              = Inl (Undefined ''clEnqueueWriteImage reads past the end of the host vector''))
       \<and> convolve [] f = Inl (Exit ''clEnqueueWriteImage'' CL_INVALID_VALUE)"
  using convolve_ok [OF assms, of imagev] convolve_short [OF assms, of imagev]
    convolve_null [OF assms]
  by blast

theorem convolve_unchecked_size_witness:
  "(\<exists>f'. convolve wide_frame reference_filter
           = Inr (columns (edge_at 320) @ replicate gl_win_width 9, f'))
   \<and> convolve [5] reference_filter
       = Inl (Undefined ''clEnqueueWriteImage reads past the end of the host vector'')
   \<and> convolve [] reference_filter = Inl (Exit ''clEnqueueWriteImage'' CL_INVALID_VALUE)"
proof -
  note t = convolve_unchecked_size [OF reference_filter(2)]
  have "gl_win_width * gl_win_height \<le> length wide_frame"
    by (simp add: wide_frame_facts)
  with t [of wide_frame] have
    "\<exists>f'. convolve wide_frame reference_filter
               = Inr (result_image (out_of_range (queue reference_filter)) (smoothed reference_filter)
                        (take (gl_win_width * gl_win_height) wide_frame)
                      @ drop (gl_win_width * gl_win_height) wide_frame, f')"
    by blast
  then have a: "\<exists>f'. convolve wide_frame reference_filter
           = Inr (columns (edge_at 320) @ replicate gl_win_width 9, f')"
    by (simp add: wide_frame_facts(2,3) reference_filter(3,4) result_step_frame)
  have "[5 :: uint8_t] \<noteq> [] \<and> length [5 :: uint8_t] < gl_win_width * gl_win_height"
    by (simp add: gl_win_width_def gl_win_height_def)
  with t [of "[5]"] have b: "convolve [5] reference_filter
       = Inl (Undefined ''clEnqueueWriteImage reads past the end of the host vector'')"
    by blast
  from t [of "[]"] have "convolve [] reference_filter
       = Inl (Exit ''clEnqueueWriteImage'' CL_INVALID_VALUE)"
    by blast
  with a b show ?thesis by blast
qed

end
